theory Spec2Isabelle
  imports Main
begin

section \<open>Strings\<close>

text \<open>
  A JavaScript string is modelled as a \<^typ>\<open>string\<close>: a list of code units, each below 256
  (the Latin-1 range). \<open>toLowerCase\<close> and \<open>toUpperCase\<close> act on every code unit on its own in
  that range; the two units whose upper case lies above 255 (0xB5 and 0xFF) and the one whose
  upper case is two units long (0xDF) are left as they are by \<open>toUpperCaseChar\<close>.
\<close>

definition toLowerCaseChar :: "char \<Rightarrow> char" where
  "toLowerCaseChar c =
     (let n = (of_char c :: nat)
      in if (65 \<le> n \<and> n \<le> 90) \<or> (192 \<le> n \<and> n \<le> 222 \<and> n \<noteq> 215)
         then char_of (n + 32) else c)"

definition toUpperCaseChar :: "char \<Rightarrow> char" where
  "toUpperCaseChar c =
     (let n = (of_char c :: nat)
      in if (97 \<le> n \<and> n \<le> 122) \<or> (224 \<le> n \<and> n \<le> 254 \<and> n \<noteq> 247)
         then char_of (n - 32) else c)"

definition toLowerCase :: "string \<Rightarrow> string" where
  "toLowerCase s = map toLowerCaseChar s"

fun startsWith :: "string \<Rightarrow> string \<Rightarrow> bool" where
  "startsWith s [] = True"
| "startsWith [] (c # cs) = False"
| "startsWith (x # xs) (c # cs) = (x = c \<and> startsWith xs cs)"

fun includesStr :: "string \<Rightarrow> string \<Rightarrow> bool" where
  "includesStr [] sub = (sub = [])"
| "includesStr (x # xs) sub = (startsWith (x # xs) sub \<or> includesStr xs sub)"

fun join :: "string \<Rightarrow> string list \<Rightarrow> string" where
  "join sep [] = []"
| "join sep [x] = x"
| "join sep (x # y # ys) = x @ sep @ join sep (y # ys)"

text \<open>\<open>s.split(/[_-]/)\<close>: the pieces of \<open>s\<close> between separators, empty pieces included.\<close>

fun splitOn :: "(char \<Rightarrow> bool) \<Rightarrow> string \<Rightarrow> string list" where
  "splitOn sep [] = [[]]"
| "splitOn sep (c # cs) =
     (if sep c then [] # splitOn sep cs
      else (case splitOn sep cs of [] \<Rightarrow> [[c]] | p # ps \<Rightarrow> (c # p) # ps))"

text \<open>\<open>part.charAt(0).toUpperCase() + part.slice(1)\<close>\<close>

fun capitalize :: "string \<Rightarrow> string" where
  "capitalize [] = []"
| "capitalize (c # cs) = toUpperCaseChar c # cs"

section \<open>Regular expressions\<close>

text \<open>
  The patterns of the corpus use literals, \<open>.\<close>, character classes, \<open>\b\<close>, sequence,
  alternation and the greedy quantifiers \<open>*\<close>, \<open>+\<close>, \<open>?\<close> and \<open>{n}\<close>. A matcher state is the
  code unit before the current position and the input that is left. \<open>matchFrom\<close> returns the
  states a pattern can end in, in the order the backtracking matcher of JavaScript tries
  them, so the head of the list is the match that JavaScript reports.
\<close>

datatype regex =
    Lit string
  | AnyChar
  | Cls bool "(char \<times> char) list"
  | WordB
  | Seq regex regex
  | Alt regex regex
  | Star regex

type_synonym mstate = "char option \<times> string"

definition charEq :: "bool \<Rightarrow> char \<Rightarrow> char \<Rightarrow> bool" where
  "charEq i c x = (if i then toLowerCaseChar c = toLowerCaseChar x else c = x)"

fun litMatch :: "bool \<Rightarrow> string \<Rightarrow> mstate \<Rightarrow> mstate list" where
  "litMatch i [] st = [st]"
| "litMatch i (c # cs) (p, []) = []"
| "litMatch i (c # cs) (p, x # xs) = (if charEq i c x then litMatch i cs (Some x, xs) else [])"

definition inRange :: "char \<Rightarrow> char \<times> char \<Rightarrow> bool" where
  "inRange x r = ((of_char (fst r) :: nat) \<le> of_char x \<and> (of_char x :: nat) \<le> of_char (snd r))"

definition inClass :: "bool \<Rightarrow> (char \<times> char) list \<Rightarrow> char \<Rightarrow> bool" where
  "inClass i rs x =
     list_ex (\<lambda>r. inRange x r \<or> (i \<and> (inRange (toLowerCaseChar x) r \<or> inRange (toUpperCaseChar x) r))) rs"

definition isLineTerminator :: "char \<Rightarrow> bool" where
  "isLineTerminator x = (x = CHR 0x0A \<or> x = CHR 0x0D)"

definition isWordChar :: "char \<Rightarrow> bool" where
  "isWordChar x = (inRange x (CHR ''a'', CHR ''z'') \<or> inRange x (CHR ''A'', CHR ''Z'')
      \<or> inRange x (CHR ''0'', CHR ''9'') \<or> x = CHR ''_'')"

text \<open>
  A greedy star: one more iteration first, then stopping. An iteration that consumes nothing
  is rejected, as in JavaScript, so the length of the input bounds the number of iterations.
\<close>

fun starIter :: "(mstate \<Rightarrow> mstate list) \<Rightarrow> nat \<Rightarrow> mstate \<Rightarrow> mstate list" where
  "starIter f 0 st = [st]"
| "starIter f (Suc n) st =
     concat (map (\<lambda>st'. if length (snd st') < length (snd st) then starIter f n st' else []) (f st))
     @ [st]"

primrec matchFrom :: "regex \<Rightarrow> bool \<Rightarrow> mstate \<Rightarrow> mstate list" where
  "matchFrom (Lit cs) i st = litMatch i cs st"
| "matchFrom AnyChar i st =
     (case snd st of [] \<Rightarrow> [] | x # xs \<Rightarrow> if isLineTerminator x then [] else [(Some x, xs)])"
| "matchFrom (Cls neg rs) i st =
     (case snd st of [] \<Rightarrow> [] | x # xs \<Rightarrow> if inClass i rs x \<noteq> neg then [(Some x, xs)] else [])"
| "matchFrom WordB i st =
     (let a = (case fst st of None \<Rightarrow> False | Some c \<Rightarrow> isWordChar c);
          b = (case snd st of [] \<Rightarrow> False | x # xs \<Rightarrow> isWordChar x)
      in if a \<noteq> b then [st] else [])"
| "matchFrom (Seq a b) i st = concat (map (matchFrom b i) (matchFrom a i st))"
| "matchFrom (Alt a b) i st = matchFrom a i st @ matchFrom b i st"
| "matchFrom (Star a) i st = starIter (matchFrom a i) (length (snd st)) st"

definition Plus :: "regex \<Rightarrow> regex" where
  "Plus a = Seq a (Star a)"

definition Opt :: "regex \<Rightarrow> regex" where
  "Opt a = Alt a (Lit [])"

fun Rep :: "nat \<Rightarrow> regex \<Rightarrow> regex" where
  "Rep 0 a = Lit []"
| "Rep (Suc n) a = Seq a (Rep n a)"

fun Seqs :: "regex list \<Rightarrow> regex" where
  "Seqs [] = Lit []"
| "Seqs [r] = r"
| "Seqs (r # rs) = Seq r (Seqs rs)"

fun Alts :: "regex list \<Rightarrow> regex" where
  "Alts [] = Cls False []"
| "Alts [r] = r"
| "Alts (r # rs) = Alt r (Alts rs)"

definition oneOf :: "string \<Rightarrow> regex" where
  "oneOf cs = Cls False (map (\<lambda>c. (c, c)) cs)"

definition noneOf :: "string \<Rightarrow> regex" where
  "noneOf cs = Cls True (map (\<lambda>c. (c, c)) cs)"

definition digit :: regex where
  "digit = Cls False [(CHR ''0'', CHR ''9'')]"

definition digitOrDot :: regex where
  "digitOrDot = Cls False [(CHR ''0'', CHR ''9''), (CHR ''.'', CHR ''.'')]"

text \<open>The class \<open>["']\<close> and its complement \<open>[^"']\<close>.\<close>

definition quote :: regex where
  "quote = Cls False [(CHR 0x22, CHR 0x22), (CHR 0x27, CHR 0x27)]"

definition notQuote :: regex where
  "notQuote = Cls True [(CHR 0x22, CHR 0x22), (CHR 0x27, CHR 0x27)]"

text \<open>A pattern with its \<open>i\<close> flag. No pattern of the program has the \<open>g\<close> or \<open>y\<close> flag, so
  \<open>test\<close> keeps no state between calls.\<close>

datatype jsRegex = RegExp regex bool

definition rx :: "regex \<Rightarrow> jsRegex" where
  "rx r = RegExp r False"

definition rxi :: "regex \<Rightarrow> jsRegex" where
  "rxi r = RegExp r True"

fun searchFrom :: "regex \<Rightarrow> bool \<Rightarrow> char option \<Rightarrow> string \<Rightarrow> bool" where
  "searchFrom r i p [] = (matchFrom r i (p, []) \<noteq> [])"
| "searchFrom r i p (x # xs) = (matchFrom r i (p, x # xs) \<noteq> [] \<or> searchFrom r i (Some x) xs)"

fun test :: "jsRegex \<Rightarrow> string \<Rightarrow> bool" where
  "test (RegExp r i) s = searchFrom r i None s"

text \<open>
  \<open>text.match(pattern)[1]\<close> for a pattern \<open>pre(grp)post\<close> with one capturing group: the
  leftmost start, and there the first way through \<open>pre\<close>, \<open>grp\<close> and \<open>post\<close> in backtracking
  order; the capture is what \<open>grp\<close> consumed.
\<close>

definition captureAt :: "regex \<Rightarrow> regex \<Rightarrow> regex \<Rightarrow> bool \<Rightarrow> mstate \<Rightarrow> string option" where
  "captureAt pre grp post i st =
     (case concat (map (\<lambda>s1. concat (map (\<lambda>s2. map (\<lambda>s3. take (length (snd s1) - length (snd s2)) (snd s1))
                                                     (matchFrom post i s2))
                                         (matchFrom grp i s1)))
                       (matchFrom pre i st))
      of [] \<Rightarrow> None | c # cs \<Rightarrow> Some c)"

fun matchGroup1 :: "regex \<Rightarrow> regex \<Rightarrow> regex \<Rightarrow> bool \<Rightarrow> char option \<Rightarrow> string \<Rightarrow> string option" where
  "matchGroup1 pre grp post i p [] = captureAt pre grp post i (p, [])"
| "matchGroup1 pre grp post i p (x # xs) =
     (case captureAt pre grp post i (p, x # xs) of
        Some c \<Rightarrow> Some c
      | None \<Rightarrow> matchGroup1 pre grp post i (Some x) xs)"

section \<open>The signature corpus\<close>

datatype category = Frontend | Backend | Cms | Analytics | Hosting | Cdn | Libraries

text \<open>
  One entry of \<open>WAF_PATTERNS\<close>. A channel that the entry does not have is the empty list
  or \<open>None\<close>: the scorer skips it either way.
\<close>

record wafPattern =
  wHeaders :: "string list"
  wCookies :: "string list"
  wServer :: "jsRegex option"
  wHtml :: "jsRegex option"

definition WAF_PATTERNS :: "(string \<times> wafPattern) list" where
  "WAF_PATTERNS =
   [(''cloudflare'',
      \<lparr>wHeaders = [''cf-ray'', ''cf-cache-status'', ''__cfduid'', ''cf-request-id''],
       wCookies = [''__cfduid'', ''__cf_bm'', ''__cfwaf''],
       wServer = Some (rxi (Lit ''cloudflare'')),
       wHtml = Some (rxi (Alts [Lit ''cloudflare'', Lit ''cf-html'', Lit ''cf-error'']))\<rparr>),
    (''akamai'',
      \<lparr>wHeaders = [''akamai-origin-hop'', ''akamai-grn'', ''akamai-request-bc'', ''x-akamai-transformed''],
       wCookies = [],
       wServer = Some (rxi (Alts [Lit ''akamaighost'', Lit ''akamaitechnologies''])),
       wHtml = None\<rparr>),
    (''imperva'',
      \<lparr>wHeaders = [''x-cdn'', ''x-iinfo'', ''x-originating-ip''],
       wCookies = [''incap_ses'', ''visid_incap'', ''__incap_0''],
       wServer = None,
       wHtml = Some (rxi (Alts [Lit ''incapsula'', Lit ''imperva'']))\<rparr>),
    (''perimeterx'',
      \<lparr>wHeaders = [''x-px-authorization''],
       wCookies = [''_px3'', ''_px2'', ''_pxvid'', ''_pxAppId''],
       wServer = None,
       wHtml = None\<rparr>),
    (''kasada'',
      \<lparr>wHeaders = [],
       wCookies = [''x-kpsdk-ct'', ''x-kpsdk-cd'', ''kas.u''],
       wServer = None,
       wHtml = None\<rparr>),
    (''datadome'',
      \<lparr>wHeaders = [''x-datadome-cid''],
       wCookies = [''datadome'', ''__dd_btid''],
       wServer = None,
       wHtml = None\<rparr>),
    (''awswaf'',
      \<lparr>wHeaders = [''x-amzn-waf-action'', ''x-amzn-waf-flags''],
       wCookies = [],
       wServer = None,
       wHtml = None\<rparr>),
    (''modsecurity'',
      \<lparr>wHeaders = [''mod-security''],
       wCookies = [],
       wServer = None,
       wHtml = Some (rxi (Alts [Lit ''modsecurity'', Lit ''mod_security'']))\<rparr>)]"

text \<open>
  One entry of \<open>TECH_PATTERNS\<close>, with the channels that \<open>analyzeStaticResponse\<close> reads. A
  single pattern is the one-element list the scanner turns it into; a channel the entry does
  not have is the empty list. The \<open>window\<close> and \<open>endpoints\<close> lists of the entries are read by
  no function of the program and are left out.
\<close>

record techPattern =
  pScript :: "jsRegex list"
  pLink :: "jsRegex list"
  pMeta :: "(string \<times> jsRegex option) list"
  pHtml :: "jsRegex list"
  pHeaders :: "(string \<times> jsRegex) list"
  pCdn :: "string list"

definition noPatterns :: techPattern where
  "noPatterns = \<lparr>pScript = [], pLink = [], pMeta = [], pHtml = [], pHeaders = [], pCdn = []\<rparr>"

text \<open>\<open>/name[@\-.].*\.ext/\<close>, the shape of most script and stylesheet patterns.\<close>

definition versionedFile :: "string \<Rightarrow> string \<Rightarrow> regex" where
  "versionedFile name ext = Seqs [Lit name, oneOf ''@-.'', Star AnyChar, Lit ext]"

text \<open>\<open>{ name: 'generator', content: /word/i }\<close>\<close>

definition generator :: "string \<Rightarrow> string \<times> jsRegex option" where
  "generator word = (''generator'', Some (rxi (Lit word)))"

text \<open>\<open>/.+/\<close>, the pattern of a header that only has to be present and not empty.\<close>

definition nonEmpty :: jsRegex where
  "nonEmpty = rx (Plus AnyChar)"

text \<open>\<open>/class=["'][^"']*(a|b|...)/\<close>, the start of the class-attribute patterns.\<close>

definition classWith :: "string list \<Rightarrow> regex list" where
  "classWith names = [Lit ''class='', quote, Star notQuote, Alts (map Lit names)]"

definition frontendPatterns :: "(string \<times> techPattern) list" where
  "frontendPatterns =
   [(''react'', noPatterns
      \<lparr>pScript := [rxi (Alts [versionedFile ''react'' ''.js'', Lit ''react.production'',
                               Lit ''react.development''])],
       pMeta := [generator ''react''],
       pHtml := [rxi (Seqs [Lit ''<div'', Plus (noneOf ''>''), Lit ''id='', quote, Lit ''root'', quote]),
                 rxi (Alts [Lit ''ReactDOM.render'', Lit ''ReactDOM.createRoot''])],
       pCdn := [''unpkg.com/react'', ''cdnjs.com/ajax/libs/react'']\<rparr>),
    (''vue'', noPatterns
      \<lparr>pScript := [rxi (Alts [versionedFile ''vue'' ''.js'', Lit ''vue.global'', Lit ''vue.esm''])],
       pHtml := [rx (Seq (Lit ''data-v-'')
                         (Rep 8 (Cls False [(CHR ''a'', CHR ''f''), (CHR ''0'', CHR ''9'')]))),
                 rxi (Alts [Lit ''v-if'', Lit ''v-for'', Lit ''v-bind'', Lit ''v-on''])],
       pCdn := [''unpkg.com/vue'', ''cdn.jsdelivr.net/npm/vue'']\<rparr>),
    (''angular'', noPatterns
      \<lparr>pScript := [rxi (Alts [Lit ''@angular/core'', Lit ''angular.min.js'', Lit ''angular.js''])],
       pHtml := [rxi (Seqs [Lit ''ng-version='', quote, Plus digit, Lit ''.'', Plus digit]),
                 rxi (Alts [Lit ''_nghost-'', Lit ''_ngcontent-'', Lit ''<app-root''])],
       pMeta := [generator ''angular'']\<rparr>),
    (''svelte'', noPatterns
      \<lparr>pScript := [rxi (versionedFile ''svelte'' ''.js'')],
       pHtml := [rx (Seq (Lit ''svelte-'')
                         (Plus (Cls False [(CHR ''a'', CHR ''z''), (CHR ''0'', CHR ''9'')]))),
                 rxi (Lit ''hidden={true}'')]\<rparr>),
    (''nextjs'', noPatterns
      \<lparr>pScript := [rxi (Alts [Lit ''_next/static'', Lit ''__NEXT_DATA__'', Lit ''next/image''])],
       pMeta := [(''next-head-count'', None), (''next-size-adjust'', None)],
       pHtml := [rxi (Seqs [Lit ''<script'', Plus (noneOf ''>''), Lit ''_next/static'']),
                 rx (Lit ''__NEXT_DATA__'')],
       pHeaders := [(''x-nextjs'', nonEmpty)]\<rparr>),
    (''nuxtjs'', noPatterns
      \<lparr>pScript := [rxi (Alts [Lit ''_nuxt/'', Lit ''nuxt.app''])],
       pHtml := [rxi (Seqs [Lit ''<div'', Plus (noneOf ''>''), Lit ''id='', quote, Lit ''__nuxt'']),
                 rx (Lit ''__NUXT__'')]\<rparr>),
    (''gatsby'', noPatterns
      \<lparr>pMeta := [generator ''gatsby''],
       pHtml := [rxi (Seqs [Lit ''<div'', Plus (noneOf ''>''), Lit ''id='', quote, Lit ''___gatsby'']),
                 rx (Lit ''gatsby-focus-wrapper'')]\<rparr>),
    (''remix'', noPatterns
      \<lparr>pScript := [rxi (Alts [Lit ''remix'', Lit ''@remix-run''])],
       pHtml := [rxi (Alts [Lit ''remix-route'', Lit ''remix-page''])]\<rparr>),
    (''astro'', noPatterns
      \<lparr>pScript := [rxi (Alts [Lit ''astro'', Lit ''astro.default''])],
       pHtml := [rxi (Alts [Lit ''astro-root'', Lit ''astro-island''])]\<rparr>)]"

definition cmsPatterns :: "(string \<times> techPattern) list" where
  "cmsPatterns =
   [(''wordpress'', noPatterns
      \<lparr>pMeta := [generator ''wordpress''],
       pHtml := [rxi (Lit ''wp-content/themes/''), rxi (Lit ''wp-content/plugins/''),
                 rxi (Lit ''wp-includes/'')],
       pScript := [rxi (Alts [Lit ''wp-emoji-release.min.js'', Lit ''wp-admin''])],
       pLink := [rxi (Alts [Lit ''wp-content/themes/'', Lit ''wp-includes/css/''])]\<rparr>),
    (''drupal'', noPatterns
      \<lparr>pMeta := [generator ''drupal''],
       pHtml := [rxi (Alts [Lit ''Drupal.settings'', Lit ''drupal.org'']),
                 rx (Lit ''sites/default/files'')]\<rparr>),
    (''joomla'', noPatterns
      \<lparr>pMeta := [generator ''joomla''],
       pHtml := [rxi (Alts [Lit ''/components/com_'', Lit ''/modules/mod_'', Lit ''joomla''])]\<rparr>),
    (''shopify'', noPatterns
      \<lparr>pHtml := [rxi (Alts [Lit ''cdn.shopify.com'', Lit ''shopify-buy.js'',
                             Seqs [Lit ''Shopify.'', Star AnyChar, Lit ''='']])],
       pHeaders := [(''x-shopify-stage'', nonEmpty)],
       pScript := [rxi (Alts [Lit ''Shopify.shop'', Lit ''Shopify.theme''])]\<rparr>),
    (''magento'', noPatterns
      \<lparr>pHtml := [rxi (Lit ''Mage.Cookies''),
                 rxi (Seqs [Lit ''var BLANK_URL'', Star AnyChar, Lit ''checkout/cart''])],
       pScript := [rxi (Alts [Lit ''mage/cookies.js'', Lit ''magento''])],
       pMeta := [generator ''magento'']\<rparr>),
    (''wix'', noPatterns
      \<lparr>pHtml := [rxi (Alts [Lit ''static.parastorage.com'', Lit ''wixstatic.com''])],
       pScript := [rxi (Alts [Lit ''static.wixstatic.com'', Lit ''wix-code-viewer''])],
       pMeta := [generator ''wix.com'']\<rparr>),
    (''squarespace'', noPatterns
      \<lparr>pMeta := [generator ''squarespace''],
       pHtml := [rxi (Alts [Lit ''squarespace'', Lit ''sqs-''])]\<rparr>),
    (''weebly'', noPatterns
      \<lparr>pScript := [rxi (Alts [Seqs [Lit ''cdn'', Plus digit, Lit ''.editmysite.com''],
                               Lit ''weebly.com/weebly''])],
       pHtml := [rxi (Seqs [Lit ''class='', quote, Lit ''weebly-''])],
       pMeta := [generator ''weebly'']\<rparr>),
    (''typo3'', noPatterns
      \<lparr>pMeta := [generator ''typo3''],
       pHtml := [rxi (Alts [Lit ''typo3'', Lit ''/typo3''])]\<rparr>)]"

definition uiPatterns :: "(string \<times> techPattern) list" where
  "uiPatterns =
   [(''bootstrap'', noPatterns
      \<lparr>pScript := [rxi (Alts [Seqs [Lit ''bootstrap'', oneOf ''@-.'', Lit ''.min.js''],
                               versionedFile ''bootstrap'' ''.bundle''])],
       pLink := [rxi (Alts [versionedFile ''bootstrap'' ''.min.css'', versionedFile ''bootstrap'' ''.css''])],
       pHtml := [rxi (Seqs (classWith [''btn-primary'', ''btn-secondary'', ''btn-success'', ''btn-danger'']
                            @ [Star notQuote, quote])),
                 rxi (Seqs (classWith [''container-fluid'', ''row'', ''col-'']))]\<rparr>),
    (''tailwind'', noPatterns
      \<lparr>pLink := [rxi (Alts [Lit ''tailwindcss'', Seqs [Lit ''tailwind'', Star AnyChar, Lit ''.css'']])],
       pScript := [rxi (Lit ''cdn.tailwindcss.com'')],
       pHtml := [rxi (Seqs (classWith [''bg-gradient-'', ''from-'', ''to-'', ''via-'']
                            @ [Star notQuote, quote])),
                 rxi (Seqs (classWith [''hover:'', ''focus:'', ''active:'', ''group-'']))]\<rparr>),
    (''materialui'', noPatterns
      \<lparr>pScript := [rxi (Alts [Lit ''@mui/material'', Lit ''material-ui''])],
       pHtml := [rxi (Alts [Lit ''MuiButton'', Lit ''MuiPaper'', Lit ''MuiTypography'', Lit ''MuiContainer''])]\<rparr>),
    (''bulma'', noPatterns
      \<lparr>pLink := [rxi (Alts [Seqs [Lit ''bulma'', Opt (Seq (Lit ''@'') (Plus digitOrDot)), Lit ''/css/bulma''],
                             Lit ''bulma.min.css''])],
       pHtml := [rxi (Seqs (classWith [''is-primary'', ''is-link'', ''is-info'', ''is-success'']
                            @ [Star notQuote, quote])),
                 rxi (Seqs (classWith [''hero'', ''card'', ''panel'', ''notification'', ''message'']
                            @ [WordB]))]\<rparr>),
    (''foundation'', noPatterns
      \<lparr>pScript := [rxi (versionedFile ''foundation'' ''.js'')],
       pLink := [rxi (versionedFile ''foundation'' ''.css'')]\<rparr>),
    (''semanticui'', noPatterns
      \<lparr>pScript := [rxi (Seqs [Lit ''semantic'', oneOf ''@-.'', Lit ''ui'', Star AnyChar, Lit ''.js''])],
       pLink := [rxi (Seqs [Lit ''semantic'', oneOf ''@-.'', Lit ''ui'', Star AnyChar, Lit ''.css''])]\<rparr>)]"

definition libraryPatterns :: "(string \<times> techPattern) list" where
  "libraryPatterns =
   [(''jquery'', noPatterns \<lparr>pScript := [rxi (versionedFile ''jquery'' ''.js'')]\<rparr>),
    (''lodash'', noPatterns \<lparr>pScript := [rxi (versionedFile ''lodash'' ''.js'')]\<rparr>),
    (''underscore'', noPatterns \<lparr>pScript := [rxi (versionedFile ''underscore'' ''.js'')]\<rparr>),
    (''momentjs'', noPatterns \<lparr>pScript := [rxi (versionedFile ''moment'' ''.js'')]\<rparr>),
    (''d3'', noPatterns \<lparr>pScript := [rxi (versionedFile ''d3'' ''.js'')]\<rparr>),
    (''threejs'', noPatterns
      \<lparr>pScript := [rxi (Alts [versionedFile ''three'' ''.js'', Lit ''three.min.js''])]\<rparr>)]"

definition analyticsPatterns :: "(string \<times> techPattern) list" where
  "analyticsPatterns =
   [(''googleanalytics'', noPatterns
      \<lparr>pScript := [rxi (Alts [Lit ''google-analytics.com'', Lit ''googletagmanager.com/gtag'',
                               Lit ''analytics.js'']),
                   rxi (Alts [Lit ''ga('', Lit ''gtag(''])],
       pHtml := [rxi (Alts [Lit ''gtag('', Lit ''_gaq'', Lit ''ga(''])]\<rparr>),
    (''gtm'', noPatterns
      \<lparr>pScript := [rxi (Lit ''googletagmanager.com/gtm.js'')],
       pHtml := [rxi (Alts [Lit ''<!-- Google Tag Manager -->'',
                             Seqs [Lit ''noscript'', Star AnyChar, Lit ''googletagmanager'']])]\<rparr>),
    (''hotjar'', noPatterns
      \<lparr>pScript := [rxi (Alts [Lit ''static.hotjar.com'',
                               Seqs [Lit ''hj'', Star (Lit ''-''), Lit ''script'']])]\<rparr>),
    (''mixpanel'', noPatterns
      \<lparr>pScript := [rxi (Alts [Lit ''cdn.mxpnl.com'', Lit ''mixpanel.com/track''])]\<rparr>),
    (''segment'', noPatterns
      \<lparr>pScript := [rxi (Alts [Lit ''segment.com'', Lit ''analytics.js''])]\<rparr>),
    (''amplitude'', noPatterns
      \<lparr>pScript := [rxi (Lit ''cdn.amplitude.com'')]\<rparr>),
    (''intercom'', noPatterns
      \<lparr>pScript := [rxi (Alts [Lit ''intercom.io'', Lit ''app.intercom.com''])]\<rparr>),
    (''sentry'', noPatterns
      \<lparr>pScript := [rxi (Alts [Lit ''sentry.io'', Lit ''@sentry''])]\<rparr>)]"

definition hostingPatterns :: "(string \<times> techPattern) list" where
  "hostingPatterns =
   [(''vercel'', noPatterns
      \<lparr>pHeaders := [(''x-vercel-id'', nonEmpty), (''x-vercel-cache'', nonEmpty),
                    (''x-vercel-skew'', nonEmpty)],
       pHtml := [rxi (Alts [Lit ''vercel'', Lit ''vercel.com''])]\<rparr>),
    (''netlify'', noPatterns
      \<lparr>pHeaders := [(''x-nf-request-id'', nonEmpty), (''x-nf-cache'', nonEmpty)],
       pHtml := [rxi (Alts [Lit ''netlify'', Lit ''netlify.com''])],
       pMeta := [generator ''netlify'']\<rparr>),
    (''heroku'', noPatterns
      \<lparr>pHeaders := [(''x-heroku'', nonEmpty)],
       pHtml := [rxi (Lit ''heroku.com'')]\<rparr>),
    (''digitalocean'', noPatterns
      \<lparr>pHeaders := [(''server'', rxi (Alts [Lit ''digitalocean'', Lit ''DO-AppPlatform'']))]\<rparr>),
    (''aws'', noPatterns
      \<lparr>pHeaders := [(''server'', rxi (Alts [Lit ''amazon'', Lit ''aws'', Lit ''elasticloadbalancing'']))],
       pHtml := [rxi (Alts [Lit ''amazonaws.com'', Lit ''aws.amazon.com''])]\<rparr>)]"

definition cdnPatterns :: "(string \<times> techPattern) list" where
  "cdnPatterns =
   [(''cloudflare'', noPatterns
      \<lparr>pHeaders := [(''cf-ray'', nonEmpty), (''cf-cache-status'', nonEmpty)]\<rparr>),
    (''cloudfront'', noPatterns
      \<lparr>pHeaders := [(''x-amz-cf-pop'', nonEmpty), (''x-amz-cf-id'', nonEmpty)]\<rparr>),
    (''fastly'', noPatterns
      \<lparr>pHeaders := [(''x-served-by'', rxi (Seqs [Lit ''cache-'', Star AnyChar, Lit ''.fastly.net''])),
                    (''x-fastly-request-id'', nonEmpty)]\<rparr>),
    (''akamai_cdn'', noPatterns
      \<lparr>pHeaders := [(''x-akamai-transformed'', nonEmpty)]\<rparr>)]"

text \<open>The entries in the order of their declaration, which is the order the scanner visits them in.\<close>

definition TECH_PATTERNS :: "(string \<times> techPattern) list" where
  "TECH_PATTERNS = frontendPatterns @ cmsPatterns @ uiPatterns @ libraryPatterns
     @ analyticsPatterns @ hostingPatterns @ cdnPatterns"

definition TECH_CATEGORIES :: "(category \<times> string list) list" where
  "TECH_CATEGORIES =
   [(Frontend, [''react'', ''vue'', ''angular'', ''svelte'', ''nextjs'', ''nuxtjs'', ''gatsby'', ''remix'', ''astro'']),
    (Cms, [''wordpress'', ''drupal'', ''joomla'', ''shopify'', ''magento'', ''wix'', ''squarespace'', ''weebly'', ''typo3'']),
    (Analytics, [''googleanalytics'', ''gtm'', ''hotjar'', ''mixpanel'', ''segment'', ''amplitude'', ''intercom'', ''sentry'']),
    (Hosting, [''vercel'', ''netlify'', ''heroku'', ''digitalocean'', ''aws'']),
    (Cdn, [''cloudflare'', ''cloudfront'', ''fastly'', ''akamai_cdn''])]"

definition MIN_CONFIDENCE_BY_CATEGORY :: "(category \<times> nat) list" where
  "MIN_CONFIDENCE_BY_CATEGORY =
   [(Cms, 3), (Frontend, 2), (Analytics, 2), (Hosting, 2), (Cdn, 2), (Libraries, 2)]"

text \<open>An entry of \<open>STACK_INFERENCES\<close>: its languages and its databases (none when the entry
  has no \<open>databases\<close>).\<close>

definition STACK_INFERENCES :: "(string \<times> string list \<times> string list) list" where
  "STACK_INFERENCES =
   [(''wordpress'', [''PHP''], [''MySQL/MariaDB'']),
    (''drupal'', [''PHP''], [''MySQL/MariaDB'', ''PostgreSQL'']),
    (''joomla'', [''PHP''], [''MySQL/MariaDB'']),
    (''magento'', [''PHP''], [''MySQL/MariaDB'']),
    (''shopify'', [''Ruby on Rails''], [''Shopify managed store'']),
    (''wix'', [''Wix platform''], [''Wix Data'']),
    (''squarespace'', [''Squarespace platform''], [''Squarespace Data'']),
    (''weebly'', [''Weebly platform''], [''Weebly Data'']),
    (''typo3'', [''PHP''], [''MySQL/MariaDB'']),
    (''nextjs'', [''Node.js''], []),
    (''nuxtjs'', [''Node.js''], []),
    (''react'', [''JavaScript/TypeScript''], []),
    (''vue'', [''JavaScript/TypeScript''], []),
    (''angular'', [''JavaScript/TypeScript''], []),
    (''svelte'', [''JavaScript/TypeScript''], []),
    (''astro'', [''JavaScript/TypeScript''], [])]"

definition DISPLAY_NAMES :: "(string \<times> string) list" where
  "DISPLAY_NAMES =
   [(''nextjs'', ''Next.js''),
    (''nuxtjs'', ''Nuxt.js''),
    (''gatsby'', ''Gatsby''),
    (''remix'', ''Remix''),
    (''astro'', ''Astro''),
    (''jquery'', ''jQuery''),
    (''lodash'', ''Lodash''),
    (''momentjs'', ''Moment.js''),
    (''googleanalytics'', ''Google Analytics''),
    (''gtm'', ''Google Tag Manager''),
    (''materialui'', ''Material UI''),
    (''aws'', ''AWS''),
    (''akamai_cdn'', ''Akamai CDN'')]"


section \<open>Helpers\<close>

text \<open>\<open>deduplicateArray\<close>: the filter keeps an item when its lower case has not been seen.\<close>

fun dedupSeen :: "string set \<Rightarrow> string list \<Rightarrow> string list" where
  "dedupSeen seen [] = []"
| "dedupSeen seen (item # arr) =
     (let lower = toLowerCase item
      in if lower \<in> seen then dedupSeen seen arr
         else item # dedupSeen (insert lower seen) arr)"

definition deduplicateArray :: "string list \<Rightarrow> string list" where
  "deduplicateArray arr = dedupSeen {} arr"

text \<open>
  \<open>humanizeTechName\<close>. The lookup \<open>DISPLAY_NAMES[lower]\<close> is modelled on the table's own keys;
  the program calls it with keys of the corpus only.
\<close>

definition humanizeTechName :: "string \<Rightarrow> string" where
  "humanizeTechName name =
     (if name = [] then []
      else let lower = toLowerCase name
           in case map_of DISPLAY_NAMES lower of
                Some label \<Rightarrow> label
              | None \<Rightarrow> join '' '' (map capitalize (splitOn (\<lambda>c. c = CHR ''_'' \<or> c = CHR ''-'') lower)))"

definition formatTechName :: "string \<Rightarrow> string option \<Rightarrow> string" where
  "formatTechName name version =
     (case version of
        None \<Rightarrow> name
      | Some v \<Rightarrow> if v = [] then name else name @ '' '' @ v)"

fun findCategory :: "(category \<times> string list) list \<Rightarrow> string \<Rightarrow> category" where
  "findCategory [] lower = Libraries"
| "findCategory ((category, names) # rest) lower =
     (if lower \<in> set names then category else findCategory rest lower)"

definition getCategoryForTech :: "string \<Rightarrow> category" where
  "getCategoryForTech techName = findCategory TECH_CATEGORIES (toLowerCase techName)"

definition confidenceFromScore :: "nat \<Rightarrow> string" where
  "confidenceFromScore score =
     (if score \<ge> 6 then ''high''
      else if score \<ge> 3 then ''medium''
      else ''low'')"

definition browserKeyMapping :: "(string \<times> string) list" where
  "browserKeyMapping =
   [(''nextjs'', ''nextjs''),
    (''nuxtjs'', ''nuxtjs''),
    (''react'', ''react''),
    (''vue'', ''vue''),
    (''angular'', ''angular''),
    (''svelte'', ''svelte''),
    (''astro'', ''astro''),
    (''jquery'', ''jquery''),
    (''lodash'', ''lodash''),
    (''momentjs'', ''momentjs''),
    (''d3'', ''d3''),
    (''threejs'', ''threejs''),
    (''mixpanel'', ''mixpanel''),
    (''sentry'', ''sentry''),
    (''intercom'', ''intercom''),
    (''hotjar'', ''hotjar''),
    (''amplitude'', ''amplitude'')]"

text \<open>\<open>mapBrowserTechToKey\<close>: lower case, drop what is not in \<open>[a-z0-9]\<close>, look the rest up.\<close>

definition mapBrowserTechToKey :: "string \<Rightarrow> string option" where
  "mapBrowserTechToKey displayName =
     (let normalized = filter (\<lambda>c. inRange c (CHR ''a'', CHR ''z'') \<or> inRange c (CHR ''0'', CHR ''9''))
                              (toLowerCase displayName)
      in map_of browserKeyMapping normalized)"

section \<open>The verdict\<close>

text \<open>The value of \<open>techMatches[key]\<close>: one matched technology.\<close>

record techMeta =
  mConfidence :: nat
  mVersion :: "string option"
  mCategory :: category
  mDisplayName :: string
  mSources :: "string list"

text \<open>\<open>techMatches\<close> is an object with string keys; its entries are enumerated in the order
  the keys were first assigned, so it is an association list.\<close>

type_synonym techMatches = "(string \<times> techMeta) list"

fun setMatch :: "string \<Rightarrow> techMeta \<Rightarrow> techMatches \<Rightarrow> techMatches" where
  "setMatch key v [] = [(key, v)]"
| "setMatch key v ((k, m) # rest) =
     (if k = key then (k, v) # rest else (k, m) # setMatch key v rest)"

record technologies =
  frontend :: "string list"
  backend :: "string list"
  cms :: "string list"
  analytics :: "string list"
  hosting :: "string list"
  cdn :: "string list"
  libraries :: "string list"

datatype wafInfo = Undetected | Detected string string nat

record serverInfo =
  software :: string
  poweredBy :: "string option"

record topPick =
  tKey :: string
  tDisplayName :: string
  tVersion :: "string option"
  tConfidence :: nat

record primaryPicks =
  primaryCms :: "topPick option"
  primaryFrontend :: "topPick option"
  primaryHosting :: "topPick option"
  primaryCdn :: "topPick option"

record inferredFacts =
  languages :: "string list"
  databases :: "string list"

record verdict =
  vPrimary :: primaryPicks
  vInferred :: inferredFacts
  vConfidence :: string
  vSummary :: string

text \<open>\<open>candidates.sort((a, b) => b[1].confidence - a[1].confidence)\<close>: the sort of an array is
  stable, and so is the insertion sort \<^const>\<open>sort_key\<close>.\<close>

definition sortByConfidenceDesc :: "('a \<Rightarrow> nat) \<Rightarrow> 'a list \<Rightarrow> 'a list" where
  "sortByConfidenceDesc conf xs = sort_key (\<lambda>x. - int (conf x)) xs"

definition pickTop :: "techMatches \<Rightarrow> category \<Rightarrow> topPick option" where
  "pickTop techMatches category =
     (let candidates = filter (\<lambda>(key, m). mCategory m = category) techMatches
      in case sortByConfidenceDesc (\<lambda>(key, m). mConfidence m) candidates of
           [] \<Rightarrow> None
         | (key, m) # rest \<Rightarrow>
             Some \<lparr>tKey = key,
                   tDisplayName = (if mDisplayName m = [] then humanizeTechName key else mDisplayName m),
                   tVersion = (case mVersion m of None \<Rightarrow> None | Some v \<Rightarrow> if v = [] then None else Some v),
                   tConfidence = mConfidence m\<rparr>)"

text \<open>\<open>addInference\<close>: the languages and databases that the table gives for a primary pick.\<close>

definition addInference :: "topPick option \<Rightarrow> inferredFacts \<Rightarrow> inferredFacts" where
  "addInference pick inferred =
     (case pick of
        None \<Rightarrow> inferred
      | Some p \<Rightarrow>
          (if tKey p = [] then inferred
           else case map_of STACK_INFERENCES (toLowerCase (tKey p)) of
                  None \<Rightarrow> inferred
                | Some (langs, dbs) \<Rightarrow>
                    \<lparr>languages = languages inferred @ langs, databases = databases inferred @ dbs\<rparr>))"

definition bannerLanguages :: "string \<Rightarrow> string list" where
  "bannerLanguages serverBlob =
     (if includesStr serverBlob ''php'' then [''PHP''] else [])
     @ (if includesStr serverBlob ''asp.net'' then [''.NET''] else [])
     @ (if includesStr serverBlob ''node'' then [''Node.js''] else [])
     @ (if includesStr serverBlob ''python'' then [''Python''] else [])
     @ (if includesStr serverBlob ''ruby'' then [''Ruby''] else [])
     @ (if includesStr serverBlob ''laravel'' then [''PHP''] else [])"

definition summaryLine :: "string \<Rightarrow> topPick option \<Rightarrow> string list" where
  "summaryLine label pick =
     (case pick of
        None \<Rightarrow> []
      | Some p \<Rightarrow> [label @ '': '' @ formatTechName (tDisplayName p) (tVersion p)])"

definition pickConfidence :: "topPick option \<Rightarrow> nat" where
  "pickConfidence pick = (case pick of None \<Rightarrow> 0 | Some p \<Rightarrow> tConfidence p)"

definition buildVerdict :: "technologies \<Rightarrow> techMatches \<Rightarrow> wafInfo \<Rightarrow> serverInfo \<Rightarrow> verdict" where
  "buildVerdict technologies techMatches waf serverInfo =
     (let primary = \<lparr>primaryCms = pickTop techMatches Cms,
                      primaryFrontend = pickTop techMatches Frontend,
                      primaryHosting = pickTop techMatches Hosting,
                      primaryCdn = pickTop techMatches Cdn\<rparr>;
          inferred0 = addInference (primaryFrontend primary)
                        (addInference (primaryCms primary) \<lparr>languages = [], databases = []\<rparr>);
          serverBlob = toLowerCase (software serverInfo @ '' ''
                         @ (case poweredBy serverInfo of None \<Rightarrow> [] | Some p \<Rightarrow> p));
          inferred = \<lparr>languages = deduplicateArray (languages inferred0 @ bannerLanguages serverBlob),
                      databases = deduplicateArray (databases inferred0)\<rparr>;
          summaryParts =
            summaryLine ''CMS'' (primaryCms primary)
            @ summaryLine ''Frontend'' (primaryFrontend primary)
            @ summaryLine ''Hosting'' (primaryHosting primary)
            @ summaryLine ''CDN'' (primaryCdn primary)
            @ (case waf of
                 Undetected \<Rightarrow> []
               | Detected provider confidence score \<Rightarrow> [''WAF: '' @ provider @ '' ('' @ confidence @ '')''])
            @ (if languages inferred \<noteq> [] then [''Language: '' @ join '', '' (languages inferred)] else [])
            @ (if databases inferred \<noteq> [] then [''Database: '' @ join '', '' (databases inferred)] else []);
          topScore = max (max (pickConfidence (primaryCms primary)) (pickConfidence (primaryFrontend primary)))
                         (max (pickConfidence (primaryHosting primary)) (pickConfidence (primaryCdn primary)))
      in \<lparr>vPrimary = primary,
          vInferred = inferred,
          vConfidence = confidenceFromScore topScore,
          vSummary = join '' | '' summaryParts\<rparr>)"

section \<open>Version extraction\<close>

text \<open>
  The four context patterns, each as what stands before its capturing group, the group, what
  stands after it, and the \<open>i\<close> flag. The first two are built from a template string, in which
  \<open>\.\<close> is a plain dot, so they read \<open>name[@/-]v?(\d+.\d+.\d+)\<close> and \<open>name[@/-](\d+.\d+)\<close>
  with a dot that matches any code unit. The name is a key of the corpus, made of letters,
  digits and \<open>_\<close>, so it stands for itself in the pattern.
\<close>

definition contextPatterns :: "string \<Rightarrow> (regex \<times> regex \<times> regex \<times> bool) list" where
  "contextPatterns techName =
   [(Seqs [Lit techName, oneOf ''@/-'', Opt (Lit ''v'')],
     Seqs [Plus digit, AnyChar, Plus digit, AnyChar, Plus digit], Lit [], True),
    (Seqs [Lit techName, oneOf ''@/-''],
     Seqs [Plus digit, AnyChar, Plus digit], Lit [], True),
    (Lit ''/'', Plus digitOrDot, Lit ''/'', False),
    (Lit ''@'', Plus digitOrDot, Lit ''/'', False)]"

text \<open>\<open>/^\d+\.\d+/.test(version)\<close>\<close>

definition validVersion :: "string \<Rightarrow> bool" where
  "validVersion version = (matchFrom (Seqs [Plus digit, Lit ''.'', Plus digit]) False (None, version) \<noteq> [])"

fun firstVersion :: "(regex \<times> regex \<times> regex \<times> bool) list \<Rightarrow> string \<Rightarrow> string option" where
  "firstVersion [] text = None"
| "firstVersion ((pre, grp, post, i) # patterns) text =
     (case matchGroup1 pre grp post i None text of
        None \<Rightarrow> firstVersion patterns text
      | Some version \<Rightarrow>
          if version \<noteq> [] \<and> validVersion version then Some version
          else firstVersion patterns text)"

definition extractVersion :: "string \<Rightarrow> string \<Rightarrow> string option" where
  "extractVersion text techName =
     (if text = [] then None else firstVersion (contextPatterns techName) text)"

section \<open>The WAF scorer\<close>

text \<open>The response headers: a map from lower-case header names to values. The \<open>set-cookie\<close>
  header, the only one with a list for a value, is passed to the scorer as the list of its
  cookie strings.\<close>

type_synonym headers = "string \<rightharpoonup> string"

definition headerOrEmpty :: "headers \<Rightarrow> string \<Rightarrow> string" where
  "headerOrEmpty headers name = (case headers name of None \<Rightarrow> [] | Some v \<Rightarrow> v)"

definition wafScore :: "wafPattern \<Rightarrow> headers \<Rightarrow> string list \<Rightarrow> string \<Rightarrow> nat" where
  "wafScore patterns headers cookies html =
     length (filter (\<lambda>h. headers (toLowerCase h) \<noteq> None) (wHeaders patterns)) * 3
     + length (filter (\<lambda>c. list_ex (\<lambda>cookie. startsWith (toLowerCase cookie) (toLowerCase c)) cookies)
                      (wCookies patterns)) * 2
     + (case wServer patterns of
          None \<Rightarrow> 0
        | Some re \<Rightarrow> if test re (headerOrEmpty headers ''server'') then 2 else 0)
     + (case wHtml patterns of
          None \<Rightarrow> 0
        | Some re \<Rightarrow> if html \<noteq> [] \<and> test re html then 1 else 0)"

text \<open>\<open>wafScores\<close>: the providers with a positive score, in the order of \<open>WAF_PATTERNS\<close>.\<close>

definition wafScores :: "(string \<times> wafPattern) list \<Rightarrow> headers \<Rightarrow> string list \<Rightarrow> string
    \<Rightarrow> (string \<times> nat) list" where
  "wafScores corpus headers cookies html =
     filter (\<lambda>(name, score). score > 0)
            (map (\<lambda>(name, patterns). (name, wafScore patterns headers cookies html)) corpus)"

record waf =
  wafName :: string
  wafConfidence :: string
  wafScoreValue :: nat

text \<open>\<open>entries.reduce((a, b) => a[1] > b[1] ? a : b)\<close> without an initial value.\<close>

definition reduceTop :: "(string \<times> nat) \<Rightarrow> (string \<times> nat) list \<Rightarrow> (string \<times> nat)" where
  "reduceTop first rest = foldl (\<lambda>a b. if snd a > snd b then a else b) first rest"

definition detectWAFWith :: "(string \<times> wafPattern) list \<Rightarrow> headers \<Rightarrow> string list \<Rightarrow> string
    \<Rightarrow> waf option" where
  "detectWAFWith corpus headers cookies html =
     (case wafScores corpus headers cookies html of
        [] \<Rightarrow> None
      | first # rest \<Rightarrow>
          (let topWaf = reduceTop first rest
           in Some \<lparr>wafName = capitalize (fst topWaf),
                    wafConfidence = (if snd topWaf \<ge> 5 then ''high''
                                     else if snd topWaf \<ge> 3 then ''medium'' else ''low''),
                    wafScoreValue = snd topWaf\<rparr>))"

definition detectWAF :: "headers \<Rightarrow> string list \<Rightarrow> string \<Rightarrow> waf option" where
  "detectWAF headers cookies html = detectWAFWith WAF_PATTERNS headers cookies html"


section \<open>The evidence scanner and the category resolver\<close>

text \<open>
  What the scanner asks of the tree that \<open>cheerioLoad\<close> builds from the markup: for every
  \<open>script\<close> element its \<open>src\<close> attribute and its inner markup; for every
  \<open>link[rel="stylesheet"]\<close> its \<open>href\<close> attribute; for a name, the \<open>content\<close> attribute of
  the first \<open>meta\<close> element of that name; for every \<open>script[type="application/ld+json"]\<close>
  what \<open>JSON.parse\<close> makes of its body (\<open>None\<close> when it throws); the text of \<open>title\<close>; the
  \<open>content\<close> of the description. The parser itself is a collaborator of the program, so the
  functions below take it as the parameter \<open>cheerioLoad\<close>.
\<close>

record dom =
  domScripts :: "(string option \<times> string) list"
  domStylesheets :: "string option list"
  domMeta :: "string \<Rightarrow> string option"
  domLdJson :: "string option list"
  domTitle :: string
  domDescription :: "string option"

definition orEmpty :: "string option \<Rightarrow> string" where
  "orEmpty a = (case a of None \<Rightarrow> [] | Some v \<Rightarrow> v)"

text \<open>The running \<open>confidence\<close>, \<open>version\<close> and \<open>sources\<close> of one technology.\<close>

record evidence =
  eConfidence :: nat
  eVersion :: "string option"
  eSources :: "string list"

text \<open>
  One hit: the weight is added, the channel joins the set of sources, and a version found in
  the matched text is kept when there is none yet (\<open>found\<close> is \<open>None\<close> for the channels that
  extract no version).
\<close>

definition hit :: "nat \<Rightarrow> string \<Rightarrow> string option \<Rightarrow> evidence \<Rightarrow> evidence" where
  "hit weight source found e =
     \<lparr>eConfidence = eConfidence e + weight,
      eVersion = (case eVersion e of None \<Rightarrow> found | Some v \<Rightarrow> Some v),
      eSources = (if source \<in> set (eSources e) then eSources e else eSources e @ [source])\<rparr>"

definition scanScripts :: "string \<Rightarrow> techPattern \<Rightarrow> dom \<Rightarrow> evidence \<Rightarrow> evidence" where
  "scanScripts techName patterns d e0 =
     foldl (\<lambda>e el.
              let fullContent = orEmpty (fst el) @ snd el
              in foldl (\<lambda>e p. if test p fullContent
                               then hit 3 ''script'' (extractVersion fullContent techName) e else e)
                       e (pScript patterns))
           e0 (domScripts d)"

definition scanLinks :: "string \<Rightarrow> techPattern \<Rightarrow> dom \<Rightarrow> evidence \<Rightarrow> evidence" where
  "scanLinks techName patterns d e0 =
     foldl (\<lambda>e el.
              let href = orEmpty el
              in foldl (\<lambda>e p. if test p href
                               then hit 2 ''stylesheet'' (extractVersion href techName) e else e)
                       e (pLink patterns))
           e0 (domStylesheets d)"

definition scanMeta :: "string \<Rightarrow> techPattern \<Rightarrow> dom \<Rightarrow> evidence \<Rightarrow> evidence" where
  "scanMeta techName patterns d e0 =
     foldl (\<lambda>e (name, re).
              let content = orEmpty (domMeta d name)
              in case re of
                   None \<Rightarrow> e
                 | Some p \<Rightarrow> if test p content
                             then hit 2 ''meta'' (extractVersion content techName) e else e)
           e0 (pMeta patterns)"

definition scanHtml :: "techPattern \<Rightarrow> string \<Rightarrow> evidence \<Rightarrow> evidence" where
  "scanHtml patterns html e0 =
     foldl (\<lambda>e p. if test p html then hit 2 ''html'' None e else e) e0 (pHtml patterns)"

definition scanHeaders :: "techPattern \<Rightarrow> headers \<Rightarrow> evidence \<Rightarrow> evidence" where
  "scanHeaders patterns headers e0 =
     foldl (\<lambda>e (headerName, headerPattern).
              if test headerPattern (headerOrEmpty headers (toLowerCase headerName))
              then hit 2 ''header'' None e else e)
           e0 (pHeaders patterns)"

definition scanCdn :: "techPattern \<Rightarrow> dom \<Rightarrow> evidence \<Rightarrow> evidence" where
  "scanCdn patterns d e0 =
     foldl (\<lambda>e c.
              foldl (\<lambda>e el. if includesStr (orEmpty (fst el)) c then hit 1 ''cdn'' None e else e)
                    e (domScripts d))
           e0 (pCdn patterns)"

text \<open>The six channels in the order of the loop body.\<close>

definition scanTech :: "string \<Rightarrow> techPattern \<Rightarrow> dom \<Rightarrow> string \<Rightarrow> headers \<Rightarrow> evidence" where
  "scanTech techName patterns d html headers =
     scanCdn patterns d
       (scanHeaders patterns headers
         (scanHtml patterns html
           (scanMeta techName patterns d
             (scanLinks techName patterns d
               (scanScripts techName patterns d
                 \<lparr>eConfidence = 0, eVersion = None, eSources = []\<rparr>)))))"

definition getTechnologies :: "category \<Rightarrow> technologies \<Rightarrow> string list" where
  "getTechnologies category t =
     (case category of
        Frontend \<Rightarrow> frontend t | Backend \<Rightarrow> backend t | Cms \<Rightarrow> cms t | Analytics \<Rightarrow> analytics t
      | Hosting \<Rightarrow> hosting t | Cdn \<Rightarrow> cdn t | Libraries \<Rightarrow> libraries t)"

definition setTechnologies :: "category \<Rightarrow> string list \<Rightarrow> technologies \<Rightarrow> technologies" where
  "setTechnologies category xs t =
     (case category of
        Frontend \<Rightarrow> t\<lparr>frontend := xs\<rparr> | Backend \<Rightarrow> t\<lparr>backend := xs\<rparr> | Cms \<Rightarrow> t\<lparr>cms := xs\<rparr>
      | Analytics \<Rightarrow> t\<lparr>analytics := xs\<rparr> | Hosting \<Rightarrow> t\<lparr>hosting := xs\<rparr> | Cdn \<Rightarrow> t\<lparr>cdn := xs\<rparr>
      | Libraries \<Rightarrow> t\<lparr>libraries := xs\<rparr>)"

definition pushTechnology :: "category \<Rightarrow> string \<Rightarrow> technologies \<Rightarrow> technologies" where
  "pushTechnology category techString t =
     setTechnologies category (getTechnologies category t @ [techString]) t"

definition noTechnologies :: technologies where
  "noTechnologies =
     \<lparr>frontend = [], backend = [], cms = [], analytics = [], hosting = [], cdn = [], libraries = []\<rparr>"

definition allCategories :: "category list" where
  "allCategories = [Frontend, Backend, Cms, Analytics, Hosting, Cdn, Libraries]"

text \<open>\<open>Object.values(technologies).flat()\<close>\<close>

definition flatTechnologies :: "technologies \<Rightarrow> string list" where
  "flatTechnologies t = concat (map (\<lambda>c. getTechnologies c t) allCategories)"

record cmsCandidate =
  cKey :: string
  cDisplayName :: string
  cConfidence :: nat
  cVersion :: "string option"

text \<open>The three things the loop over the corpus builds up.\<close>

record scanState =
  sTechnologies :: technologies
  sTechMatches :: techMatches
  sCmsCandidates :: "cmsCandidate list"

definition minConfidence :: "category \<Rightarrow> nat" where
  "minConfidence category =
     (case map_of MIN_CONFIDENCE_BY_CATEGORY category of
        None \<Rightarrow> 2
      | Some n \<Rightarrow> if n = 0 then 2 else n)"

text \<open>The end of the loop body: the threshold, then the candidate list or the category array,
  and the entry of \<open>techMatches\<close>.\<close>

definition resolveTech :: "string \<Rightarrow> evidence \<Rightarrow> scanState \<Rightarrow> scanState" where
  "resolveTech techName e s =
     (let category = getCategoryForTech techName;
          threshold = minConfidence category;
          displayName = humanizeTechName techName
      in if eConfidence e \<ge> threshold
         then (let techString = formatTechName displayName (eVersion e);
                   s1 = (if category = Cms
                         then s\<lparr>sCmsCandidates := sCmsCandidates s
                                  @ [\<lparr>cKey = techName, cDisplayName = displayName,
                                       cConfidence = eConfidence e, cVersion = eVersion e\<rparr>]\<rparr>
                         else s\<lparr>sTechnologies := pushTechnology category techString (sTechnologies s)\<rparr>)
               in s1\<lparr>sTechMatches :=
                       setMatch techName
                         \<lparr>mConfidence = eConfidence e, mVersion = eVersion e, mCategory = category,
                          mDisplayName = displayName, mSources = eSources e\<rparr>
                         (sTechMatches s1)\<rparr>)
         else s)"

definition scanCorpus :: "(string \<times> techPattern) list \<Rightarrow> dom \<Rightarrow> string \<Rightarrow> headers \<Rightarrow> scanState" where
  "scanCorpus corpus d html headers =
     foldl (\<lambda>s (techName, patterns). resolveTech techName (scanTech techName patterns d html headers) s)
           \<lparr>sTechnologies = noTechnologies, sTechMatches = [], sCmsCandidates = []\<rparr>
           corpus"

text \<open>The single CMS: the candidates sorted by falling confidence, the first one kept.\<close>

definition resolveCms :: "scanState \<Rightarrow> scanState" where
  "resolveCms s =
     (case sortByConfidenceDesc cConfidence (sCmsCandidates s) of
        [] \<Rightarrow> s
      | topCMS # rest \<Rightarrow>
          s\<lparr>sTechnologies := (sTechnologies s)\<lparr>cms := [formatTechName (cDisplayName topCMS) (cVersion topCMS)]\<rparr>,
            sTechMatches :=
              (case map_of (sTechMatches s) (cKey topCMS) of
                 Some m \<Rightarrow> sTechMatches s
               | None \<Rightarrow> setMatch (cKey topCMS)
                           \<lparr>mConfidence = cConfidence topCMS, mVersion = cVersion topCMS, mCategory = Cms,
                            mDisplayName = cDisplayName topCMS, mSources = [''html'']\<rparr>
                           (sTechMatches s))\<rparr>)"

definition dedupTechnologies :: "technologies \<Rightarrow> technologies" where
  "dedupTechnologies t =
     \<lparr>frontend = deduplicateArray (frontend t),
      backend = deduplicateArray (backend t),
      cms = deduplicateArray (cms t),
      analytics = deduplicateArray (analytics t),
      hosting = deduplicateArray (hosting t),
      cdn = deduplicateArray (cdn t),
      libraries = deduplicateArray (libraries t)\<rparr>"

record analysis =
  aTechnologies :: technologies
  aStructuredData :: "string list"
  aTechMatches :: techMatches

definition analyzeWith :: "(string \<times> techPattern) list \<Rightarrow> (string \<Rightarrow> dom) \<Rightarrow> string \<Rightarrow> headers \<Rightarrow> analysis" where
  "analyzeWith corpus cheerioLoad html headers =
     (let d = cheerioLoad html;
          s = resolveCms (scanCorpus corpus d html headers)
      in \<lparr>aTechnologies = dedupTechnologies (sTechnologies s),
          aStructuredData = concat (map (\<lambda>j. case j of None \<Rightarrow> [] | Some v \<Rightarrow> [v]) (domLdJson d)),
          aTechMatches = sTechMatches s\<rparr>)"

text \<open>\<open>analyzeStaticResponse(html, headers, url)\<close>; the function does not read \<open>url\<close>.\<close>

definition analyzeStaticResponse :: "(string \<Rightarrow> dom) \<Rightarrow> string \<Rightarrow> headers \<Rightarrow> string \<Rightarrow> analysis" where
  "analyzeStaticResponse cheerioLoad html headers url = analyzeWith TECH_PATTERNS cheerioLoad html headers"


section \<open>The browser pass\<close>

text \<open>The names and the \<open>window\<close> properties that \<open>extractBrowserTechnologies\<close> checks.\<close>

definition browserChecks :: "(string \<times> string list) list" where
  "browserChecks =
   [(''React'', [''React'', ''__REACT_DEVTOOLS_GLOBAL_HOOK__'', ''__REACT_PROFILER_ENABLED__'']),
    (''Vue'', [''Vue'', ''__VUE__'', ''__VUE_DEVTOOLS_GLOBAL_HOOK__'']),
    (''Angular'', [''ng'', ''angular'', ''getAllAngularRootElements'', ''ng.probe'']),
    (''jQuery'', [''jQuery'', ''$'']),
    (''Next.js'', [''__NEXT_DATA__'', ''__NEXT_ROUTER_READYSTATE__'']),
    (''Nuxt.js'', [''$nuxt'', ''__NUXT__'', ''__NUXT_STRAPI__'']),
    (''Svelte'', [''__SVELTE__'']),
    (''Astro'', [''__astro'']),
    (''Lodash'', [''_'']),
    (''Moment.js'', [''moment'']),
    (''D3'', [''d3'']),
    (''Three.js'', [''THREE'']),
    (''Mixpanel'', [''mixpanel'']),
    (''Sentry'', [''Sentry'']),
    (''Intercom'', [''Intercom'']),
    (''Hotjar'', [''hj'', ''hjSiteId'']),
    (''Amplitude'', [''amplitude''])]"

text \<open>\<open>[...new Set(detected)]\<close>: the first occurrence of every element, in order.\<close>

fun uniqueInOrder :: "'a list \<Rightarrow> 'a list \<Rightarrow> 'a list" where
  "uniqueInOrder seen [] = []"
| "uniqueInOrder seen (x # xs) =
     (if x \<in> set seen then uniqueInOrder seen xs else x # uniqueInOrder (x # seen) xs)"

text \<open>
  The window is the predicate ``reading the property succeeds and gives neither \<open>undefined\<close>
  nor \<open>null\<close>''; a property whose read throws is skipped by the code and is \<open>False\<close> here.
\<close>

definition extractBrowserTechnologies :: "(string \<Rightarrow> bool) \<Rightarrow> string list" where
  "extractBrowserTechnologies win =
     uniqueInOrder [] (map fst (filter (\<lambda>(name, props). list_ex win props) browserChecks))"

text \<open>The body of \<open>browserTechs.forEach\<close>: one runtime detection merged into the arrays and
  into \<open>techMatches\<close>.\<close>

definition mergeBrowserTech :: "technologies \<times> techMatches \<Rightarrow> string \<Rightarrow> technologies \<times> techMatches" where
  "mergeBrowserTech tm tech =
     (case mapBrowserTechToKey tech of
        None \<Rightarrow> tm
      | Some key \<Rightarrow>
          (let technologies = fst tm;
               techMatches = snd tm;
               displayName = humanizeTechName key;
               formatted = formatTechName displayName None;
               category = getCategoryForTech key;
               technologies' =
                 (if category = Frontend
                     \<and> \<not> list_ex (\<lambda>item. toLowerCase item = toLowerCase formatted) (frontend technologies)
                  then technologies\<lparr>frontend := frontend technologies @ [formatted]\<rparr>
                  else technologies);
               existing = (case map_of techMatches key of
                             Some m \<Rightarrow> m
                           | None \<Rightarrow> \<lparr>mConfidence = 0, mVersion = None, mCategory = category,
                                      mDisplayName = displayName, mSources = []\<rparr>);
               existing' = existing\<lparr>mConfidence := max (mConfidence existing) 3,
                                    mSources := deduplicateArray (mSources existing @ [''window''])\<rparr>
           in (technologies', setMatch key existing' techMatches)))"

section \<open>Scan results and the two handlers\<close>

datatype status = Success | Failed

datatype detectionMethod = Static | Browser

record apis =
  apiGraphql :: bool
  apiRest :: bool
  apiEndpoints :: "string list"

record metadata =
  title :: "string option"
  description :: "string option"
  structuredData :: "string list"

text \<open>A record of \<open>results\<close>. A failed record has only \<open>url\<close>, \<open>status\<close>, \<open>error\<close> and
  \<open>scannedAt\<close>, so the other fields are optional.\<close>

record scanResult =
  rUrl :: string
  rStatus :: status
  rTechnologies :: "technologies option"
  rWaf :: "wafInfo option"
  rApis :: "apis option"
  rMetadata :: "metadata option"
  rServer :: "serverInfo option"
  rDetectionMethod :: "detectionMethod option"
  rVerdict :: "verdict option"
  rDetectionDetails :: "techMatches option"
  rScannedAt :: string
  rError :: "string option"

definition deduplicateResult :: "scanResult \<Rightarrow> scanResult" where
  "deduplicateResult result =
     result\<lparr>rTechnologies := map_option dedupTechnologies (rTechnologies result),
            rApis := map_option (\<lambda>a. a\<lparr>apiEndpoints := deduplicateArray (apiEndpoints a)\<rparr>) (rApis result),
            rVerdict := map_option
                          (\<lambda>v. v\<lparr>vInferred := \<lparr>languages = deduplicateArray (languages (vInferred v)),
                                                databases = deduplicateArray (databases (vInferred v))\<rparr>\<rparr>)
                          (rVerdict result)\<rparr>"

text \<open>
  The state the handlers share: the in-memory array \<open>results\<close>, the rows pushed to the dataset
  (the append-only sink; a row is a copy made at the time of the push) and \<open>processedCount\<close>.
\<close>

record runState =
  results :: "scanResult list"
  dataset :: "scanResult list"
  processedCount :: nat

definition initialState :: runState where
  "initialState = \<lparr>results = [], dataset = [], processedCount = 0\<rparr>"

text \<open>
  \<open>await Dataset.pushData(row)\<close>: the dataset appends the row, or the call rejects with an
  error (its message) and the dataset stays as it was.
\<close>

datatype pushOutcome = Appended | Rejected string

definition pushData :: "pushOutcome \<Rightarrow> scanResult \<Rightarrow> scanResult list \<Rightarrow> scanResult list" where
  "pushData outcome row rows = (case outcome of Appended \<Rightarrow> rows @ [row] | Rejected message \<Rightarrow> rows)"

text \<open>
  What the static crawler hands to its request handler: the response headers, the cookie
  strings of \<open>set-cookie\<close>, the body, the outcome of the endpoint probing (\<open>None\<close> when
  probing threw) and the time of the scan.
\<close>

record staticResponse =
  resHeaders :: headers
  resCookies :: "string list"
  resBody :: string
  resProbe :: "apis option"
  resNow :: string

text \<open>
  One run of the static handler for a request.
  \<^item> \<open>RequestFailed\<close>: the request fails before the handler runs (\<open>failedRequestHandler\<close> only
    logs).
  \<^item> \<open>HandlerThrew message now outcome\<close>: the \<open>try\<close> block throws before the record is stored;
    the \<open>catch\<close> block stores the failed record (message, time) and pushes it, with the given
    outcome.
  \<^item> \<open>Responded res\<close>: the handler runs through; the record is stored and the dataset appends
    it.
  \<^item> \<open>SinkRejected res message now outcome\<close>: the record is stored by \<open>results.push\<close>, then
    \<open>Dataset.pushData\<close> rejects it with the message; the \<open>catch\<close> block stores a failed record
    for the same URL and pushes that, with the given outcome.

  When the push of the \<open>catch\<close> block is rejected the handler itself throws. The crawler may
  then run the handler for the request once more (\<open>maxRequestRetries: 1\<close>); such a run is a
  further entry, with the same URL, in the list of requests.
\<close>

datatype tier1Event =
    RequestFailed
  | HandlerThrew string string pushOutcome
  | Responded staticResponse
  | SinkRejected staticResponse string string pushOutcome

definition noApis :: apis where
  "noApis = \<lparr>apiGraphql = False, apiRest = False, apiEndpoints = []\<rparr>"

definition staticResult :: "bool \<Rightarrow> (string \<Rightarrow> dom) \<Rightarrow> string \<Rightarrow> staticResponse \<Rightarrow> scanResult" where
  "staticResult shouldProbeApi cheerioLoad url res =
     (let headers = resHeaders res;
          body = resBody res;
          wafInfo = (case detectWAF headers (resCookies res) body of
                       Some w \<Rightarrow> Detected (wafName w) (wafConfidence w) (wafScoreValue w)
                     | None \<Rightarrow> Undetected);
          a = analyzeStaticResponse cheerioLoad body headers url;
          serverInfo = \<lparr>software = (if headerOrEmpty headers ''server'' = [] then ''Unknown''
                                      else headerOrEmpty headers ''server''),
                        poweredBy = (if headerOrEmpty headers ''x-powered-by'' = [] then None
                                     else headers ''x-powered-by'')\<rparr>;
          apis = (if shouldProbeApi then (case resProbe res of Some p \<Rightarrow> p | None \<Rightarrow> noApis) else noApis);
          d = cheerioLoad body
      in \<lparr>rUrl = url,
          rStatus = Success,
          rTechnologies = Some (aTechnologies a),
          rWaf = Some wafInfo,
          rApis = Some apis,
          rMetadata = Some \<lparr>title = (if domTitle d = [] then None else Some (domTitle d)),
                             description = (case domDescription d of
                                              None \<Rightarrow> None
                                            | Some t \<Rightarrow> if t = [] then None else Some t),
                             structuredData = aStructuredData a\<rparr>,
          rServer = Some serverInfo,
          rDetectionMethod = Some Static,
          rVerdict = Some (buildVerdict (aTechnologies a) (aTechMatches a) wafInfo serverInfo),
          rDetectionDetails = Some (aTechMatches a),
          rScannedAt = resNow res,
          rError = None\<rparr>)"

definition failedResult :: "string \<Rightarrow> string \<Rightarrow> string \<Rightarrow> scanResult" where
  "failedResult url message now =
     \<lparr>rUrl = url, rStatus = Failed, rTechnologies = None, rWaf = None, rApis = None,
      rMetadata = None, rServer = None, rDetectionMethod = None, rVerdict = None,
      rDetectionDetails = None, rScannedAt = now, rError = Some message\<rparr>"

definition cheerioHandler :: "bool \<Rightarrow> (string \<Rightarrow> dom) \<Rightarrow> runState \<Rightarrow> string \<Rightarrow> tier1Event \<Rightarrow> runState" where
  "cheerioHandler shouldProbeApi cheerioLoad st url ev =
     (case ev of
        RequestFailed \<Rightarrow> st
      | HandlerThrew message now outcome \<Rightarrow>
          st\<lparr>results := results st @ [failedResult url message now],
             dataset := pushData outcome (failedResult url message now) (dataset st)\<rparr>
      | Responded res \<Rightarrow>
          (let cleanResult = deduplicateResult (staticResult shouldProbeApi cheerioLoad url res)
           in st\<lparr>results := results st @ [cleanResult],
                 dataset := pushData Appended cleanResult (dataset st),
                 processedCount := processedCount st + 1\<rparr>)
      | SinkRejected res message now outcome \<Rightarrow>
          (let cleanResult = deduplicateResult (staticResult shouldProbeApi cheerioLoad url res)
           in st\<lparr>results := results st @ [cleanResult] @ [failedResult url message now],
                 dataset := pushData outcome (failedResult url message now)
                              (pushData (Rejected message) cleanResult (dataset st))\<rparr>))"

text \<open>\<open>spaUrls\<close>: the URLs of the successful records with no technology in any category.\<close>

definition spaUrls :: "scanResult list \<Rightarrow> string list" where
  "spaUrls rs =
     map rUrl
       (filter (\<lambda>r. rStatus r = Success
                     \<and> length (case rTechnologies r of None \<Rightarrow> [] | Some t \<Rightarrow> flatTechnologies t) = 0)
               rs)"

text \<open>
  One request of the browser pass. Navigation fails and the handler never runs, or the
  handler runs on a page on which each of \<open>waitForLoadState\<close>, \<open>content\<close> and the evaluation
  of the \<open>window\<close> checks either throws (\<open>Inl\<close> with the message) or returns; \<open>pagePush\<close> is
  what \<open>Dataset.pushData\<close> does with the updated record when the handler gets that far.
\<close>

record browserPage =
  pageLoad :: "string + unit"
  pageContent :: "string + string"
  pageHeaders :: "headers option"
  pageWindow :: "string + (string \<Rightarrow> bool)"
  pagePush :: pushOutcome

datatype tier2Event = NavigationFailed | PageOpened browserPage

text \<open>\<open>results.findIndex(r => r.url === url)\<close>\<close>

fun findIndex :: "('a \<Rightarrow> bool) \<Rightarrow> 'a list \<Rightarrow> nat option" where
  "findIndex P [] = None"
| "findIndex P (x # xs) = (if P x then Some 0 else map_option Suc (findIndex P xs))"

text \<open>The assignments to \<open>results[idx]\<close>, with \<open>deduplicateResult\<close> applied to it in place.
  They come before the push, so a rejected push leaves the updated record in \<open>results\<close>; the
  \<open>catch\<close> block only logs.\<close>

definition browserUpdate :: "scanResult \<Rightarrow> headers \<Rightarrow> technologies \<Rightarrow> string list \<Rightarrow> techMatches \<Rightarrow> scanResult" where
  "browserUpdate r headers technologies structured techMatches =
     (let serverInfo = (case rServer r of
                          Some s \<Rightarrow> s
                        | None \<Rightarrow> \<lparr>software = (if headerOrEmpty headers ''server'' = [] then ''Unknown''
                                                 else headerOrEmpty headers ''server''),
                                   poweredBy = (if headerOrEmpty headers ''x-powered-by'' = [] then None
                                                else headers ''x-powered-by'')\<rparr>);
          wafInfo = (case rWaf r of Some w \<Rightarrow> w | None \<Rightarrow> Undetected)
      in deduplicateResult
           (r\<lparr>rTechnologies := Some technologies,
              rMetadata := Some (case rMetadata r of
                                   Some m \<Rightarrow> m\<lparr>structuredData := structured\<rparr>
                                 | None \<Rightarrow> \<lparr>title = None, description = None, structuredData = structured\<rparr>),
              rVerdict := Some (buildVerdict technologies techMatches wafInfo serverInfo),
              rDetectionDetails := Some techMatches,
              rDetectionMethod := Some Browser\<rparr>))"

definition playwrightHandler :: "(string \<Rightarrow> dom) \<Rightarrow> runState \<Rightarrow> string \<Rightarrow> tier2Event \<Rightarrow> runState" where
  "playwrightHandler cheerioLoad st url ev =
     (case ev of
        NavigationFailed \<Rightarrow> st
      | PageOpened page \<Rightarrow>
          (case pageLoad page of
             Inl e \<Rightarrow> st
           | Inr u \<Rightarrow>
               (case pageContent page of
                  Inl e \<Rightarrow> st
                | Inr html \<Rightarrow>
                    (let headers = (case pageHeaders page of Some h \<Rightarrow> h | None \<Rightarrow> Map.empty)
                     in case pageWindow page of
                          Inl e \<Rightarrow> st
                        | Inr win \<Rightarrow>
                            (let browserTechs = extractBrowserTechnologies win;
                                 a = analyzeStaticResponse cheerioLoad html headers url;
                                 merged = foldl mergeBrowserTech (aTechnologies a, aTechMatches a) browserTechs
                             in case findIndex (\<lambda>r. rUrl r = url) (results st) of
                                  None \<Rightarrow> st
                                | Some idx \<Rightarrow>
                                    (let cleanResult = browserUpdate (results st ! idx) headers (fst merged)
                                                         (aStructuredData a) (snd merged)
                                     in st\<lparr>results := (results st)[idx := cleanResult],
                                           dataset := pushData (pagePush page) cleanResult (dataset st)\<rparr>))))))"

section \<open>The orchestrator\<close>

text \<open>
  The static pass handles the requests one after the other (a handler's steps between two
  suspension points are not interleaved with another handler's). The browser pass then
  visits the URLs of \<open>spaUrls\<close> when \<open>usePlaywrightFallback\<close> is set; \<open>browse\<close> gives what
  happens to each.
\<close>

definition staticPass :: "bool \<Rightarrow> (string \<Rightarrow> dom) \<Rightarrow> (string \<times> tier1Event) list \<Rightarrow> runState" where
  "staticPass shouldProbeApi cheerioLoad requests =
     foldl (\<lambda>st (url, ev). cheerioHandler shouldProbeApi cheerioLoad st url ev) initialState requests"

definition renderQueue :: "bool \<Rightarrow> runState \<Rightarrow> string list" where
  "renderQueue usePlaywrightFallback st = (if usePlaywrightFallback then spaUrls (results st) else [])"

definition browserPass :: "(string \<Rightarrow> dom) \<Rightarrow> (string \<Rightarrow> tier2Event) \<Rightarrow> string list \<Rightarrow> runState \<Rightarrow> runState" where
  "browserPass cheerioLoad browse queue st0 =
     foldl (\<lambda>st url. playwrightHandler cheerioLoad st url (browse url)) st0 queue"

definition runScan :: "bool \<Rightarrow> bool \<Rightarrow> (string \<Rightarrow> dom) \<Rightarrow> (string \<times> tier1Event) list
    \<Rightarrow> (string \<Rightarrow> tier2Event) \<Rightarrow> runState" where
  "runScan usePlaywrightFallback shouldProbeApi cheerioLoad requests browse =
     (let st = staticPass shouldProbeApi cheerioLoad requests
      in browserPass cheerioLoad browse (renderQueue usePlaywrightFallback st) st)"


section \<open>The verdict on a store\<close>

text \<open>
  In the program the arguments of \<open>buildVerdict\<close> are references to objects, and its body sorts
  an array in place and pushes to arrays. To see that none of these writes reaches an argument
  or the table of inferences, the body is modelled a second time on a store: a list of cells,
  the address of a cell being its position. A new object takes the next free address; a read
  or a write of a cell of the wrong kind is the error \<open>None\<close>.
\<close>

datatype cell =
    Strings "string list"
  | Entries "(string \<times> techMeta) list"
  | MatchesObject techMatches
  | TechnologiesObject technologies
  | WafObject wafInfo
  | ServerObject serverInfo
  | InferredObject nat nat

type_synonym store = "cell list"

type_synonym 'a action = "store \<Rightarrow> ('a \<times> store) option"

definition yield :: "'a \<Rightarrow> 'a action" where
  "yield x h = Some (x, h)"

definition typeError :: "'a action" where
  "typeError h = None"

definition andThen :: "'a action \<Rightarrow> ('a \<Rightarrow> 'b action) \<Rightarrow> 'b action" where
  "andThen m f h = (case m h of None \<Rightarrow> None | Some (x, h') \<Rightarrow> f x h')"

definition alloc :: "cell \<Rightarrow> nat action" where
  "alloc c h = Some (length h, h @ [c])"

definition readCell :: "nat \<Rightarrow> cell action" where
  "readCell a h = (if a < length h then Some (h ! a, h) else None)"

definition writeCell :: "nat \<Rightarrow> cell \<Rightarrow> unit action" where
  "writeCell a c h = (if a < length h then Some ((), h[a := c]) else None)"

definition readStrings :: "nat \<Rightarrow> string list action" where
  "readStrings a = andThen (readCell a) (\<lambda>c. case c of Strings xs \<Rightarrow> yield xs | _ \<Rightarrow> typeError)"

definition readEntries :: "nat \<Rightarrow> (string \<times> techMeta) list action" where
  "readEntries a = andThen (readCell a) (\<lambda>c. case c of Entries es \<Rightarrow> yield es | _ \<Rightarrow> typeError)"

definition readInferred :: "nat \<Rightarrow> (nat \<times> nat) action" where
  "readInferred a = andThen (readCell a) (\<lambda>c. case c of InferredObject l d \<Rightarrow> yield (l, d) | _ \<Rightarrow> typeError)"

text \<open>\<open>array.push(...items)\<close>\<close>

definition pushStrings :: "nat \<Rightarrow> string list \<Rightarrow> unit action" where
  "pushStrings a items = andThen (readStrings a) (\<lambda>old. writeCell a (Strings (old @ items)))"

text \<open>
  \<open>pickTop\<close>: \<open>Object.entries\<close> makes a new array of the entries, \<open>filter\<close> makes a new array of
  the candidates, and \<open>sort\<close> writes the sorted candidates over that array.
\<close>

definition pickTopOn :: "nat \<Rightarrow> category \<Rightarrow> topPick option action" where
  "pickTopOn techMatchesRef category =
     andThen (readCell techMatchesRef) (\<lambda>c. case c of
         MatchesObject techMatches \<Rightarrow>
           andThen (alloc (Entries techMatches)) (\<lambda>entries.
           andThen (readEntries entries) (\<lambda>es.
           andThen (alloc (Entries (filter (\<lambda>(key, m). mCategory m = category) es))) (\<lambda>candidates.
           andThen (readEntries candidates) (\<lambda>cs.
             if length cs = 0 then yield None
             else
               andThen (writeCell candidates (Entries (sortByConfidenceDesc (\<lambda>(key, m). mConfidence m) cs))) (\<lambda>u.
               andThen (readEntries candidates) (\<lambda>sorted. case sorted of
                   [] \<Rightarrow> typeError
                 | (key, m) # others \<Rightarrow>
                     yield (Some \<lparr>tKey = key,
                                  tDisplayName = (if mDisplayName m = [] then humanizeTechName key
                                                  else mDisplayName m),
                                  tVersion = (case mVersion m of
                                                None \<Rightarrow> None
                                              | Some v \<Rightarrow> if v = [] then None else Some v),
                                  tConfidence = mConfidence m\<rparr>)))))))
       | _ \<Rightarrow> typeError)"

text \<open>
  The table of inferences in the store: for every key the address of its \<open>languages\<close> array
  and, when the entry has one, of its \<open>databases\<close> array.
\<close>

type_synonym inferenceRefs = "(string \<times> nat \<times> nat option) list"

definition addInferenceOn :: "inferenceRefs \<Rightarrow> nat \<Rightarrow> topPick option \<Rightarrow> unit action" where
  "addInferenceOn table inferred pick =
     (case pick of
        None \<Rightarrow> yield ()
      | Some p \<Rightarrow>
          (if tKey p = [] then yield ()
           else case map_of table (toLowerCase (tKey p)) of
                  None \<Rightarrow> yield ()
                | Some (langsRef, dbsRef) \<Rightarrow>
                    andThen (readInferred inferred) (\<lambda>(l, d).
                    andThen (readStrings langsRef) (\<lambda>langs.
                    andThen (pushStrings l langs) (\<lambda>u.
                      case dbsRef of
                        None \<Rightarrow> yield ()
                      | Some r \<Rightarrow> andThen (readStrings r) (\<lambda>dbs. pushStrings d dbs))))))"

text \<open>\<open>if (c) inferred.languages.push(item)\<close>\<close>

definition pushLanguageIf :: "bool \<Rightarrow> nat \<Rightarrow> string \<Rightarrow> unit action" where
  "pushLanguageIf c inferred item =
     (if c then andThen (readInferred inferred) (\<lambda>(l, d). pushStrings l [item]) else yield ())"

text \<open>
  \<open>inferred.languages = deduplicateArray(inferred.languages)\<close>, and the same for the databases:
  \<open>deduplicateArray\<close> makes a new array, and the field of \<open>inferred\<close> is set to it.
\<close>

definition dedupLanguages :: "nat \<Rightarrow> unit action" where
  "dedupLanguages inferred =
     andThen (readInferred inferred) (\<lambda>(l, d).
     andThen (readStrings l) (\<lambda>langs.
     andThen (alloc (Strings (deduplicateArray langs))) (\<lambda>l1.
       writeCell inferred (InferredObject l1 d))))"

definition dedupDatabases :: "nat \<Rightarrow> unit action" where
  "dedupDatabases inferred =
     andThen (readInferred inferred) (\<lambda>(l, d).
     andThen (readStrings d) (\<lambda>dbs.
     andThen (alloc (Strings (deduplicateArray dbs))) (\<lambda>d1.
       writeCell inferred (InferredObject l d1))))"

text \<open>\<open>if (primary.cms) summaryParts.push(`CMS: ${formatTechName(...)}`)\<close>, and the same for the
  other three picks.\<close>

definition pushPickLine :: "nat \<Rightarrow> string \<Rightarrow> topPick option \<Rightarrow> unit action" where
  "pushPickLine summaryParts label pick =
     (case pick of
        None \<Rightarrow> yield ()
      | Some p \<Rightarrow> pushStrings summaryParts [label @ '': '' @ formatTechName (tDisplayName p) (tVersion p)])"

text \<open>\<open>if (waf?.detected) summaryParts.push(`WAF: ${waf.provider} (${waf.confidence})`)\<close>\<close>

definition pushWafLine :: "nat \<Rightarrow> nat \<Rightarrow> unit action" where
  "pushWafLine summaryParts wafRef =
     andThen (readCell wafRef) (\<lambda>c. case c of
         WafObject waf \<Rightarrow>
           (case waf of
              Undetected \<Rightarrow> yield ()
            | Detected provider confidence score \<Rightarrow>
                pushStrings summaryParts [''WAF: '' @ provider @ '' ('' @ confidence @ '')''])
       | _ \<Rightarrow> typeError)"

text \<open>\<open>if (inferred.languages.length) summaryParts.push(`Language: ${inferred.languages.join(', ')}`)\<close>,
  and the same for the databases.\<close>

definition pushInferredLine :: "nat \<Rightarrow> string \<Rightarrow> nat \<Rightarrow> unit action" where
  "pushInferredLine summaryParts label arr =
     andThen (readStrings arr) (\<lambda>items.
       if items \<noteq> [] then pushStrings summaryParts [label @ '': '' @ join '', '' items]
       else yield ())"

text \<open>
  The body of \<open>buildVerdict\<close>, statement by statement. The record that it returns is read off
  the store at the end: the picks, the two arrays that \<open>inferred\<close> then points to, and
  \<open>summaryParts\<close> joined.
\<close>

definition buildVerdictOn :: "inferenceRefs \<Rightarrow> nat \<Rightarrow> nat \<Rightarrow> nat \<Rightarrow> nat \<Rightarrow> verdict action" where
  "buildVerdictOn table technologiesRef techMatchesRef wafRef serverRef =
     andThen (pickTopOn techMatchesRef Cms) (\<lambda>pCms.
     andThen (pickTopOn techMatchesRef Frontend) (\<lambda>pFrontend.
     andThen (pickTopOn techMatchesRef Hosting) (\<lambda>pHosting.
     andThen (pickTopOn techMatchesRef Cdn) (\<lambda>pCdn.
     andThen (alloc (Strings [])) (\<lambda>l0.
     andThen (alloc (Strings [])) (\<lambda>d0.
     andThen (alloc (InferredObject l0 d0)) (\<lambda>inferred.
     andThen (addInferenceOn table inferred pCms) (\<lambda>u.
     andThen (addInferenceOn table inferred pFrontend) (\<lambda>u.
     andThen (readCell serverRef) (\<lambda>c. case c of
         ServerObject serverInfo \<Rightarrow>
           (let serverBlob = toLowerCase (software serverInfo @ '' ''
                               @ (case poweredBy serverInfo of None \<Rightarrow> [] | Some p \<Rightarrow> p))
            in
            andThen (pushLanguageIf (includesStr serverBlob ''php'') inferred ''PHP'') (\<lambda>u.
            andThen (pushLanguageIf (includesStr serverBlob ''asp.net'') inferred ''.NET'') (\<lambda>u.
            andThen (pushLanguageIf (includesStr serverBlob ''node'') inferred ''Node.js'') (\<lambda>u.
            andThen (pushLanguageIf (includesStr serverBlob ''python'') inferred ''Python'') (\<lambda>u.
            andThen (pushLanguageIf (includesStr serverBlob ''ruby'') inferred ''Ruby'') (\<lambda>u.
            andThen (pushLanguageIf (includesStr serverBlob ''laravel'') inferred ''PHP'') (\<lambda>u.
            andThen (dedupLanguages inferred) (\<lambda>u.
            andThen (dedupDatabases inferred) (\<lambda>u.
            andThen (alloc (Strings [])) (\<lambda>summaryParts.
            andThen (pushPickLine summaryParts ''CMS'' pCms) (\<lambda>u.
            andThen (pushPickLine summaryParts ''Frontend'' pFrontend) (\<lambda>u.
            andThen (pushPickLine summaryParts ''Hosting'' pHosting) (\<lambda>u.
            andThen (pushPickLine summaryParts ''CDN'' pCdn) (\<lambda>u.
            andThen (pushWafLine summaryParts wafRef) (\<lambda>u.
            andThen (readInferred inferred) (\<lambda>(l, d).
            andThen (pushInferredLine summaryParts ''Language'' l) (\<lambda>u.
            andThen (pushInferredLine summaryParts ''Database'' d) (\<lambda>u.
            andThen (readStrings l) (\<lambda>languages1.
            andThen (readStrings d) (\<lambda>databases1.
            andThen (readStrings summaryParts) (\<lambda>parts.
              yield \<lparr>vPrimary = \<lparr>primaryCms = pCms, primaryFrontend = pFrontend,
                                  primaryHosting = pHosting, primaryCdn = pCdn\<rparr>,
                     vInferred = \<lparr>languages = languages1, databases = databases1\<rparr>,
                     vConfidence = confidenceFromScore
                       (max (max (pickConfidence pCms) (pickConfidence pFrontend))
                            (max (pickConfidence pHosting) (pickConfidence pCdn))),
                     vSummary = join '' | '' parts\<rparr>)))))))))))))))))))))
       | _ \<Rightarrow> typeError))))))))))"

text \<open>
  The table is laid out in a store when every entry of \<open>STACK_INFERENCES\<close> has its arrays at
  the addresses the table gives (an entry without databases has no second array).
\<close>

definition tableAt :: "inferenceRefs \<Rightarrow> store \<Rightarrow> bool" where
  "tableAt table h \<longleftrightarrow>
     map fst table = map fst STACK_INFERENCES
     \<and> list_all2 (\<lambda>(key, langsRef, dbsRef) (key', langs, dbs).
                    langsRef < length h \<and> h ! langsRef = Strings langs
                    \<and> (case dbsRef of
                          None \<Rightarrow> dbs = []
                        | Some r \<Rightarrow> r < length h \<and> h ! r = Strings dbs))
                 table STACK_INFERENCES"

text \<open>Laying the table out: two arrays for an entry with databases, one for an entry without.\<close>

fun layoutInferences :: "(string \<times> string list \<times> string list) list \<Rightarrow> store \<Rightarrow> inferenceRefs \<times> store" where
  "layoutInferences [] h = ([], h)"
| "layoutInferences ((key, langs, dbs) # entries) h =
     (if dbs = []
      then (let (table, h') = layoutInferences entries (h @ [Strings langs])
            in ((key, length h, None) # table, h'))
      else (let (table, h') = layoutInferences entries (h @ [Strings langs, Strings dbs])
            in ((key, length h, Some (Suc (length h))) # table, h')))"


section \<open>Notions used in the statements\<close>

text \<open>
  Keeping the first occurrences, said with positions: the entry at position \<open>i\<close> stays when no
  entry before it has the same lower case, and the entries that stay are unchanged and keep
  their order.
\<close>

definition firstOccurrences :: "string list \<Rightarrow> string list" where
  "firstOccurrences xs =
     map snd (filter (\<lambda>(i, x). toLowerCase x \<notin> toLowerCase ` set (take i xs)) (enumerate 0 xs))"

text \<open>The technology maps of the rows that reached the dataset.\<close>

definition emittedTechnologies :: "runState \<Rightarrow> technologies list" where
  "emittedTechnologies st =
     concat (map (\<lambda>r. case rTechnologies r of None \<Rightarrow> [] | Some t \<Rightarrow> [t]) (dataset st))"

text \<open>
  The CMS candidates in the words of the specification: the technologies of category \<open>cms\<close>
  whose confidence clears the threshold 3, in the order of the corpus.
\<close>

definition clearingCmsCandidates :: "(string \<times> techPattern) list \<Rightarrow> dom \<Rightarrow> string \<Rightarrow> headers
    \<Rightarrow> cmsCandidate list" where
  "clearingCmsCandidates corpus d html headers =
     map (\<lambda>(techName, patterns).
            \<lparr>cKey = techName, cDisplayName = humanizeTechName techName,
             cConfidence = eConfidence (scanTech techName patterns d html headers),
             cVersion = eVersion (scanTech techName patterns d html headers)\<rparr>)
         (filter (\<lambda>(techName, patterns).
                    getCategoryForTech techName = Cms
                    \<and> eConfidence (scanTech techName patterns d html headers) \<ge> 3)
                 corpus)"

text \<open>The browser pass fails for a request: navigation fails, or one of the three page
  operations throws.\<close>

fun browserFailed :: "tier2Event \<Rightarrow> bool" where
  "browserFailed NavigationFailed = True"
| "browserFailed (PageOpened page) = (isl (pageLoad page) \<or> isl (pageContent page) \<or> isl (pageWindow page))"

text \<open>The dataset rejects the row of the browser pass.\<close>

fun browserRowRejected :: "tier2Event \<Rightarrow> bool" where
  "browserRowRejected NavigationFailed = False"
| "browserRowRejected (PageOpened page) = (pagePush page \<noteq> Appended)"

text \<open>The response, if any, whose record a run of the static handler stores in \<open>results\<close>.\<close>

fun storedResponse :: "tier1Event \<Rightarrow> staticResponse option" where
  "storedResponse RequestFailed = None"
| "storedResponse (HandlerThrew message now outcome) = None"
| "storedResponse (Responded res) = Some res"
| "storedResponse (SinkRejected res message now outcome) = Some res"

text \<open>The handler runs and the dataset accepts what it pushes.\<close>

fun pushesAccepted :: "tier1Event \<Rightarrow> bool" where
  "pushesAccepted RequestFailed = False"
| "pushesAccepted (HandlerThrew message now outcome) = (outcome = Appended)"
| "pushesAccepted (Responded res) = True"
| "pushesAccepted (SinkRejected res message now outcome) = False"

text \<open>The rows of a list that belong to a URL.\<close>

definition rowsFor :: "string \<Rightarrow> scanResult list \<Rightarrow> scanResult list" where
  "rowsFor url rs = filter (\<lambda>r. rUrl r = url) rs"

text \<open>The record that the browser pass writes over \<open>results[idx]\<close> and pushes to the dataset
  when the page operations succeed: the rendered markup analysed, the runtime detections
  merged in, and the old record updated with both.\<close>

definition pageHeadersOrEmpty :: "browserPage \<Rightarrow> headers" where
  "pageHeadersOrEmpty page = (case pageHeaders page of Some h \<Rightarrow> h | None \<Rightarrow> Map.empty)"

definition browserRow :: "(string \<Rightarrow> dom) \<Rightarrow> scanResult \<Rightarrow> string \<Rightarrow> string \<Rightarrow> headers
    \<Rightarrow> (string \<Rightarrow> bool) \<Rightarrow> scanResult" where
  "browserRow cheerioLoad r url html headers win =
     (let a = analyzeStaticResponse cheerioLoad html headers url;
          merged = foldl mergeBrowserTech (aTechnologies a, aTechMatches a) (extractBrowserTechnologies win)
      in browserUpdate r headers (fst merged) (aStructuredData a) (snd merged))"

text \<open>No two entries of any category array have the same lower case.\<close>

definition caseDistinct :: "technologies \<Rightarrow> bool" where
  "caseDistinct t = list_all (\<lambda>c. distinct (map toLowerCase (getTechnologies c t))) allCategories"

text \<open>The records that a run of the static handler stores in \<open>results\<close>, and the rows that
  it gets into the dataset.\<close>

definition staticRow :: "bool \<Rightarrow> (string \<Rightarrow> dom) \<Rightarrow> string \<times> tier1Event \<Rightarrow> scanResult list" where
  "staticRow shouldProbeApi cheerioLoad request =
     (case snd request of
        RequestFailed \<Rightarrow> []
      | HandlerThrew message now outcome \<Rightarrow> [failedResult (fst request) message now]
      | Responded res \<Rightarrow> [deduplicateResult (staticResult shouldProbeApi cheerioLoad (fst request) res)]
      | SinkRejected res message now outcome \<Rightarrow>
          [deduplicateResult (staticResult shouldProbeApi cheerioLoad (fst request) res),
           failedResult (fst request) message now])"

definition sinkRow :: "bool \<Rightarrow> (string \<Rightarrow> dom) \<Rightarrow> string \<times> tier1Event \<Rightarrow> scanResult list" where
  "sinkRow shouldProbeApi cheerioLoad request =
     (case snd request of
        RequestFailed \<Rightarrow> []
      | HandlerThrew message now outcome \<Rightarrow> pushData outcome (failedResult (fst request) message now) []
      | Responded res \<Rightarrow> [deduplicateResult (staticResult shouldProbeApi cheerioLoad (fst request) res)]
      | SinkRejected res message now outcome \<Rightarrow> pushData outcome (failedResult (fst request) message now) [])"

text \<open>What the loop of the scanner keeps true: there is no match exactly when there is neither
  a technology in an array nor a CMS candidate.\<close>

definition scanInv :: "scanState \<Rightarrow> bool" where
  "scanInv s \<longleftrightarrow> (sTechMatches s = [] \<longleftrightarrow> flatTechnologies (sTechnologies s) = [] \<and> sCmsCandidates s = [])"

section \<open>Sample inputs\<close>

text \<open>The tree of an empty document.\<close>

definition emptyDom :: dom where
  "emptyDom = \<lparr>domScripts = [], domStylesheets = [], domMeta = (\<lambda>name. None), domLdJson = [],
                domTitle = [], domDescription = None\<rparr>"

text \<open>A response with an empty body and one header of the Vercel platform.\<close>

definition vercelResponse :: staticResponse where
  "vercelResponse = \<lparr>resHeaders = [''x-vercel-id'' \<mapsto> ''fra1::abc''], resCookies = [], resBody = [],
                     resProbe = None, resNow = ''2024-12-11T10:30:00.000Z''\<rparr>"

text \<open>A single CMS match of confidence 5: a generator meta tag (2) and one script (3).\<close>

definition wordpressMatch5 :: techMatches where
  "wordpressMatch5 =
     [(''wordpress'', \<lparr>mConfidence = 5, mVersion = None, mCategory = Cms,
                        mDisplayName = ''Wordpress'', mSources = [''script'', ''meta'']\<rparr>)]"

definition unknownServer :: serverInfo where
  "unknownServer = \<lparr>software = ''Unknown'', poweredBy = None\<rparr>"

text \<open>Headers on which two providers score the same: one header of Cloudflare, one of Imperva.\<close>

definition tieHeaders :: headers where
  "tieHeaders = [''cf-ray'' \<mapsto> ''abc123'', ''x-cdn'' \<mapsto> ''Incapsula'']"

text \<open>One Cloudflare header and one Cloudflare cookie: a score of 5.\<close>

definition cloudflareHeaders :: headers where
  "cloudflareHeaders = [''cf-ray'' \<mapsto> ''abc123'']"

text \<open>A body with two marks of WordPress and two of Drupal and no element that the scanner
  queries, so its tree is \<open>emptyDom\<close>.\<close>

definition twoCmsBody :: string where
  "twoCmsBody = ''<p>wp-includes/ wp-content/plugins/ drupal.org sites/default/files</p>''"

text \<open>A response without headers and with an empty body: nothing matches.\<close>

definition blankResponse :: staticResponse where
  "blankResponse = \<lparr>resHeaders = Map.empty, resCookies = [], resBody = [],
                    resProbe = None, resNow = ''2024-12-11T10:30:00.000Z''\<rparr>"

text \<open>A page that renders to an empty document with none of the checked globals, and a page
  whose \<open>content\<close> throws.\<close>

definition blankPage :: browserPage where
  "blankPage = \<lparr>pageLoad = Inr (), pageContent = Inr [], pageHeaders = None,
                pageWindow = Inr (\<lambda>prop. False), pagePush = Appended\<rparr>"

definition crashingPage :: browserPage where
  "crashingPage = \<lparr>pageLoad = Inr (), pageContent = Inl ''Target closed'', pageHeaders = None,
                   pageWindow = Inr (\<lambda>prop. False), pagePush = Appended\<rparr>"

text \<open>A request answered with nothing to match, whose record the dataset rejects; the failed
  record of the \<open>catch\<close> block is accepted.\<close>

definition rejectedRequests :: "(string \<times> tier1Event) list" where
  "rejectedRequests =
     [(''https://c.example'',
       SinkRejected blankResponse ''Dataset quota exceeded'' ''2024-12-11T10:30:01.000Z'' Appended)]"

text \<open>A page that renders like \<open>blankPage\<close>, with a dataset that rejects the row.\<close>

definition rejectingPage :: browserPage where
  "rejectingPage = blankPage\<lparr>pagePush := Rejected ''Dataset quota exceeded''\<rparr>"

text \<open>The record that the static pass stores for a blank response.\<close>

definition blankRecord :: scanResult where
  "blankRecord = deduplicateResult (staticResult False (\<lambda>html. emptyDom) ''https://b.example'' blankResponse)"

text \<open>A page that renders to an empty document and has jQuery on its window.\<close>

definition jqueryPage :: browserPage where
  "jqueryPage = \<lparr>pageLoad = Inr (), pageContent = Inr [], pageHeaders = None,
                 pageWindow = Inr (\<lambda>prop. prop = ''jQuery''), pagePush = Appended\<rparr>"

text \<open>Two requests: one answered with a Vercel header, one with nothing to match.\<close>

definition twoRequests :: "(string \<times> tier1Event) list" where
  "twoRequests = [(''https://a.example'', Responded vercelResponse),
                  (''https://b.example'', Responded blankResponse)]"

text \<open>
  The document of the WordPress scenario, and what the parser gives for it: one script element
  with a \<open>src\<close> and no content, no stylesheet, and the generator meta tag.
\<close>

definition wordpressDoc :: string where
  "wordpressDoc =
     ''<meta name=\"generator\" content=\"WordPress 6.3\"><script src=\"wp-content/themes/x.js\"></script>''"

definition wordpressDom :: dom where
  "wordpressDom =
     \<lparr>domScripts = [(Some ''wp-content/themes/x.js'', [])],
      domStylesheets = [],
      domMeta = (\<lambda>name. if name = ''generator'' then Some ''WordPress 6.3'' else None),
      domLdJson = [],
      domTitle = [],
      domDescription = None\<rparr>"

text \<open>The entry of WordPress in the corpus.\<close>

definition wordpressPatterns :: techPattern where
  "wordpressPatterns = snd (hd cmsPatterns)"

text \<open>
  A call of \<open>buildVerdict\<close> in a store: the four arguments at the addresses 0 to 3 and the table
  of inferences behind them. Drupal stands before WordPress in the matches, so that the sort of
  the candidates has something to move.
\<close>

definition sampleTechnologies :: technologies where
  "sampleTechnologies = noTechnologies\<lparr>cms := [''Wordpress 6.4''], frontend := [''React''],
                                        hosting := [''Vercel'']\<rparr>"

definition sampleMatches :: techMatches where
  "sampleMatches =
     [(''drupal'', \<lparr>mConfidence = 4, mVersion = None, mCategory = Cms,
                    mDisplayName = ''Drupal'', mSources = [''html'']\<rparr>),
      (''wordpress'', \<lparr>mConfidence = 6, mVersion = Some ''6.4'', mCategory = Cms,
                       mDisplayName = ''Wordpress'', mSources = [''meta'', ''html'']\<rparr>),
      (''react'', \<lparr>mConfidence = 3, mVersion = None, mCategory = Frontend,
                   mDisplayName = ''React'', mSources = [''script'']\<rparr>),
      (''vercel'', \<lparr>mConfidence = 4, mVersion = None, mCategory = Hosting,
                    mDisplayName = ''Vercel'', mSources = [''headers'']\<rparr>)]"

definition phpServer :: serverInfo where
  "phpServer = \<lparr>software = ''nginx'', poweredBy = Some ''PHP/8.1''\<rparr>"

definition sampleArguments :: store where
  "sampleArguments = [TechnologiesObject sampleTechnologies, MatchesObject sampleMatches,
                      WafObject (Detected ''Cloudflare'' ''high'' 5), ServerObject phpServer]"

definition sampleTable :: inferenceRefs where
  "sampleTable = fst (layoutInferences STACK_INFERENCES sampleArguments)"

definition sampleStore :: store where
  "sampleStore = snd (layoutInferences STACK_INFERENCES sampleArguments)"

definition sampleVerdict :: verdict where
  "sampleVerdict =
     \<lparr>vPrimary = \<lparr>primaryCms = Some \<lparr>tKey = ''wordpress'', tDisplayName = ''Wordpress'',
                                       tVersion = Some ''6.4'', tConfidence = 6\<rparr>,
                   primaryFrontend = Some \<lparr>tKey = ''react'', tDisplayName = ''React'',
                                            tVersion = None, tConfidence = 3\<rparr>,
                   primaryHosting = Some \<lparr>tKey = ''vercel'', tDisplayName = ''Vercel'',
                                           tVersion = None, tConfidence = 4\<rparr>,
                   primaryCdn = None\<rparr>,
      vInferred = \<lparr>languages = [''PHP'', ''JavaScript/TypeScript''], databases = [''MySQL/MariaDB'']\<rparr>,
      vConfidence = ''high'',
      vSummary = ''CMS: Wordpress 6.4 | Frontend: React | Hosting: Vercel | WAF: Cloudflare (high) | Language: PHP, JavaScript/TypeScript | Database: MySQL/MariaDB''\<rparr>"

section \<open>Properties\<close>

subsection \<open>Case mapping, bit by bit\<close>

text \<open>
  The two case mappings on the bits of a code unit: a letter changes case by its bit 5. These
  equations replace the arithmetic of the definitions when a concrete input is evaluated.
\<close>

lemma toLowerCaseChar_bits [code]:
  "toLowerCaseChar (Char b0 b1 b2 b3 b4 b5 b6 b7) =
     (if b6 \<and> \<not> b5 \<and>
         (if b7 then \<not> (b4 \<and> b2 \<and> b1 \<and> b0)
          else (b4 \<or> b3 \<or> b2 \<or> b1 \<or> b0) \<and> \<not> (b4 \<and> b3 \<and> (b2 \<or> (b1 \<and> b0))))
      then Char b0 b1 b2 b3 b4 True b6 b7
      else Char b0 b1 b2 b3 b4 b5 b6 b7)"
  by (induct b0; induct b1; induct b2; induct b3; induct b4; induct b5; induct b6; induct b7; code_simp)

lemma toUpperCaseChar_bits [code]:
  "toUpperCaseChar (Char b0 b1 b2 b3 b4 b5 b6 b7) =
     (if b6 \<and> b5 \<and>
         (if b7 then \<not> (b4 \<and> b2 \<and> b1 \<and> b0)
          else (b4 \<or> b3 \<or> b2 \<or> b1 \<or> b0) \<and> \<not> (b4 \<and> b3 \<and> (b2 \<or> (b1 \<and> b0))))
      then Char b0 b1 b2 b3 b4 False b6 b7
      else Char b0 b1 b2 b3 b4 b5 b6 b7)"
  by (induct b0; induct b1; induct b2; induct b3; induct b4; induct b5; induct b6; induct b7; code_simp)

subsection \<open>Deduplication\<close>

lemma dedupSeen_lower_notin:
  "x \<in> set (dedupSeen seen arr) \<Longrightarrow> toLowerCase x \<notin> seen"
  by (induction arr arbitrary: seen) (auto simp: Let_def split: if_splits)

lemma dedupSeen_distinct: "distinct (map toLowerCase (dedupSeen seen arr))"
proof (induction arr arbitrary: seen)
  case Nil
  show ?case by simp
next
  case (Cons item arr)
  show ?case
  proof (cases "toLowerCase item \<in> seen")
    case True
    then show ?thesis using Cons.IH [of seen] by (simp add: Let_def)
  next
    case False
    have "toLowerCase item \<notin> toLowerCase ` set (dedupSeen (insert (toLowerCase item) seen) arr)"
    proof
      assume "toLowerCase item \<in> toLowerCase ` set (dedupSeen (insert (toLowerCase item) seen) arr)"
      then obtain y where y: "y \<in> set (dedupSeen (insert (toLowerCase item) seen) arr)"
        and eq: "toLowerCase item = toLowerCase y" by auto
      from dedupSeen_lower_notin [OF y] eq show False by simp
    qed
    then show ?thesis using False Cons.IH [of "insert (toLowerCase item) seen"] by (simp add: Let_def)
  qed
qed

lemma deduplicateArray_distinct: "distinct (map toLowerCase (deduplicateArray arr))"
  by (simp add: deduplicateArray_def dedupSeen_distinct)

lemma dedupSeen_id:
  "distinct (map toLowerCase xs) \<Longrightarrow> toLowerCase ` set xs \<inter> seen = {} \<Longrightarrow> dedupSeen seen xs = xs"
  by (induction xs arbitrary: seen) (auto simp: Let_def)

lemma deduplicateArray_id:
  "distinct (map toLowerCase xs) \<Longrightarrow> deduplicateArray xs = xs"
  by (simp add: deduplicateArray_def dedupSeen_id)

lemma deduplicateArray_idem: "deduplicateArray (deduplicateArray xs) = deduplicateArray xs"
  by (simp add: deduplicateArray_id deduplicateArray_distinct)

lemma deduplicateArray_Nil_iff: "deduplicateArray xs = [] \<longleftrightarrow> xs = []"
  by (cases xs) (simp_all add: deduplicateArray_def Let_def)

lemma deduplicateArray_length_le: "length (deduplicateArray xs) \<le> length xs"
proof -
  have "length (dedupSeen seen ys) \<le> length ys" for seen ys
    by (induction ys arbitrary: seen) (auto simp: Let_def le_SucI)
  then show ?thesis by (simp add: deduplicateArray_def)
qed


lemma dedupSeen_positions:
  "dedupSeen seen xs =
     map snd (filter (\<lambda>(i, x). toLowerCase x \<notin> seen \<union> toLowerCase ` set (take (i - n) xs))
                     (enumerate n xs))"
proof (induction xs arbitrary: seen n)
  case Nil
  show ?case by simp
next
  case (Cons y ys)
  have shift: "filter (\<lambda>(i, x). toLowerCase x \<notin> seen \<union> toLowerCase ` set (take (i - n) (y # ys)))
                      (enumerate (Suc n) ys)
             = filter (\<lambda>(i, x). toLowerCase x \<notin> insert (toLowerCase y) seen
                                   \<union> toLowerCase ` set (take (i - Suc n) ys))
                      (enumerate (Suc n) ys)"
  proof (rule filter_cong [OF refl])
    fix p assume "p \<in> set (enumerate (Suc n) ys)"
    then have "Suc n \<le> fst p" by (auto simp: in_set_enumerate_eq)
    then have "fst p - n = Suc (fst p - Suc n)" by simp
    then show "(case p of (i, x) \<Rightarrow> toLowerCase x \<notin> seen \<union> toLowerCase ` set (take (i - n) (y # ys)))
             = (case p of (i, x) \<Rightarrow> toLowerCase x \<notin> insert (toLowerCase y) seen
                                   \<union> toLowerCase ` set (take (i - Suc n) ys))"
      by (cases p) auto
  qed
  show ?case
  proof (cases "toLowerCase y \<in> seen")
    case True
    then have "insert (toLowerCase y) seen = seen" by auto
    with True show ?thesis
      using Cons.IH [of seen "Suc n"] shift by (simp add: Let_def)
  next
    case False
    then show ?thesis
      using Cons.IH [of "insert (toLowerCase y) seen" "Suc n"] shift by (simp add: Let_def)
  qed
qed

lemma deduplicateArray_firstOccurrences: "deduplicateArray xs = firstOccurrences xs"
  using dedupSeen_positions [of "{}" xs 0] by (simp add: deduplicateArray_def firstOccurrences_def)

lemma dedupTechnologies_distinct:
  "distinct (map toLowerCase (getTechnologies c (dedupTechnologies t)))"
  by (cases c) (simp_all add: getTechnologies_def dedupTechnologies_def deduplicateArray_distinct)


subsection \<open>The rows of a run\<close>

lemma findIndex_Some:
  "findIndex P xs = Some i \<Longrightarrow> i < length xs \<and> P (xs ! i) \<and> (\<forall>j<i. \<not> P (xs ! j))"
proof (induction xs arbitrary: i)
  case Nil
  then show ?case by simp
next
  case (Cons x xs)
  show ?case
  proof (cases "P x")
    case True
    with Cons.prems show ?thesis by simp
  next
    case False
    with Cons.prems obtain k where k: "findIndex P xs = Some k" and i: "i = Suc k" by auto
    from Cons.IH [OF k] False i show ?thesis by (auto simp: less_Suc_eq_0_disj)
  qed
qed

lemma findIndex_None: "findIndex P xs = None \<longleftrightarrow> (\<forall>x \<in> set xs. \<not> P x)"
  by (induction xs) auto

lemma playwrightHandler_cases:
  "playwrightHandler cl st url ev = st
   \<or> (\<exists>idx page html win.
        ev = PageOpened page \<and> pageContent page = Inr html \<and> pageWindow page = Inr win
        \<and> \<not> browserFailed ev
        \<and> findIndex (\<lambda>r. rUrl r = url) (results st) = Some idx
        \<and> playwrightHandler cl st url ev =
            st\<lparr>results := (results st)[idx := browserRow cl (results st ! idx) url html (pageHeadersOrEmpty page) win],
               dataset := pushData (pagePush page) (browserRow cl (results st ! idx) url html (pageHeadersOrEmpty page) win)
                            (dataset st)\<rparr>)"
  by (auto simp: playwrightHandler_def browserRow_def pageHeadersOrEmpty_def Let_def
           split: tier2Event.splits sum.splits option.splits)

lemma playwrightHandler_failed: "browserFailed ev \<Longrightarrow> playwrightHandler cl st url ev = st"
  by (cases ev) (auto simp: playwrightHandler_def isl_def split: sum.splits)

lemma playwrightHandler_rendered:
  assumes "ev = PageOpened page" "pageLoad page = Inr u" "pageContent page = Inr html" "pageWindow page = Inr win"
    "findIndex (\<lambda>r. rUrl r = url) (results st) = Some idx"
  shows "playwrightHandler cl st url ev =
            st\<lparr>results := (results st)[idx := browserRow cl (results st ! idx) url html (pageHeadersOrEmpty page) win],
               dataset := pushData (pagePush page) (browserRow cl (results st ! idx) url html (pageHeadersOrEmpty page) win)
                            (dataset st)\<rparr>"
  using assms
  by (simp add: playwrightHandler_def browserRow_def pageHeadersOrEmpty_def Let_def)

lemma cheerioHandler_rows:
  assumes st: "\<forall>r \<in> set (dataset st) \<union> set (results st). P r"
    and failed: "\<And>url m now. P (failedResult url m now)"
    and static: "\<And>url res. P (deduplicateResult (staticResult p cl url res))"
  shows "\<forall>r \<in> set (dataset (cheerioHandler p cl st url ev)) \<union> set (results (cheerioHandler p cl st url ev)). P r"
  using st failed static
  by (cases ev) (auto simp: cheerioHandler_def Let_def pushData_def split: pushOutcome.splits)

lemma playwrightHandler_rows:
  assumes st: "\<forall>r \<in> set (dataset st) \<union> set (results st). P r"
    and browser: "\<And>r url html headers win. P (browserRow cl r url html headers win)"
  shows "\<forall>r \<in> set (dataset (playwrightHandler cl st url ev)) \<union> set (results (playwrightHandler cl st url ev)). P r"
proof -
  from playwrightHandler_cases [of cl st url ev]
  show ?thesis
  proof
    assume "playwrightHandler cl st url ev = st"
    with st show ?thesis by simp
  next
    assume "\<exists>idx page html win.
        ev = PageOpened page \<and> pageContent page = Inr html \<and> pageWindow page = Inr win
        \<and> \<not> browserFailed ev
        \<and> findIndex (\<lambda>r. rUrl r = url) (results st) = Some idx
        \<and> playwrightHandler cl st url ev =
            st\<lparr>results := (results st)[idx := browserRow cl (results st ! idx) url html (pageHeadersOrEmpty page) win],
               dataset := pushData (pagePush page) (browserRow cl (results st ! idx) url html (pageHeadersOrEmpty page) win)
                            (dataset st)\<rparr>"
    then obtain idx R outcome where
      eq: "playwrightHandler cl st url ev
           = st\<lparr>results := (results st)[idx := R], dataset := pushData outcome R (dataset st)\<rparr>"
      and R: "P R" using browser by blast
    have "\<forall>r \<in> set ((results st)[idx := R]). P r"
      using st R by (metis UnCI insertE set_update_subset_insert subset_iff)
    moreover have "\<forall>r \<in> set (pushData outcome R (dataset st)). P r"
      using st R by (cases outcome) (auto simp: pushData_def)
    ultimately show ?thesis by (auto simp: eq)
  qed
qed

lemma runScan_rows:
  assumes failed: "\<And>url m now. P (failedResult url m now)"
    and static: "\<And>url res. P (deduplicateResult (staticResult p cl url res))"
    and browser: "\<And>r url html headers win. P (browserRow cl r url html headers win)"
  shows "\<forall>r \<in> set (dataset (runScan use p cl reqs browse)) \<union> set (results (runScan use p cl reqs browse)). P r"
proof -
  have one: "\<forall>r \<in> set (dataset st) \<union> set (results st). P r \<Longrightarrow>
        \<forall>r \<in> set (dataset (foldl (\<lambda>st (url, ev). cheerioHandler p cl st url ev) st reqs))
             \<union> set (results (foldl (\<lambda>st (url, ev). cheerioHandler p cl st url ev) st reqs)). P r" for st
  proof (induction reqs arbitrary: st)
    case Nil
    then show ?case by simp
  next
    case (Cons a reqs)
    obtain url ev where a: "a = (url, ev)" by (cases a)
    from Cons.IH [OF cheerioHandler_rows [OF Cons.prems failed static, of url ev]]
    show ?case by (simp add: a)
  qed
  have two: "\<forall>r \<in> set (dataset st) \<union> set (results st). P r \<Longrightarrow>
        \<forall>r \<in> set (dataset (browserPass cl browse queue st)) \<union> set (results (browserPass cl browse queue st)). P r"
    for st queue
  proof (induction queue arbitrary: st)
    case Nil
    then show ?case by (simp add: browserPass_def)
  next
    case (Cons u queue)
    from Cons.IH [OF playwrightHandler_rows [OF Cons.prems browser, of u "browse u"]]
    show ?case by (simp add: browserPass_def)
  qed
  have "\<forall>r \<in> set (dataset (staticPass p cl reqs)) \<union> set (results (staticPass p cl reqs)). P r"
    using one [of initialState] by (simp add: staticPass_def initialState_def)
  from two [OF this] show ?thesis by (simp add: runScan_def Let_def)
qed

subsection \<open>Case-insensitive deduplication of the technology arrays\<close>

lemma caseDistinct_dedupTechnologies: "caseDistinct (dedupTechnologies t)"
  by (simp add: caseDistinct_def allCategories_def getTechnologies_def dedupTechnologies_def
                deduplicateArray_distinct)

lemma caseDistinct_iff: "caseDistinct t \<longleftrightarrow> (\<forall>c. distinct (map toLowerCase (getTechnologies c t)))"
proof
  assume "caseDistinct t"
  then show "\<forall>c. distinct (map toLowerCase (getTechnologies c t))"
    unfolding caseDistinct_def allCategories_def
    by (intro allI, case_tac c) simp_all
next
  assume "\<forall>c. distinct (map toLowerCase (getTechnologies c t))"
  then show "caseDistinct t" by (simp add: caseDistinct_def list_all_iff)
qed

lemma rows_caseDistinct:
  "\<forall>r \<in> set (dataset (runScan use p cl reqs browse)) \<union> set (results (runScan use p cl reqs browse)).
     \<forall>t. rTechnologies r = Some t \<longrightarrow> caseDistinct t"
proof (rule runScan_rows)
  show "\<forall>t. rTechnologies (failedResult url m now) = Some t \<longrightarrow> caseDistinct t" for url m now
    by (simp add: failedResult_def)
  show "\<forall>t. rTechnologies (deduplicateResult (staticResult p cl url res)) = Some t \<longrightarrow> caseDistinct t" for url res
    by (auto simp: deduplicateResult_def caseDistinct_dedupTechnologies)
  show "\<forall>t. rTechnologies (browserRow cl r url html headers win) = Some t \<longrightarrow> caseDistinct t"
    for r url html headers win
    by (auto simp: browserRow_def browserUpdate_def Let_def deduplicateResult_def caseDistinct_dedupTechnologies)
qed

text \<open>
  Claim C8. In every row that a run pushes to the dataset, no category array of the
  technologies has two entries with the same lower case, so no two entries differ only by
  letter case. \<open>deduplicateArray\<close> keeps, in their order and unchanged, exactly the entries
  that no earlier entry equals in lower case: the first occurrence with its own casing.
\<close>

theorem technologies_case_insensitive_dedup:
  "(\<forall>t \<in> set (emittedTechnologies (runScan usePlaywrightFallback shouldProbeApi cheerioLoad requests browse)).
      \<forall>category. distinct (map toLowerCase (getTechnologies category t)))
   \<and> deduplicateArray arr = firstOccurrences arr"
proof
  show "\<forall>t \<in> set (emittedTechnologies (runScan usePlaywrightFallback shouldProbeApi cheerioLoad requests browse)).
      \<forall>category. distinct (map toLowerCase (getTechnologies category t))"
  proof
    fix t
    assume "t \<in> set (emittedTechnologies (runScan usePlaywrightFallback shouldProbeApi cheerioLoad requests browse))"
    then obtain r where "r \<in> set (dataset (runScan usePlaywrightFallback shouldProbeApi cheerioLoad requests browse))"
      and "rTechnologies r = Some t"
      by (auto simp: emittedTechnologies_def split: option.splits)
    with rows_caseDistinct [of usePlaywrightFallback shouldProbeApi cheerioLoad requests browse]
    have "caseDistinct t" by blast
    then show "\<forall>category. distinct (map toLowerCase (getTechnologies category t))"
      by (simp add: caseDistinct_iff)
  qed
  show "deduplicateArray arr = firstOccurrences arr"
    by (rule deduplicateArray_firstOccurrences)
qed

text \<open>Witness for C8: a run with one response, which emits one technology map, and an
  array with entries that differ only by case.\<close>

theorem technologies_case_insensitive_dedup_witness:
  "emittedTechnologies (runScan True False (\<lambda>html. emptyDom) [(''https://a.example'', Responded vercelResponse)]
                          (\<lambda>url. NavigationFailed))
     = [noTechnologies\<lparr>hosting := [''Vercel'']\<rparr>]
   \<and> distinct (map toLowerCase (getTechnologies Hosting (noTechnologies\<lparr>hosting := [''Vercel'']\<rparr>)))
   \<and> deduplicateArray [''React'', ''react'', ''Vue'', ''REACT''] = [''React'', ''Vue'']"
proof -
  have e: "emittedTechnologies (runScan True False (\<lambda>html. emptyDom) [(''https://a.example'', Responded vercelResponse)]
                          (\<lambda>url. NavigationFailed))
     = [noTechnologies\<lparr>hosting := [''Vercel'']\<rparr>]"
    by code_simp
  have f: "firstOccurrences [''React'', ''react'', ''Vue'', ''REACT''] = [''React'', ''Vue'']"
    by code_simp
  from technologies_case_insensitive_dedup
         [of True False "\<lambda>html. emptyDom" "[(''https://a.example'', Responded vercelResponse)]"
             "\<lambda>url. NavigationFailed" "[''React'', ''react'', ''Vue'', ''REACT'']"] e f
  show ?thesis by simp
qed

subsection \<open>The stable sort by falling confidence\<close>

lemma sortByConfidenceDesc_Nil_iff: "sortByConfidenceDesc conf xs = [] \<longleftrightarrow> xs = []"
  by (metis length_0_conv length_sort sortByConfidenceDesc_def)

lemma sortByConfidenceDesc_set: "set (sortByConfidenceDesc conf xs) = set xs"
  by (simp add: sortByConfidenceDesc_def)

lemma sortByConfidenceDesc_hd_max:
  assumes "sortByConfidenceDesc conf xs = c # ys"
  shows "c \<in> set xs \<and> (\<forall>x \<in> set xs. conf x \<le> conf c)"
proof -
  have s: "sorted (map (\<lambda>x. - int (conf x)) (sort_key (\<lambda>x. - int (conf x)) xs))"
    by (rule sorted_sort_key)
  from assms have eq: "sort_key (\<lambda>x. - int (conf x)) xs = c # ys" by (simp add: sortByConfidenceDesc_def)
  from s eq have "\<forall>y \<in> set ys. - int (conf c) \<le> - int (conf y)" by simp
  then have "\<forall>y \<in> set (c # ys). conf y \<le> conf c" by auto
  moreover from eq have "set (c # ys) = set xs" by (metis set_sort)
  ultimately show ?thesis by auto
qed

lemma sortByConfidenceDesc_first_max:
  assumes "xs = pre @ c # post"
    and "\<forall>p \<in> set pre. conf p < conf c"
    and "\<forall>q \<in> set post. conf q \<le> conf c"
  shows "\<exists>ys. sortByConfidenceDesc conf xs = c # ys"
  using assms
proof (induction pre arbitrary: xs)
  case Nil
  let ?f = "\<lambda>x. - int (conf x)"
  have "\<forall>y \<in> set (sort_key ?f post). ?f c \<le> ?f y" using Nil.prems by simp
  then have "insort_key ?f c (sort_key ?f post) = c # sort_key ?f post"
    by (cases "sort_key ?f post") auto
  with Nil.prems show ?case by (simp add: sortByConfidenceDesc_def)
next
  case (Cons p pre)
  let ?f = "\<lambda>x. - int (conf x)"
  from Cons.IH [of "pre @ c # post"] Cons.prems obtain ys where
    ys: "sort_key ?f (pre @ c # post) = c # ys" by (auto simp: sortByConfidenceDesc_def)
  from Cons.prems have "\<not> ?f p \<le> ?f c" by simp
  with ys have "sort_key ?f (p # pre @ c # post) = c # insort_key ?f p ys" by simp
  with Cons.prems show ?case by (simp add: sortByConfidenceDesc_def)
qed

lemma pickConfidence_pickTop:
  "pickConfidence (pickTop techMatches category) =
     Max (insert 0 {mConfidence m | key m. (key, m) \<in> set techMatches \<and> mCategory m = category})"
proof -
  define cands where "cands = filter (\<lambda>(key, m). mCategory m = category) techMatches"
  define S where "S = {mConfidence m | key m. (key, m) \<in> set techMatches \<and> mCategory m = category}"
  have S: "S = (\<lambda>(key, m). mConfidence m) ` set cands" unfolding S_def cands_def by force
  have fin: "finite (insert 0 S)" unfolding S by simp
  have "pickConfidence (pickTop techMatches category) = Max (insert 0 S)"
  proof (cases "sortByConfidenceDesc (\<lambda>(key, m). mConfidence m) cands")
    case Nil
    then have "cands = []" by (simp add: sortByConfidenceDesc_Nil_iff)
    then have "S = {}" unfolding S by simp
    then have "Max (insert 0 S) = 0" by simp
    moreover from Nil have "pickConfidence (pickTop techMatches category) = 0"
      by (simp add: pickTop_def pickConfidence_def Let_def cands_def)
    ultimately show ?thesis by simp
  next
    case (Cons c ys)
    obtain key m where c: "c = (key, m)" by (cases c)
    from sortByConfidenceDesc_hd_max [OF Cons] c
    have mem: "(key, m) \<in> set cands" and mx: "\<forall>x \<in> set cands. (\<lambda>(key, m). mConfidence m) x \<le> mConfidence m"
      by auto
    have "Max (insert 0 S) = mConfidence m"
    proof (rule Max_eqI [OF fin])
      show "mConfidence m \<in> insert 0 S" using mem unfolding S by force
      show "y \<le> mConfidence m" if "y \<in> insert 0 S" for y
        using that mx unfolding S by auto
    qed
    moreover from Cons c have "pickConfidence (pickTop techMatches category) = mConfidence m"
      by (simp add: pickTop_def pickConfidence_def Let_def cands_def)
    ultimately show ?thesis by simp
  qed
  then show ?thesis unfolding S_def .
qed

lemma Max_four_categories:
  fixes tm :: techMatches
  shows "max (max (Max (insert 0 {mConfidence m | key m. (key, m) \<in> set tm \<and> mCategory m = Cms}))
                  (Max (insert 0 {mConfidence m | key m. (key, m) \<in> set tm \<and> mCategory m = Frontend})))
             (max (Max (insert 0 {mConfidence m | key m. (key, m) \<in> set tm \<and> mCategory m = Hosting}))
                  (Max (insert 0 {mConfidence m | key m. (key, m) \<in> set tm \<and> mCategory m = Cdn})))
       = Max (insert 0 {mConfidence m | key m. (key, m) \<in> set tm \<and> mCategory m \<in> {Cms, Frontend, Hosting, Cdn}})"
proof -
  define S where "S = (\<lambda>c. insert 0 {mConfidence m | key m. (key, m) \<in> set tm \<and> mCategory m = c})"
  have fin: "finite (S c)" for c
  proof -
    have "S c \<subseteq> insert 0 ((\<lambda>(key, m). mConfidence m) ` set tm)" unfolding S_def by force
    then show ?thesis by (rule finite_subset) simp
  qed
  have ne: "S c \<noteq> {}" for c unfolding S_def by simp
  have un: "insert 0 {mConfidence m | key m. (key, m) \<in> set tm \<and> mCategory m \<in> {Cms, Frontend, Hosting, Cdn}}
            = (S Cms \<union> S Frontend) \<union> (S Hosting \<union> S Cdn)" unfolding S_def by auto
  have a: "Max (S Cms \<union> S Frontend) = max (Max (S Cms)) (Max (S Frontend))"
    by (rule Max_Un [OF fin ne fin ne])
  have b: "Max (S Hosting \<union> S Cdn) = max (Max (S Hosting)) (Max (S Cdn))"
    by (rule Max_Un [OF fin ne fin ne])
  have f2: "finite (S Cms \<union> S Frontend)" "finite (S Hosting \<union> S Cdn)" using fin by simp_all
  have n2: "S Cms \<union> S Frontend \<noteq> {}" "S Hosting \<union> S Cdn \<noteq> {}" using ne by simp_all
  have "Max ((S Cms \<union> S Frontend) \<union> (S Hosting \<union> S Cdn))
        = max (Max (S Cms \<union> S Frontend)) (Max (S Hosting \<union> S Cdn))"
    by (rule Max_Un [OF f2(1) n2(1) f2(2) n2(2)])
  with a b have "max (max (Max (S Cms)) (Max (S Frontend))) (max (Max (S Hosting)) (Max (S Cdn)))
      = Max ((S Cms \<union> S Frontend) \<union> (S Hosting \<union> S Cdn))" by simp
  then show ?thesis unfolding un [symmetric] unfolding S_def .
qed


subsection \<open>The winner of the WAF scorer\<close>

lemma reduceTop_last_max:
  "\<exists>pre post. first # rest = pre @ reduceTop first rest # post
      \<and> (\<forall>p \<in> set pre. snd p \<le> snd (reduceTop first rest))
      \<and> (\<forall>q \<in> set post. snd q < snd (reduceTop first rest))"
proof (induction rest arbitrary: first)
  case Nil
  have "[first] = [] @ reduceTop first [] # []
      \<and> (\<forall>p \<in> set []. snd p \<le> snd (reduceTop first []))
      \<and> (\<forall>q \<in> set []. snd q < snd (reduceTop first []))"
    by (simp add: reduceTop_def)
  then show ?case by blast
next
  case (Cons b rest)
  show ?case
  proof (cases "snd first > snd b")
    case True
    define t where "t = reduceTop first rest"
    from True have eq: "reduceTop first (b # rest) = t" by (simp add: reduceTop_def t_def)
    from Cons.IH [of first] obtain pre post where
      d: "first # rest = pre @ t # post"
      and le: "\<forall>p \<in> set pre. snd p \<le> snd t"
      and lt: "\<forall>q \<in> set post. snd q < snd t" unfolding t_def by blast
    show ?thesis
    proof (cases pre)
      case Nil
      with d have t: "t = first" and p: "post = rest" by simp_all
      from True lt have "first # b # rest = [] @ t # (b # post)
          \<and> (\<forall>p \<in> set []. snd p \<le> snd t)
          \<and> (\<forall>q \<in> set (b # post). snd q < snd t)" by (simp add: t p)
      then show ?thesis unfolding eq by blast
    next
      case (Cons a pre')
      with d have a: "a = first" and r: "rest = pre' @ t # post" by simp_all
      from le Cons a have "snd first \<le> snd t" by simp
      with True have bt: "snd b \<le> snd t" by simp
      have "first # b # rest = (first # b # pre') @ t # post" using r by simp
      moreover have "\<forall>p \<in> set (first # b # pre'). snd p \<le> snd t" using le Cons a bt by simp
      ultimately have "first # b # rest = (first # b # pre') @ t # post
          \<and> (\<forall>p \<in> set (first # b # pre'). snd p \<le> snd t)
          \<and> (\<forall>q \<in> set post. snd q < snd t)" using lt by blast
      then show ?thesis unfolding eq by blast
    qed
  next
    case False
    define t where "t = reduceTop b rest"
    from False have eq: "reduceTop first (b # rest) = t" by (simp add: reduceTop_def t_def)
    from Cons.IH [of b] obtain pre post where
      d: "b # rest = pre @ t # post"
      and le: "\<forall>p \<in> set pre. snd p \<le> snd t"
      and lt: "\<forall>q \<in> set post. snd q < snd t" unfolding t_def by blast
    have "snd b \<le> snd t"
    proof (cases pre)
      case Nil
      with d have "t = b" by simp
      then show ?thesis by simp
    next
      case (Cons a pre')
      with d have "a = b" by simp
      with le Cons show ?thesis by simp
    qed
    with False have ft: "snd first \<le> snd t" by simp
    have "first # b # rest = (first # pre) @ t # post" using d by simp
    moreover have "\<forall>p \<in> set (first # pre). snd p \<le> snd t" using le ft by simp
    ultimately have "first # b # rest = (first # pre) @ t # post
          \<and> (\<forall>p \<in> set (first # pre). snd p \<le> snd t)
          \<and> (\<forall>q \<in> set post. snd q < snd t)" using lt by blast
    then show ?thesis unfolding eq by blast
  qed
qed

lemma filter_map_split:
  "filter P (map f xs) = ys1 @ y # ys2 \<Longrightarrow>
   \<exists>xs1 x xs2. xs = xs1 @ x # xs2 \<and> f x = y \<and> P y
      \<and> filter P (map f xs1) = ys1 \<and> filter P (map f xs2) = ys2"
proof (induction xs arbitrary: ys1)
  case Nil
  then show ?case by simp
next
  case (Cons a xs)
  show ?case
  proof (cases "P (f a)")
    case False
    with Cons.prems have "filter P (map f xs) = ys1 @ y # ys2" by simp
    from Cons.IH [OF this] obtain xs1 x xs2 where
      "xs = xs1 @ x # xs2" "f x = y" "P y" "filter P (map f xs1) = ys1" "filter P (map f xs2) = ys2"
      by blast
    with False have "a # xs = (a # xs1) @ x # xs2 \<and> f x = y \<and> P y
        \<and> filter P (map f (a # xs1)) = ys1 \<and> filter P (map f xs2) = ys2" by simp
    then show ?thesis by blast
  next
    case True
    show ?thesis
    proof (cases ys1)
      case Nil
      with True Cons.prems have "f a = y" "filter P (map f xs) = ys2" by simp_all
      with True Nil have "a # xs = [] @ a # xs \<and> f a = y \<and> P y
        \<and> filter P (map f []) = ys1 \<and> filter P (map f xs) = ys2" by simp
      then show ?thesis by blast
    next
      case (Cons z zs)
      with True Cons.prems have z: "f a = z" and rest: "filter P (map f xs) = zs @ y # ys2" by simp_all
      from Cons.IH [OF rest] obtain xs1 x xs2 where
        "xs = xs1 @ x # xs2" "f x = y" "P y" "filter P (map f xs1) = zs" "filter P (map f xs2) = ys2"
        by blast
      with True z Cons have "a # xs = (a # xs1) @ x # xs2 \<and> f x = y \<and> P y
        \<and> filter P (map f (a # xs1)) = ys1 \<and> filter P (map f xs2) = ys2" by simp
      then show ?thesis by blast
    qed
  qed
qed

lemma wafScores_Nil_iff:
  "wafScores corpus headers cookies html = []
   \<longleftrightarrow> (\<forall>(name, patterns) \<in> set corpus. wafScore patterns headers cookies html = 0)"
  by (auto simp: wafScores_def filter_empty_conv)

lemma detectWAFWith_None_iff:
  "detectWAFWith corpus headers cookies html = None
   \<longleftrightarrow> (\<forall>(name, patterns) \<in> set corpus. wafScore patterns headers cookies html = 0)"
proof (cases "wafScores corpus headers cookies html")
  case Nil
  then have "detectWAFWith corpus headers cookies html = None" by (simp add: detectWAFWith_def)
  with Nil wafScores_Nil_iff [of corpus headers cookies html] show ?thesis by simp
next
  case (Cons a list)
  then have a: "detectWAFWith corpus headers cookies html \<noteq> None" by (simp add: detectWAFWith_def Let_def)
  from Cons wafScores_Nil_iff [of corpus headers cookies html]
  have b: "\<not> (\<forall>(name, patterns) \<in> set corpus. wafScore patterns headers cookies html = 0)" by simp
  from a b show ?thesis by blast
qed

lemma detectWAFWith_Some:
  assumes "detectWAFWith corpus headers cookies html = Some w"
  shows "\<exists>first rest. wafScores corpus headers cookies html = first # rest
           \<and> wafName w = capitalize (fst (reduceTop first rest))
           \<and> wafScoreValue w = snd (reduceTop first rest)"
proof (cases "wafScores corpus headers cookies html")
  case Nil
  with assms show ?thesis by (simp add: detectWAFWith_def)
next
  case (Cons first rest)
  with assms have "w = \<lparr>wafName = capitalize (fst (reduceTop first rest)),
                 wafConfidence = (if snd (reduceTop first rest) \<ge> 5 then ''high''
                                  else if snd (reduceTop first rest) \<ge> 3 then ''medium'' else ''low''),
                 wafScoreValue = snd (reduceTop first rest)\<rparr>"
    by (simp add: detectWAFWith_def Let_def)
  then have "wafName w = capitalize (fst (reduceTop first rest))"
    and "wafScoreValue w = snd (reduceTop first rest)" by simp_all
  with Cons show ?thesis by blast
qed

lemma detectWAFWith_winner:
  assumes "detectWAFWith corpus headers cookies html = Some w"
  shows "\<exists>pre name patterns post.
           corpus = pre @ (name, patterns) # post
           \<and> wafName w = capitalize name
           \<and> wafScoreValue w = wafScore patterns headers cookies html
           \<and> 0 < wafScoreValue w
           \<and> (\<forall>(n, p) \<in> set pre. wafScore p headers cookies html \<le> wafScoreValue w)
           \<and> (\<forall>(n, p) \<in> set post. wafScore p headers cookies html < wafScoreValue w)"
proof -
  define f where "f = (\<lambda>(name, patterns). (name :: string, wafScore patterns headers cookies html))"
  define P where "P = (\<lambda>(name :: string, score). score > (0::nat))"
  have fP: "P (f (n, p)) \<longleftrightarrow> 0 < wafScore p headers cookies html" for n p
    by (simp add: f_def P_def)
  have ws: "wafScores corpus headers cookies html = filter P (map f corpus)"
    by (simp add: wafScores_def f_def P_def)
  from detectWAFWith_Some [OF assms] obtain first rest where
    fr: "wafScores corpus headers cookies html = first # rest"
    and wn: "wafName w = capitalize (fst (reduceTop first rest))"
    and wv: "wafScoreValue w = snd (reduceTop first rest)" by blast
  define top where "top = reduceTop first rest"
  from reduceTop_last_max [of first rest] obtain ys1 ys2 where
    d: "first # rest = ys1 @ top # ys2"
    and le: "\<forall>p \<in> set ys1. snd p \<le> snd top"
    and lt: "\<forall>q \<in> set ys2. snd q < snd top" unfolding top_def by blast
  from ws fr d have "filter P (map f corpus) = ys1 @ top # ys2" by (simp only:)
  from filter_map_split [OF this] obtain pre x post where
    c: "corpus = pre @ x # post" and x: "f x = top" and pos: "P top"
    and f1: "filter P (map f pre) = ys1" and f2: "filter P (map f post) = ys2" by blast
  obtain name patterns where xx: "x = (name, patterns)" by (cases x)
  from x xx have top: "top = (name, wafScore patterns headers cookies html)" by (simp add: f_def)
  from pos x xx fP [of name patterns] have positive: "0 < wafScore patterns headers cookies html" by simp
  have sv: "snd top = wafScore patterns headers cookies html" by (simp add: top)
  have pre_le: "wafScore p headers cookies html \<le> snd top" if np: "(n, p) \<in> set pre" for n p
  proof (cases "wafScore p headers cookies html > 0")
    case True
    from np have "f (n, p) \<in> f ` set pre" by (rule imageI)
    with True fP [of n p] have "f (n, p) \<in> set (filter P (map f pre))" by simp
    with f1 have "f (n, p) \<in> set ys1" by simp
    with le have "snd (f (n, p)) \<le> snd top" by blast
    then show ?thesis by (simp add: f_def)
  next
    case False
    then show ?thesis by simp
  qed
  have post_lt: "wafScore p headers cookies html < snd top" if np: "(n, p) \<in> set post" for n p
  proof (cases "wafScore p headers cookies html > 0")
    case True
    from np have "f (n, p) \<in> f ` set post" by (rule imageI)
    with True fP [of n p] have "f (n, p) \<in> set (filter P (map f post))" by simp
    with f2 have "f (n, p) \<in> set ys2" by simp
    with lt have "snd (f (n, p)) < snd top" by blast
    then show ?thesis by (simp add: f_def)
  next
    case False
    with positive sv show ?thesis by simp
  qed
  have w1: "wafName w = capitalize name" using wn by (simp add: top_def [symmetric] top)
  have w2: "wafScoreValue w = wafScore patterns headers cookies html"
    using wv by (simp add: top_def [symmetric] top)
  have a: "\<forall>(n, p) \<in> set pre. wafScore p headers cookies html \<le> wafScoreValue w"
    using pre_le unfolding w2 sv by blast
  have b: "\<forall>(n, p) \<in> set post. wafScore p headers cookies html < wafScoreValue w"
    using post_lt unfolding w2 sv by blast
  have "corpus = pre @ (name, patterns) # post
           \<and> wafName w = capitalize name
           \<and> wafScoreValue w = wafScore patterns headers cookies html
           \<and> 0 < wafScoreValue w
           \<and> (\<forall>(n, p) \<in> set pre. wafScore p headers cookies html \<le> wafScoreValue w)
           \<and> (\<forall>(n, p) \<in> set post. wafScore p headers cookies html < wafScoreValue w)"
    using c xx w1 w2 positive a b by (intro conjI) simp_all
  then show ?thesis by blast
qed

lemma detectWAFWith_confidence:
  "detectWAFWith corpus headers cookies html = Some w \<Longrightarrow>
   wafConfidence w = (if wafScoreValue w \<ge> 5 then ''high'' else if wafScoreValue w \<ge> 3 then ''medium'' else ''low'')"
  by (auto simp: detectWAFWith_def Let_def split: list.splits)

lemma wafScore_counts:
  "wafScore patterns headers cookies html =
      3 * card {i. i < length (wHeaders patterns) \<and> headers (toLowerCase (wHeaders patterns ! i)) \<noteq> None}
    + 2 * card {i. i < length (wCookies patterns)
                  \<and> (\<exists>cookie \<in> set cookies. startsWith (toLowerCase cookie) (toLowerCase (wCookies patterns ! i)))}
    + (if \<exists>re. wServer patterns = Some re \<and> test re (headerOrEmpty headers ''server'') then 2 else 0)
    + (if \<exists>re. wHtml patterns = Some re \<and> html \<noteq> [] \<and> test re html then 1 else 0)"
  by (simp add: wafScore_def length_filter_conv_card list_ex_iff split: option.splits)

subsection \<open>The tiers of the verdict and the WAF scorer\<close>

text \<open>
  Claim C2, as the code has it. The overall confidence of a verdict is a three-tier
  threshold of the maximum confidence among the primary cms, frontend, hosting and cdn picks
  (0 for a category without a pick), and that maximum is the largest confidence of any match
  in those four categories. The tiers are those of \<open>confidenceFromScore\<close>: high from 6,
  medium from 3, low below. The WAF scorer has its own tiers, with high from 5.
\<close>

theorem verdict_confidence_tiers:
  "vConfidence (buildVerdict technologies techMatches waf serverInfo) =
     (let primary = vPrimary (buildVerdict technologies techMatches waf serverInfo);
          topScore = Max {pickConfidence (primaryCms primary), pickConfidence (primaryFrontend primary),
                          pickConfidence (primaryHosting primary), pickConfidence (primaryCdn primary)}
      in if topScore \<ge> 6 then ''high'' else if topScore \<ge> 3 then ''medium'' else ''low'')
   \<and> Max {pickConfidence (primaryCms (vPrimary (buildVerdict technologies techMatches waf serverInfo))),
          pickConfidence (primaryFrontend (vPrimary (buildVerdict technologies techMatches waf serverInfo))),
          pickConfidence (primaryHosting (vPrimary (buildVerdict technologies techMatches waf serverInfo))),
          pickConfidence (primaryCdn (vPrimary (buildVerdict technologies techMatches waf serverInfo)))}
     = Max (insert 0 {mConfidence m | key m.
                        (key, m) \<in> set techMatches \<and> mCategory m \<in> {Cms, Frontend, Hosting, Cdn}})"
proof -
  have m4: "Max {a, b, c, d} = max (max a b) (max c d)" for a b c d :: nat
    by (simp add: max.assoc)
  show ?thesis
    unfolding m4
    by (simp add: buildVerdict_def Let_def confidenceFromScore_def pickConfidence_pickTop Max_four_categories
             del: Max_insert)
qed


text \<open>
  Claim C2 as stated fails at a top score of 5: the primary cms pick has confidence 5 and the
  verdict is \<open>medium\<close>, while the WAF scorer calls its own score of 5 \<open>high\<close>.
\<close>

theorem verdict_confidence_tiers_counterexample:
  "pickConfidence (primaryCms (vPrimary (buildVerdict noTechnologies wordpressMatch5 Undetected unknownServer))) = 5
   \<and> vConfidence (buildVerdict noTechnologies wordpressMatch5 Undetected unknownServer) = ''medium''
   \<and> detectWAF cloudflareHeaders [''__cf_bm=xyz''] []
       = Some \<lparr>wafName = ''Cloudflare'', wafConfidence = ''high'', wafScoreValue = 5\<rparr>"
  by code_simp

text \<open>
  Claim C4, as the code has it. A provider scores 3 for every header name of its signature
  that the response has, 2 for every cookie prefix of its signature that some cookie starts
  with (however many cookies do), 2 when its server pattern matches the server header and 1
  when its body pattern matches a non-empty body. No provider is reported exactly when all
  score 0. A reported provider has a positive score that no provider exceeds, and every
  provider declared after it scores strictly less: among equal scores the last one wins.
\<close>

theorem waf_scorer_last_seen:
  "wafScore patterns headers cookies html =
      3 * card {i. i < length (wHeaders patterns) \<and> headers (toLowerCase (wHeaders patterns ! i)) \<noteq> None}
    + 2 * card {i. i < length (wCookies patterns)
                  \<and> (\<exists>cookie \<in> set cookies. startsWith (toLowerCase cookie) (toLowerCase (wCookies patterns ! i)))}
    + (if \<exists>re. wServer patterns = Some re \<and> test re (headerOrEmpty headers ''server'') then 2 else 0)
    + (if \<exists>re. wHtml patterns = Some re \<and> html \<noteq> [] \<and> test re html then 1 else 0)
   \<and> (detectWAF headers cookies html = None
        \<longleftrightarrow> (\<forall>(name, p) \<in> set WAF_PATTERNS. wafScore p headers cookies html = 0))
   \<and> (\<forall>w. detectWAF headers cookies html = Some w \<longrightarrow>
         (\<exists>pre name p post.
             WAF_PATTERNS = pre @ (name, p) # post
             \<and> wafName w = capitalize name
             \<and> wafScoreValue w = wafScore p headers cookies html
             \<and> 0 < wafScoreValue w
             \<and> (\<forall>(n, q) \<in> set pre. wafScore q headers cookies html \<le> wafScoreValue w)
             \<and> (\<forall>(n, q) \<in> set post. wafScore q headers cookies html < wafScoreValue w))
         \<and> wafConfidence w = (if wafScoreValue w \<ge> 5 then ''high''
                               else if wafScoreValue w \<ge> 3 then ''medium'' else ''low''))"
proof (intro conjI allI impI)
  show "wafScore patterns headers cookies html =
      3 * card {i. i < length (wHeaders patterns) \<and> headers (toLowerCase (wHeaders patterns ! i)) \<noteq> None}
    + 2 * card {i. i < length (wCookies patterns)
                  \<and> (\<exists>cookie \<in> set cookies. startsWith (toLowerCase cookie) (toLowerCase (wCookies patterns ! i)))}
    + (if \<exists>re. wServer patterns = Some re \<and> test re (headerOrEmpty headers ''server'') then 2 else 0)
    + (if \<exists>re. wHtml patterns = Some re \<and> html \<noteq> [] \<and> test re html then 1 else 0)"
    by (rule wafScore_counts)
  show "detectWAF headers cookies html = None
        \<longleftrightarrow> (\<forall>(name, p) \<in> set WAF_PATTERNS. wafScore p headers cookies html = 0)"
    unfolding detectWAF_def by (rule detectWAFWith_None_iff)
next
  fix w assume "detectWAF headers cookies html = Some w"
  then have w: "detectWAFWith WAF_PATTERNS headers cookies html = Some w" by (simp add: detectWAF_def)
  from detectWAFWith_winner [OF w]
  show "\<exists>pre name p post.
             WAF_PATTERNS = pre @ (name, p) # post
             \<and> wafName w = capitalize name
             \<and> wafScoreValue w = wafScore p headers cookies html
             \<and> 0 < wafScoreValue w
             \<and> (\<forall>(n, q) \<in> set pre. wafScore q headers cookies html \<le> wafScoreValue w)
             \<and> (\<forall>(n, q) \<in> set post. wafScore q headers cookies html < wafScoreValue w)" .
  from detectWAFWith_confidence [OF w]
  show "wafConfidence w = (if wafScoreValue w \<ge> 5 then ''high''
                               else if wafScoreValue w \<ge> 3 then ''medium'' else ''low'')" .
qed

text \<open>Witness for C4: a response with one Cloudflare header and one Imperva header.\<close>

theorem waf_scorer_last_seen_witness:
  "detectWAF tieHeaders [] [] = Some \<lparr>wafName = ''Imperva'', wafConfidence = ''medium'', wafScoreValue = 3\<rparr>
   \<and> (\<exists>pre name p post.
         WAF_PATTERNS = pre @ (name, p) # post
         \<and> ''Imperva'' = capitalize name
         \<and> 3 = wafScore p tieHeaders [] []
         \<and> list_all (\<lambda>(n, q). wafScore q tieHeaders [] [] \<le> 3) pre
         \<and> list_all (\<lambda>(n, q). wafScore q tieHeaders [] [] < 3) post)"
proof -
  have e: "detectWAF tieHeaders [] [] = Some \<lparr>wafName = ''Imperva'', wafConfidence = ''medium'', wafScoreValue = 3\<rparr>"
    by code_simp
  note spec = conjunct2 [OF conjunct2 [OF waf_scorer_last_seen [of undefined tieHeaders "[]" "[]"]]]
  note inst = conjunct1 [OF spec [rule_format, OF e]]
  from inst have "\<exists>pre name p post.
             WAF_PATTERNS = pre @ (name, p) # post
             \<and> ''Imperva'' = capitalize name
             \<and> 3 = wafScore p tieHeaders [] []
             \<and> 0 < (3::nat)
             \<and> (\<forall>(n, q) \<in> set pre. wafScore q tieHeaders [] [] \<le> 3)
             \<and> (\<forall>(n, q) \<in> set post. wafScore q tieHeaders [] [] < 3)"
    by (simp only: waf.select_convs)
  then obtain pre name p post where
    "WAF_PATTERNS = pre @ (name, p) # post \<and> ''Imperva'' = capitalize name
     \<and> 3 = wafScore p tieHeaders [] [] \<and> 0 < (3::nat)
     \<and> (\<forall>(n, q) \<in> set pre. wafScore q tieHeaders [] [] \<le> 3)
     \<and> (\<forall>(n, q) \<in> set post. wafScore q tieHeaders [] [] < 3)"
    by (elim exE)
  then have "WAF_PATTERNS = pre @ (name, p) # post
         \<and> ''Imperva'' = capitalize name
         \<and> 3 = wafScore p tieHeaders [] []
         \<and> list_all (\<lambda>(n, q). wafScore q tieHeaders [] [] \<le> 3) pre
         \<and> list_all (\<lambda>(n, q). wafScore q tieHeaders [] [] < 3) post"
    unfolding list_all_iff by (elim conjE, intro conjI)
  then have "\<exists>pre name p post. WAF_PATTERNS = pre @ (name, p) # post
         \<and> ''Imperva'' = capitalize name
         \<and> 3 = wafScore p tieHeaders [] []
         \<and> list_all (\<lambda>(n, q). wafScore q tieHeaders [] [] \<le> 3) pre
         \<and> list_all (\<lambda>(n, q). wafScore q tieHeaders [] [] < 3) post"
    by (intro exI)
  with e show ?thesis by (rule conjI)
qed

text \<open>
  Claim C4 as stated fails twice. Cloudflare, declared first, and Imperva both score 3 on
  \<open>tieHeaders\<close>, and Imperva is reported. Two cookies that start with the same Cloudflare
  prefix score 2, not 2 each.
\<close>

theorem waf_scorer_counterexample:
  "fst (WAF_PATTERNS ! 0) = ''cloudflare'' \<and> wafScore (snd (WAF_PATTERNS ! 0)) tieHeaders [] [] = 3
   \<and> fst (WAF_PATTERNS ! 2) = ''imperva'' \<and> wafScore (snd (WAF_PATTERNS ! 2)) tieHeaders [] [] = 3
   \<and> detectWAF tieHeaders [] [] = Some \<lparr>wafName = ''Imperva'', wafConfidence = ''medium'', wafScoreValue = 3\<rparr>
   \<and> wafScore (snd (WAF_PATTERNS ! 0)) Map.empty [''__cf_bm=a'', ''__cf_bm=b''] [] = 2"
  by code_simp

subsection \<open>The single CMS\<close>

lemma minConfidence_Cms: "minConfidence Cms = 3"
  by (simp add: minConfidence_def MIN_CONFIDENCE_BY_CATEGORY_def)

lemma cms_setTechnologies: "c \<noteq> Cms \<Longrightarrow> cms (setTechnologies c xs t) = cms t"
  by (cases c) (simp_all add: setTechnologies_def)

lemma cms_pushTechnology: "c \<noteq> Cms \<Longrightarrow> cms (pushTechnology c x t) = cms t"
  by (simp add: pushTechnology_def cms_setTechnologies)

lemma resolveTech_cms: "cms (sTechnologies (resolveTech techName e s)) = cms (sTechnologies s)"
  by (simp add: resolveTech_def Let_def cms_pushTechnology)

lemma resolveTech_candidates:
  "sCmsCandidates (resolveTech techName e s) =
     sCmsCandidates s
     @ (if getCategoryForTech techName = Cms \<and> eConfidence e \<ge> 3
        then [\<lparr>cKey = techName, cDisplayName = humanizeTechName techName,
               cConfidence = eConfidence e, cVersion = eVersion e\<rparr>]
        else [])"
  by (simp add: resolveTech_def Let_def minConfidence_Cms)

lemma scanFold_cms:
  "cms (sTechnologies (foldl (\<lambda>s (techName, patterns). resolveTech techName (scanTech techName patterns d html headers) s)
                             s0 corpus)) = cms (sTechnologies s0)"
  by (induction corpus arbitrary: s0) (auto simp: resolveTech_cms)

lemma scanFold_candidates:
  "sCmsCandidates (foldl (\<lambda>s (techName, patterns). resolveTech techName (scanTech techName patterns d html headers) s)
                         s0 corpus)
   = sCmsCandidates s0 @ clearingCmsCandidates corpus d html headers"
proof (induction corpus arbitrary: s0)
  case Nil
  show ?case by (simp add: clearingCmsCandidates_def)
next
  case (Cons a corpus)
  obtain techName patterns where a: "a = (techName, patterns)" by (cases a)
  show ?case
    unfolding a
    by (simp add: Cons.IH resolveTech_candidates clearingCmsCandidates_def)
qed

lemma scanCorpus_cms: "cms (sTechnologies (scanCorpus corpus d html headers)) = []"
  by (simp add: scanCorpus_def scanFold_cms noTechnologies_def)

lemma scanCorpus_candidates:
  "sCmsCandidates (scanCorpus corpus d html headers) = clearingCmsCandidates corpus d html headers"
  by (simp add: scanCorpus_def scanFold_candidates)

lemma analyzeWith_cms:
  "cms (aTechnologies (analyzeWith corpus cheerioLoad html headers)) =
     (case sortByConfidenceDesc cConfidence (clearingCmsCandidates corpus (cheerioLoad html) html headers) of
        [] \<Rightarrow> []
      | topCMS # others \<Rightarrow> [formatTechName (cDisplayName topCMS) (cVersion topCMS)])"
  by (simp add: analyzeWith_def Let_def resolveCms_def dedupTechnologies_def scanCorpus_candidates
                scanCorpus_cms deduplicateArray_def
           split: list.splits)

lemma analyzeWith_cms_length: "length (cms (aTechnologies (analyzeWith corpus cheerioLoad html headers))) \<le> 1"
  by (simp add: analyzeWith_cms split: list.splits)

lemma analyzeWith_cms_none:
  "clearingCmsCandidates corpus (cheerioLoad html) html headers = [] \<Longrightarrow>
   cms (aTechnologies (analyzeWith corpus cheerioLoad html headers)) = []"
  by (simp add: analyzeWith_cms sortByConfidenceDesc_def)

lemma analyzeWith_cms_winner:
  assumes "clearingCmsCandidates corpus (cheerioLoad html) html headers = pre @ c # post"
    and "\<forall>p \<in> set pre. cConfidence p < cConfidence c"
    and "\<forall>q \<in> set post. cConfidence q \<le> cConfidence c"
  shows "cms (aTechnologies (analyzeWith corpus cheerioLoad html headers))
         = [formatTechName (cDisplayName c) (cVersion c)]"
proof -
  from sortByConfidenceDesc_first_max [OF assms] obtain ys where
    "sortByConfidenceDesc cConfidence (clearingCmsCandidates corpus (cheerioLoad html) html headers) = c # ys"
    by blast
  then show ?thesis by (simp add: analyzeWith_cms)
qed

lemma mergeBrowserTech_other:
  "c \<noteq> Frontend \<Longrightarrow> getTechnologies c (fst (mergeBrowserTech tm tech)) = getTechnologies c (fst tm)"
  by (cases c) (auto simp: mergeBrowserTech_def Let_def getTechnologies_def split: option.splits)

lemma mergeFold_other:
  "c \<noteq> Frontend \<Longrightarrow> getTechnologies c (fst (foldl mergeBrowserTech tm techs)) = getTechnologies c (fst tm)"
  by (induction techs arbitrary: tm) (simp_all add: mergeBrowserTech_other)

lemma mergeFold_cms: "cms (fst (foldl mergeBrowserTech tm techs)) = cms (fst tm)"
  using mergeFold_other [of Cms tm techs] by (simp add: getTechnologies_def)

lemma dedup_analyzeWith_cms_length:
  "length (deduplicateArray (cms (aTechnologies (analyzeWith corpus cheerioLoad html headers)))) \<le> Suc 0"
  using deduplicateArray_length_le [of "cms (aTechnologies (analyzeWith corpus cheerioLoad html headers))"]
        analyzeWith_cms_length [of corpus cheerioLoad html headers]
  by simp

lemma rows_single_cms:
  "\<forall>r \<in> set (dataset (runScan use p cl reqs browse)) \<union> set (results (runScan use p cl reqs browse)).
     \<forall>t. rTechnologies r = Some t \<longrightarrow> length (cms t) \<le> 1"
proof (rule runScan_rows)
  show "\<forall>t. rTechnologies (failedResult url m now) = Some t \<longrightarrow> length (cms t) \<le> 1" for url m now
    by (simp add: failedResult_def)
  show "\<forall>t. rTechnologies (deduplicateResult (staticResult p cl url res)) = Some t \<longrightarrow> length (cms t) \<le> 1"
    for url res
    by (simp add: deduplicateResult_def staticResult_def Let_def dedupTechnologies_def
                  analyzeStaticResponse_def dedup_analyzeWith_cms_length)
  show "\<forall>t. rTechnologies (browserRow cl r url html headers win) = Some t \<longrightarrow> length (cms t) \<le> 1"
    for r url html headers win
    by (simp add: browserRow_def browserUpdate_def Let_def deduplicateResult_def dedupTechnologies_def
                  analyzeStaticResponse_def mergeFold_cms dedup_analyzeWith_cms_length)
qed

text \<open>
  Claim C1. For every document and header map the \<open>cms\<close> array of the static analysis has at
  most one entry. It is empty when no CMS technology clears the threshold 3; otherwise it
  holds the formatted name of the candidate whose confidence no candidate exceeds and that
  every candidate declared before it in the corpus stays strictly below: the highest score,
  ties broken by declaration order. The merge of the runtime detections in the browser pass
  leaves the array as the analysis of the rendered markup made it, and no technology map
  that reaches the dataset has more than one CMS.
\<close>

theorem cms_single_winner:
  "length (cms (aTechnologies (analyzeStaticResponse cheerioLoad html headers url))) \<le> 1
   \<and> (clearingCmsCandidates TECH_PATTERNS (cheerioLoad html) html headers = []
        \<longrightarrow> cms (aTechnologies (analyzeStaticResponse cheerioLoad html headers url)) = [])
   \<and> (\<forall>pre c post.
          clearingCmsCandidates TECH_PATTERNS (cheerioLoad html) html headers = pre @ c # post
          \<and> (\<forall>p \<in> set pre. cConfidence p < cConfidence c)
          \<and> (\<forall>q \<in> set post. cConfidence q \<le> cConfidence c)
          \<longrightarrow> cms (aTechnologies (analyzeStaticResponse cheerioLoad html headers url))
               = [formatTechName (cDisplayName c) (cVersion c)])
   \<and> (\<forall>win. cms (fst (foldl mergeBrowserTech
                           (aTechnologies (analyzeStaticResponse cheerioLoad html headers url),
                            aTechMatches (analyzeStaticResponse cheerioLoad html headers url))
                           (extractBrowserTechnologies win)))
             = cms (aTechnologies (analyzeStaticResponse cheerioLoad html headers url)))
   \<and> (\<forall>t \<in> set (emittedTechnologies (runScan usePlaywrightFallback shouldProbeApi cheerioLoad requests browse)).
          length (cms t) \<le> 1)"
proof (intro conjI allI impI ballI)
  show "length (cms (aTechnologies (analyzeStaticResponse cheerioLoad html headers url))) \<le> 1"
    using analyzeWith_cms_length [of TECH_PATTERNS cheerioLoad html headers]
    by (simp add: analyzeStaticResponse_def)
  show "cms (aTechnologies (analyzeStaticResponse cheerioLoad html headers url)) = []"
    if "clearingCmsCandidates TECH_PATTERNS (cheerioLoad html) html headers = []"
    using that by (simp add: analyzeStaticResponse_def analyzeWith_cms_none)
  show "cms (aTechnologies (analyzeStaticResponse cheerioLoad html headers url))
          = [formatTechName (cDisplayName c) (cVersion c)]"
    if "clearingCmsCandidates TECH_PATTERNS (cheerioLoad html) html headers = pre @ c # post
          \<and> (\<forall>p \<in> set pre. cConfidence p < cConfidence c)
          \<and> (\<forall>q \<in> set post. cConfidence q \<le> cConfidence c)" for pre c post
    unfolding analyzeStaticResponse_def
    using that by (intro analyzeWith_cms_winner [of _ _ _ _ pre c post]) simp_all
  show "cms (fst (foldl mergeBrowserTech
                           (aTechnologies (analyzeStaticResponse cheerioLoad html headers url),
                            aTechMatches (analyzeStaticResponse cheerioLoad html headers url))
                           (extractBrowserTechnologies win)))
             = cms (aTechnologies (analyzeStaticResponse cheerioLoad html headers url))" for win
    by (simp add: mergeFold_cms)
  show "length (cms t) \<le> 1"
    if "t \<in> set (emittedTechnologies (runScan usePlaywrightFallback shouldProbeApi cheerioLoad requests browse))"
    for t
  proof -
    from that obtain r where
      "r \<in> set (dataset (runScan usePlaywrightFallback shouldProbeApi cheerioLoad requests browse))"
      and "rTechnologies r = Some t"
      by (auto simp: emittedTechnologies_def split: option.splits)
    with rows_single_cms [of usePlaywrightFallback shouldProbeApi cheerioLoad requests browse]
    show ?thesis by blast
  qed
qed

text \<open>Witness for C1: WordPress and Drupal both reach confidence 4 on \<open>twoCmsBody\<close>, and
  WordPress, declared first, is the one kept.\<close>

theorem cms_single_winner_witness:
  "clearingCmsCandidates TECH_PATTERNS emptyDom twoCmsBody Map.empty
     = [\<lparr>cKey = ''wordpress'', cDisplayName = ''Wordpress'', cConfidence = 4, cVersion = None\<rparr>,
        \<lparr>cKey = ''drupal'', cDisplayName = ''Drupal'', cConfidence = 4, cVersion = None\<rparr>]
   \<and> cms (aTechnologies (analyzeStaticResponse (\<lambda>html. emptyDom) twoCmsBody Map.empty ''https://a.example''))
       = [''Wordpress'']"
proof -
  let ?wp = "\<lparr>cKey = ''wordpress'', cDisplayName = ''Wordpress'', cConfidence = 4, cVersion = None\<rparr>"
  let ?dr = "\<lparr>cKey = ''drupal'', cDisplayName = ''Drupal'', cConfidence = 4, cVersion = None\<rparr>"
  have c: "clearingCmsCandidates TECH_PATTERNS emptyDom twoCmsBody Map.empty = [?wp, ?dr]"
    by code_simp
  note spec = conjunct1 [OF conjunct2 [OF conjunct2
                [OF cms_single_winner [of "\<lambda>html. emptyDom" twoCmsBody Map.empty "''https://a.example''"]]]]
  have "clearingCmsCandidates TECH_PATTERNS emptyDom twoCmsBody Map.empty = [] @ ?wp # [?dr]
          \<and> (\<forall>p \<in> set []. cConfidence p < cConfidence ?wp)
          \<and> (\<forall>q \<in> set [?dr]. cConfidence q \<le> cConfidence ?wp)"
    using c by simp
  from spec [rule_format, OF this]
  have "cms (aTechnologies (analyzeStaticResponse (\<lambda>html. emptyDom) twoCmsBody Map.empty ''https://a.example''))
        = [formatTechName (cDisplayName ?wp) (cVersion ?wp)]" .
  then have "cms (aTechnologies (analyzeStaticResponse (\<lambda>html. emptyDom) twoCmsBody Map.empty ''https://a.example''))
        = [''Wordpress'']" by (simp add: formatTechName_def)
  with c show ?thesis by (rule conjI)
qed

subsection \<open>Runtime detections in the merge\<close>

lemma map_of_setMatch: "map_of (setMatch key v tm) k = (if k = key then Some v else map_of tm k)"
  by (induction tm) auto

lemma mergeBrowserTech_not_frontend:
  "mapBrowserTechToKey tech = Some key \<Longrightarrow> getCategoryForTech key \<noteq> Frontend \<Longrightarrow>
   fst (mergeBrowserTech tm tech) = fst tm"
  by (simp add: mergeBrowserTech_def Let_def)

lemma mergeBrowserTech_match:
  assumes "mapBrowserTechToKey tech = Some key"
  shows "\<exists>m. map_of (snd (mergeBrowserTech tm tech)) key = Some m
           \<and> mConfidence m = max (case map_of (snd tm) key of None \<Rightarrow> 0 | Some e \<Rightarrow> mConfidence e) 3"
  using assms
  by (cases "map_of (snd tm) key") (simp_all add: mergeBrowserTech_def Let_def map_of_setMatch)

lemma mergeBrowserTech_frontend:
  "frontend (fst (mergeBrowserTech tm tech)) = frontend (fst tm)
   \<or> (\<exists>key. mapBrowserTechToKey tech = Some key \<and> getCategoryForTech key = Frontend
         \<and> frontend (fst (mergeBrowserTech tm tech)) = frontend (fst tm) @ [humanizeTechName key])"
  by (cases "mapBrowserTechToKey tech") (auto simp: mergeBrowserTech_def Let_def formatTechName_def)

lemma dedupTechnologies_get:
  "getTechnologies c (dedupTechnologies t) = deduplicateArray (getTechnologies c t)"
  by (cases c) (simp_all add: getTechnologies_def dedupTechnologies_def)

lemma analyzeWith_deduped:
  "deduplicateArray (getTechnologies c (aTechnologies (analyzeWith corpus cl html headers)))
   = getTechnologies c (aTechnologies (analyzeWith corpus cl html headers))"
  by (simp add: analyzeWith_def Let_def dedupTechnologies_get deduplicateArray_idem)

lemma browserRow_other:
  assumes "c \<noteq> Frontend"
  shows "map_option (getTechnologies c) (rTechnologies (browserRow cl r url html headers win))
         = Some (getTechnologies c (aTechnologies (analyzeStaticResponse cl html headers url)))"
  using assms
  by (simp add: browserRow_def browserUpdate_def Let_def deduplicateResult_def dedupTechnologies_get
                mergeFold_other analyzeStaticResponse_def analyzeWith_deduped)

lemma mergeBrowserTech_other_key:
  "mapBrowserTechToKey tech \<noteq> Some key \<Longrightarrow>
   map_of (snd (mergeBrowserTech tm tech)) key = map_of (snd tm) key"
  by (cases "mapBrowserTechToKey tech") (auto simp: mergeBrowserTech_def Let_def map_of_setMatch)

lemma mergeBrowserTech_keeps:
  assumes "map_of (snd tm) key = Some m0" and "3 \<le> mConfidence m0"
  shows "\<exists>m. map_of (snd (mergeBrowserTech tm tech)) key = Some m \<and> mConfidence m = mConfidence m0"
proof (cases "mapBrowserTechToKey tech = Some key")
  case True
  from mergeBrowserTech_match [OF True, of tm] assms show ?thesis by (auto simp: max_def)
next
  case False
  with assms show ?thesis by (simp add: mergeBrowserTech_other_key)
qed

lemma mergeFold_keeps:
  assumes "map_of (snd tm) key = Some m0" and "3 \<le> mConfidence m0"
  shows "\<exists>m. map_of (snd (foldl mergeBrowserTech tm techs)) key = Some m \<and> mConfidence m = mConfidence m0"
  using assms
proof (induction techs arbitrary: tm m0)
  case Nil
  then show ?case by simp
next
  case (Cons t techs)
  from mergeBrowserTech_keeps [OF Cons.prems, of t] obtain m1
    where m1: "map_of (snd (mergeBrowserTech tm t)) key = Some m1" "mConfidence m1 = mConfidence m0"
    by blast
  with Cons.prems(2) have "3 \<le> mConfidence m1" by simp
  from Cons.IH [OF m1(1) this] m1(2) show ?case by simp
qed

lemma mergeFold_match:
  assumes "tech \<in> set techs" and "mapBrowserTechToKey tech = Some key"
  shows "\<exists>m. map_of (snd (foldl mergeBrowserTech tm techs)) key = Some m
           \<and> mConfidence m = max (case map_of (snd tm) key of None \<Rightarrow> 0 | Some e \<Rightarrow> mConfidence e) 3"
  using assms(1)
proof (induction techs arbitrary: tm)
  case Nil
  then show ?case by simp
next
  case (Cons t techs)
  show ?case
  proof (cases "mapBrowserTechToKey t = Some key")
    case True
    from mergeBrowserTech_match [OF True, of tm] obtain m1
      where m1: "map_of (snd (mergeBrowserTech tm t)) key = Some m1"
        and c1: "mConfidence m1 = max (case map_of (snd tm) key of None \<Rightarrow> 0 | Some e \<Rightarrow> mConfidence e) 3"
      by blast
    then have "3 \<le> mConfidence m1" by simp
    from mergeFold_keeps [OF m1 this, of techs] c1 show ?thesis by simp
  next
    case False
    with assms(2) Cons.prems have "tech \<in> set techs" by auto
    from Cons.IH [OF this, of "mergeBrowserTech tm t"] mergeBrowserTech_other_key [OF False, of tm]
    show ?thesis by simp
  qed
qed

lemma browserRow_details:
  "rDetectionDetails (browserRow cl r url html headers win)
   = Some (snd (foldl mergeBrowserTech
                  (aTechnologies (analyzeStaticResponse cl html headers url),
                   aTechMatches (analyzeStaticResponse cl html headers url))
                  (extractBrowserTechnologies win)))"
  by (simp add: browserRow_def browserUpdate_def deduplicateResult_def Let_def)

lemma browserRow_recorded:
  assumes "tech \<in> set (extractBrowserTechnologies win)" and "mapBrowserTechToKey tech = Some key"
  shows "\<exists>tm m. rDetectionDetails (browserRow cl r url html headers win) = Some tm
           \<and> map_of tm key = Some m
           \<and> mConfidence m = max (case map_of (aTechMatches (analyzeStaticResponse cl html headers url)) key of
                                     None \<Rightarrow> 0 | Some e \<Rightarrow> mConfidence e) 3"
  using mergeFold_match [OF assms, of "(aTechnologies (analyzeStaticResponse cl html headers url),
                   aTechMatches (analyzeStaticResponse cl html headers url))"]
  by (simp add: browserRow_details)

text \<open>
  Claim C10. In the merge of the browser pass, a runtime detection whose key is not of
  category frontend leaves every technology array as it was, and every detection with a key
  is recorded in the matches with confidence \<open>max(existing, 3)\<close>, 0 standing for no existing
  entry. So after the whole merge each array other than \<open>frontend\<close> is what it was before, and
  in the record that the browser pass writes these arrays are those of the static analysis of
  the rendered markup, whatever the window holds, while \<open>detectionDetails.matches\<close> of that
  record holds every detection of the window that has a key, with the confidence
  \<open>max(existing, 3)\<close> over the static analysis of the rendered markup. That record is what the
  handler writes over \<open>results[idx]\<close> and pushes to the dataset. jQuery, Lodash, Mixpanel,
  Sentry and Hotjar are such detections: their keys are of the categories libraries and
  analytics.
\<close>

theorem runtime_detection_frontend_only:
  "(\<forall>key. mapBrowserTechToKey tech = Some key \<longrightarrow>
       (getCategoryForTech key \<noteq> Frontend \<longrightarrow> fst (mergeBrowserTech tm tech) = fst tm)
       \<and> (\<exists>m. map_of (snd (mergeBrowserTech tm tech)) key = Some m
              \<and> mConfidence m = max (case map_of (snd tm) key of None \<Rightarrow> 0 | Some e \<Rightarrow> mConfidence e) 3))
   \<and> (\<forall>c. c \<noteq> Frontend \<longrightarrow>
          getTechnologies c (fst (foldl mergeBrowserTech tm techs)) = getTechnologies c (fst tm))
   \<and> (\<forall>c. c \<noteq> Frontend \<longrightarrow>
          map_option (getTechnologies c) (rTechnologies (browserRow cheerioLoad r url html headers win))
          = Some (getTechnologies c (aTechnologies (analyzeStaticResponse cheerioLoad html headers url))))
   \<and> map (\<lambda>name. map_option getCategoryForTech (mapBrowserTechToKey name))
          [''jQuery'', ''Lodash'', ''Mixpanel'', ''Sentry'', ''Hotjar'']
       = [Some Libraries, Some Libraries, Some Analytics, Some Analytics, Some Analytics]
   \<and> (\<forall>name \<in> set (extractBrowserTechnologies win). \<forall>key. mapBrowserTechToKey name = Some key \<longrightarrow>
         (\<exists>matches m. rDetectionDetails (browserRow cheerioLoad r url html headers win) = Some matches
            \<and> map_of matches key = Some m
            \<and> mConfidence m
                = max (case map_of (aTechMatches (analyzeStaticResponse cheerioLoad html headers url)) key of
                         None \<Rightarrow> 0 | Some e \<Rightarrow> mConfidence e) 3))
   \<and> (pageLoad page = Inr () \<and> pageContent page = Inr html \<and> pageWindow page = Inr win
        \<and> findIndex (\<lambda>r. rUrl r = url) (results st) = Some idx \<longrightarrow>
        results (playwrightHandler cheerioLoad st url (PageOpened page))
          = (results st)[idx := browserRow cheerioLoad (results st ! idx) url html (pageHeadersOrEmpty page) win]
        \<and> dataset (playwrightHandler cheerioLoad st url (PageOpened page))
          = pushData (pagePush page)
              (browserRow cheerioLoad (results st ! idx) url html (pageHeadersOrEmpty page) win) (dataset st))"
proof (intro conjI allI impI ballI)
  show "fst (mergeBrowserTech tm tech) = fst tm"
    if "mapBrowserTechToKey tech = Some key" "getCategoryForTech key \<noteq> Frontend" for key
    using that by (rule mergeBrowserTech_not_frontend)
  show "\<exists>m. map_of (snd (mergeBrowserTech tm tech)) key = Some m
              \<and> mConfidence m = max (case map_of (snd tm) key of None \<Rightarrow> 0 | Some e \<Rightarrow> mConfidence e) 3"
    if "mapBrowserTechToKey tech = Some key" for key
    using that by (rule mergeBrowserTech_match)
  show "getTechnologies c (fst (foldl mergeBrowserTech tm techs)) = getTechnologies c (fst tm)"
    if "c \<noteq> Frontend" for c
    using that by (rule mergeFold_other)
  show "map_option (getTechnologies c) (rTechnologies (browserRow cheerioLoad r url html headers win))
          = Some (getTechnologies c (aTechnologies (analyzeStaticResponse cheerioLoad html headers url)))"
    if "c \<noteq> Frontend" for c
    using that by (rule browserRow_other)
  show "map (\<lambda>name. map_option getCategoryForTech (mapBrowserTechToKey name))
          [''jQuery'', ''Lodash'', ''Mixpanel'', ''Sentry'', ''Hotjar'']
       = [Some Libraries, Some Libraries, Some Analytics, Some Analytics, Some Analytics]"
    by code_simp
  show "\<exists>matches m. rDetectionDetails (browserRow cheerioLoad r url html headers win) = Some matches
            \<and> map_of matches key = Some m
            \<and> mConfidence m
                = max (case map_of (aTechMatches (analyzeStaticResponse cheerioLoad html headers url)) key of
                         None \<Rightarrow> 0 | Some e \<Rightarrow> mConfidence e) 3"
    if "name \<in> set (extractBrowserTechnologies win)" "mapBrowserTechToKey name = Some key" for name key
    using that by (rule browserRow_recorded)
  assume p: "pageLoad page = Inr () \<and> pageContent page = Inr html \<and> pageWindow page = Inr win
        \<and> findIndex (\<lambda>r. rUrl r = url) (results st) = Some idx"
  then have eq: "playwrightHandler cheerioLoad st url (PageOpened page)
        = st\<lparr>results := (results st)[idx := browserRow cheerioLoad (results st ! idx) url html (pageHeadersOrEmpty page) win],
             dataset := pushData (pagePush page)
                          (browserRow cheerioLoad (results st ! idx) url html (pageHeadersOrEmpty page) win)
                          (dataset st)\<rparr>"
    by (intro playwrightHandler_rendered [of _ page "()"]) simp_all
  show "results (playwrightHandler cheerioLoad st url (PageOpened page))
          = (results st)[idx := browserRow cheerioLoad (results st ! idx) url html (pageHeadersOrEmpty page) win]"
    by (simp add: eq)
  show "dataset (playwrightHandler cheerioLoad st url (PageOpened page))
          = pushData (pagePush page)
              (browserRow cheerioLoad (results st ! idx) url html (pageHeadersOrEmpty page) win) (dataset st)"
    by (simp add: eq)
qed

text \<open>Witness for C10: jQuery found on the window of a page without static matches enters
  the matches with confidence 3 and no array, in the merge and in the rows of a run; React
  enters the frontend array.\<close>

theorem runtime_detection_frontend_only_witness:
  "mapBrowserTechToKey ''jQuery'' = Some ''jquery''
   \<and> getCategoryForTech ''jquery'' = Libraries
   \<and> fst (mergeBrowserTech (noTechnologies, []) ''jQuery'') = noTechnologies
   \<and> snd (mergeBrowserTech (noTechnologies, []) ''jQuery'')
       = [(''jquery'', \<lparr>mConfidence = 3, mVersion = None, mCategory = Libraries,
                        mDisplayName = ''jQuery'', mSources = [''window'']\<rparr>)]
   \<and> fst (mergeBrowserTech (noTechnologies, []) ''React'') = noTechnologies\<lparr>frontend := [''React'']\<rparr>
   \<and> ''jQuery'' \<in> set (extractBrowserTechnologies (\<lambda>prop. prop = ''jQuery''))
   \<and> (\<exists>matches m. rDetectionDetails (browserRow (\<lambda>html. emptyDom) blankRecord ''https://b.example'' [] Map.empty
                                         (\<lambda>prop. prop = ''jQuery'')) = Some matches
          \<and> map_of matches ''jquery'' = Some m \<and> mConfidence m = 3)
   \<and> map (\<lambda>r. (rDetectionMethod r, rTechnologies r, rDetectionDetails r))
         (dataset (runScan True False (\<lambda>html. emptyDom) [(''https://b.example'', Responded blankResponse)]
                     (\<lambda>url. PageOpened jqueryPage)))
       = [(Some Static, Some noTechnologies, Some []),
          (Some Browser, Some noTechnologies,
           Some [(''jquery'', \<lparr>mConfidence = 3, mVersion = None, mCategory = Libraries,
                                mDisplayName = ''jQuery'', mSources = [''window'']\<rparr>)])]"
proof -
  have k: "mapBrowserTechToKey ''jQuery'' = Some ''jquery''" by code_simp
  have c: "getCategoryForTech ''jquery'' = Libraries" by code_simp
  have s: "snd (mergeBrowserTech (noTechnologies, []) ''jQuery'')
       = [(''jquery'', \<lparr>mConfidence = 3, mVersion = None, mCategory = Libraries,
                        mDisplayName = ''jQuery'', mSources = [''window'']\<rparr>)]" by code_simp
  have r: "fst (mergeBrowserTech (noTechnologies, []) ''React'') = noTechnologies\<lparr>frontend := [''React'']\<rparr>"
    by code_simp
  have w: "''jQuery'' \<in> set (extractBrowserTechnologies (\<lambda>prop. prop = ''jQuery''))" by code_simp
  have e: "map_of (aTechMatches (analyzeStaticResponse (\<lambda>html. emptyDom) [] Map.empty ''https://b.example''))
             ''jquery'' = None"
    by code_simp
  have d: "map (\<lambda>r. (rDetectionMethod r, rTechnologies r, rDetectionDetails r))
         (dataset (runScan True False (\<lambda>html. emptyDom) [(''https://b.example'', Responded blankResponse)]
                     (\<lambda>url. PageOpened jqueryPage)))
       = [(Some Static, Some noTechnologies, Some []),
          (Some Browser, Some noTechnologies,
           Some [(''jquery'', \<lparr>mConfidence = 3, mVersion = None, mCategory = Libraries,
                                mDisplayName = ''jQuery'', mSources = [''window'']\<rparr>)])]"
    by code_simp
  note spec = runtime_detection_frontend_only
      [of "''jQuery''" "(noTechnologies, [])" "[]" "\<lambda>html. emptyDom" blankRecord "''https://b.example''" "[]" Map.empty
          "\<lambda>prop. prop = ''jQuery''"]
  from conjunct1 [OF spec, rule_format, OF k] c
  have f: "fst (mergeBrowserTech (noTechnologies, []) ''jQuery'') = noTechnologies" by simp
  from conjunct1 [OF conjunct2 [OF conjunct2 [OF conjunct2 [OF conjunct2 [OF spec]]]], rule_format, OF w k] e
  have m: "\<exists>matches m. rDetectionDetails (browserRow (\<lambda>html. emptyDom) blankRecord ''https://b.example'' [] Map.empty
                                         (\<lambda>prop. prop = ''jQuery'')) = Some matches
          \<and> map_of matches ''jquery'' = Some m \<and> mConfidence m = 3"
    by simp
  from k c f s r w m d show ?thesis by (intro conjI)
qed

subsection \<open>The static pass\<close>

lemma cheerioHandler_rows_eq:
  "results (cheerioHandler p cl st url ev) = results st @ staticRow p cl (url, ev)
   \<and> dataset (cheerioHandler p cl st url ev) = dataset st @ sinkRow p cl (url, ev)"
  by (cases ev)
     (simp_all add: cheerioHandler_def staticRow_def sinkRow_def Let_def pushData_def
               split: pushOutcome.splits)

lemma staticFold_rows:
  "results (foldl (\<lambda>st (url, ev). cheerioHandler p cl st url ev) st reqs)
     = results st @ concat (map (staticRow p cl) reqs)
   \<and> dataset (foldl (\<lambda>st (url, ev). cheerioHandler p cl st url ev) st reqs)
     = dataset st @ concat (map (sinkRow p cl) reqs)"
proof (induction reqs arbitrary: st)
  case Nil
  show ?case by simp
next
  case (Cons a reqs)
  obtain url ev where a: "a = (url, ev)" by (cases a)
  show ?case
    unfolding a using Cons.IH [of "cheerioHandler p cl st url ev"] cheerioHandler_rows_eq [of p cl st url ev]
    by simp
qed

lemma staticPass_results: "results (staticPass p cl reqs) = concat (map (staticRow p cl) reqs)"
  using staticFold_rows [of p cl initialState reqs] by (simp add: staticPass_def initialState_def)

lemma staticPass_dataset: "dataset (staticPass p cl reqs) = concat (map (sinkRow p cl) reqs)"
  using staticFold_rows [of p cl initialState reqs] by (simp add: staticPass_def initialState_def)

lemma staticRow_url: "r \<in> set (staticRow p cl req) \<Longrightarrow> rUrl r = fst req"
  by (cases "snd req")
     (auto simp: staticRow_def failedResult_def deduplicateResult_def staticResult_def Let_def)

lemma rowsFor_concat_rows:
  assumes "\<And>r req. r \<in> set (f req) \<Longrightarrow> rUrl r = fst req"
  shows "rowsFor url (concat (map f reqs)) = concat (map f (filter (\<lambda>req. fst req = url) reqs))"
proof (induction reqs)
  case Nil
  show ?case by (simp add: rowsFor_def)
next
  case (Cons a reqs)
  have "filter (\<lambda>r. rUrl r = url) (f a) = (if fst a = url then f a else [])"
    using assms [of _ a] by (auto simp: filter_empty_conv filter_id_conv)
  with Cons show ?case by (simp add: rowsFor_def)
qed

lemma sinkRow_url: "r \<in> set (sinkRow p cl req) \<Longrightarrow> rUrl r = fst req"
  by (cases "snd req")
     (auto simp: sinkRow_def failedResult_def deduplicateResult_def staticResult_def Let_def
                 pushData_def split: pushOutcome.splits)

lemma rowsFor_concat_staticRow:
  "rowsFor url (concat (map (staticRow p cl) reqs))
   = concat (map (staticRow p cl) (filter (\<lambda>req. fst req = url) reqs))"
  by (rule rowsFor_concat_rows) (rule staticRow_url)

lemma rowsFor_concat_sinkRow:
  "rowsFor url (concat (map (sinkRow p cl) reqs))
   = concat (map (sinkRow p cl) (filter (\<lambda>req. fst req = url) reqs))"
  by (rule rowsFor_concat_rows) (rule sinkRow_url)

lemma distinct_fst_filter:
  "distinct (map fst reqs) \<Longrightarrow> (url, ev) \<in> set reqs \<Longrightarrow> filter (\<lambda>req. fst req = url) reqs = [(url, ev)]"
proof (induction reqs)
  case Nil
  then show ?case by simp
next
  case (Cons a reqs)
  show ?case
  proof (cases "a = (url, ev)")
    case True
    with Cons.prems have "\<forall>req \<in> set reqs. fst req \<noteq> url" by force
    then have "filter (\<lambda>req. fst req = url) reqs = []" by (simp add: filter_empty_conv)
    with True show ?thesis by simp
  next
    case False
    with Cons.prems have mem: "(url, ev) \<in> set reqs" by simp
    then have "url \<in> fst ` set reqs" by force
    with Cons.prems have "fst a \<noteq> url" by auto
    with Cons.IH mem Cons.prems show ?thesis by simp
  qed
qed

lemma flat_pushTechnology: "flatTechnologies (pushTechnology c x t) \<noteq> []"
  by (cases c) (simp_all add: flatTechnologies_def pushTechnology_def setTechnologies_def
                              getTechnologies_def allCategories_def)

lemma setMatch_not_Nil: "setMatch key v tm \<noteq> []"
  by (cases tm) (auto split: if_splits)

lemma resolveTech_inv: "scanInv s \<Longrightarrow> scanInv (resolveTech techName e s)"
  by (auto simp: scanInv_def resolveTech_def Let_def flat_pushTechnology setMatch_not_Nil)

lemma scanFold_inv:
  "scanInv s0 \<Longrightarrow>
   scanInv (foldl (\<lambda>s (techName, patterns). resolveTech techName (scanTech techName patterns d html headers) s)
                  s0 corpus)"
  by (induction corpus arbitrary: s0) (auto simp: resolveTech_inv)

lemma scanCorpus_inv: "scanInv (scanCorpus corpus d html headers)"
  unfolding scanCorpus_def
  by (rule scanFold_inv)
     (simp add: scanInv_def flatTechnologies_def noTechnologies_def getTechnologies_def allCategories_def)

lemma flat_cms_update:
  "flatTechnologies (t\<lparr>cms := [x]\<rparr>) \<noteq> []"
  by (simp add: flatTechnologies_def getTechnologies_def allCategories_def)

lemma resolveCms_empty_iff:
  assumes "scanInv s"
  shows "sTechMatches (resolveCms s) = [] \<longleftrightarrow> flatTechnologies (sTechnologies (resolveCms s)) = []"
proof (cases "sortByConfidenceDesc cConfidence (sCmsCandidates s)")
  case Nil
  then have "sCmsCandidates s = []" by (simp add: sortByConfidenceDesc_Nil_iff)
  with assms Nil show ?thesis by (simp add: resolveCms_def scanInv_def)
next
  case (Cons c cs)
  then have "sCmsCandidates s \<noteq> []" using sortByConfidenceDesc_Nil_iff [of cConfidence "sCmsCandidates s"] by auto
  with assms have ne: "sTechMatches s \<noteq> []" by (auto simp: scanInv_def)
  with Cons show ?thesis
    by (simp add: resolveCms_def flat_cms_update setMatch_not_Nil split: option.splits)
qed

lemma flat_dedup_empty_iff: "flatTechnologies (dedupTechnologies t) = [] \<longleftrightarrow> flatTechnologies t = []"
  by (simp add: flatTechnologies_def dedupTechnologies_def getTechnologies_def allCategories_def
                deduplicateArray_Nil_iff)

lemma analyzeWith_empty_iff:
  "flatTechnologies (aTechnologies (analyzeWith corpus cl html headers)) = []
   \<longleftrightarrow> aTechMatches (analyzeWith corpus cl html headers) = []"
  using resolveCms_empty_iff [OF scanCorpus_inv, of corpus "cl html" html headers]
  by (simp add: analyzeWith_def Let_def flat_dedup_empty_iff)

subsection \<open>The browser pass\<close>

lemma browserUpdate_url: "rUrl (browserUpdate r h t s tm) = rUrl r"
  by (simp add: browserUpdate_def deduplicateResult_def Let_def)

lemma browserUpdate_method: "rDetectionMethod (browserUpdate r h t s tm) = Some Browser"
  by (simp add: browserUpdate_def deduplicateResult_def Let_def)

lemma browserRow_url: "rUrl (browserRow cl r url html h win) = rUrl r"
  by (simp add: browserRow_def Let_def browserUpdate_url)

lemma browserRow_method: "rDetectionMethod (browserRow cl r url html h win) = Some Browser"
  by (simp add: browserRow_def Let_def browserUpdate_method)

lemma filter_update_irrelevant:
  "i < length xs \<Longrightarrow> \<not> P (xs ! i) \<Longrightarrow> \<not> P y \<Longrightarrow> filter P (xs[i := y]) = filter P xs"
proof (induction xs arbitrary: i)
  case Nil
  then show ?case by simp
next
  case (Cons x xs)
  then show ?case by (cases i) simp_all
qed

lemma playwrightHandler_urls:
  "map rUrl (results (playwrightHandler cl st u ev)) = map rUrl (results st)"
proof -
  from playwrightHandler_cases [of cl st u ev]
  show ?thesis
  proof
    assume "playwrightHandler cl st u ev = st"
    then show ?thesis by simp
  next
    assume "\<exists>idx page html win.
        ev = PageOpened page \<and> pageContent page = Inr html \<and> pageWindow page = Inr win
        \<and> \<not> browserFailed ev
        \<and> findIndex (\<lambda>r. rUrl r = u) (results st) = Some idx
        \<and> playwrightHandler cl st u ev =
            st\<lparr>results := (results st)[idx := browserRow cl (results st ! idx) u html (pageHeadersOrEmpty page) win],
               dataset := pushData (pagePush page) (browserRow cl (results st ! idx) u html (pageHeadersOrEmpty page) win)
                            (dataset st)\<rparr>"
    then obtain idx page html win where
      fi: "findIndex (\<lambda>r. rUrl r = u) (results st) = Some idx"
      and eq: "playwrightHandler cl st u ev =
            st\<lparr>results := (results st)[idx := browserRow cl (results st ! idx) u html (pageHeadersOrEmpty page) win],
               dataset := pushData (pagePush page) (browserRow cl (results st ! idx) u html (pageHeadersOrEmpty page) win)
                            (dataset st)\<rparr>"
      by blast
    from findIndex_Some [OF fi] have "idx < length (results st)" by simp
    then have "(map rUrl (results st))[idx := rUrl (results st ! idx)] = map rUrl (results st)"
      by (simp add: list_update_same_conv)
    then show ?thesis by (simp add: eq map_update browserRow_url)
  qed
qed

lemma playwrightHandler_other:
  assumes "u \<noteq> url"
  shows "rowsFor url (results (playwrightHandler cl st u ev)) = rowsFor url (results st)
       \<and> rowsFor url (dataset (playwrightHandler cl st u ev)) = rowsFor url (dataset st)"
proof -
  from playwrightHandler_cases [of cl st u ev]
  show ?thesis
  proof
    assume "playwrightHandler cl st u ev = st"
    then show ?thesis by simp
  next
    assume "\<exists>idx page html win.
        ev = PageOpened page \<and> pageContent page = Inr html \<and> pageWindow page = Inr win
        \<and> \<not> browserFailed ev
        \<and> findIndex (\<lambda>r. rUrl r = u) (results st) = Some idx
        \<and> playwrightHandler cl st u ev =
            st\<lparr>results := (results st)[idx := browserRow cl (results st ! idx) u html (pageHeadersOrEmpty page) win],
               dataset := pushData (pagePush page) (browserRow cl (results st ! idx) u html (pageHeadersOrEmpty page) win)
                            (dataset st)\<rparr>"
    then obtain idx page html win where
      fi: "findIndex (\<lambda>r. rUrl r = u) (results st) = Some idx"
      and eq: "playwrightHandler cl st u ev =
            st\<lparr>results := (results st)[idx := browserRow cl (results st ! idx) u html (pageHeadersOrEmpty page) win],
               dataset := pushData (pagePush page) (browserRow cl (results st ! idx) u html (pageHeadersOrEmpty page) win)
                            (dataset st)\<rparr>"
      by blast
    from findIndex_Some [OF fi] have len: "idx < length (results st)" and at: "rUrl (results st ! idx) = u"
      by simp_all
    have "filter (\<lambda>r. rUrl r = url)
            ((results st)[idx := browserRow cl (results st ! idx) u html (pageHeadersOrEmpty page) win])
          = filter (\<lambda>r. rUrl r = url) (results st)"
      by (rule filter_update_irrelevant [OF len]) (use assms at in \<open>simp_all add: browserRow_url\<close>)
    with assms at show ?thesis
      by (cases "pagePush page") (simp_all add: eq rowsFor_def browserRow_url pushData_def)
  qed
qed

lemma browserPass_frame:
  assumes "url \<notin> set queue \<or> browserFailed (browse url)"
  shows "rowsFor url (results (browserPass cl browse queue st)) = rowsFor url (results st)
       \<and> rowsFor url (dataset (browserPass cl browse queue st)) = rowsFor url (dataset st)"
  using assms
proof (induction queue arbitrary: st)
  case Nil
  show ?case by (simp add: browserPass_def)
next
  case (Cons u queue)
  have step: "rowsFor url (results (playwrightHandler cl st u (browse u))) = rowsFor url (results st)
       \<and> rowsFor url (dataset (playwrightHandler cl st u (browse u))) = rowsFor url (dataset st)"
  proof (cases "u = url")
    case True
    with Cons.prems have "browserFailed (browse u)" by auto
    then show ?thesis by (simp add: playwrightHandler_failed)
  next
    case False
    then show ?thesis by (rule playwrightHandler_other)
  qed
  from Cons.prems have "url \<notin> set queue \<or> browserFailed (browse url)" by auto
  from Cons.IH [OF this, of "playwrightHandler cl st u (browse u)"] step
  show ?case by (simp add: browserPass_def)
qed

lemma browserPass_urls: "map rUrl (results (browserPass cl browse queue st)) = map rUrl (results st)"
  by (induction queue arbitrary: st) (simp_all add: browserPass_def playwrightHandler_urls)

lemma rowsFor_length_urls: "length (rowsFor url rs) = length (filter (\<lambda>u. u = url) (map rUrl rs))"
  by (simp add: rowsFor_def filter_map comp_def)

lemma not_browserFailed_page:
  assumes "\<not> browserFailed ev"
  obtains page u html win where "ev = PageOpened page" "pageLoad page = Inr u"
    "pageContent page = Inr html" "pageWindow page = Inr win"
proof (cases ev)
  case NavigationFailed
  with assms show ?thesis by simp
next
  case (PageOpened page)
  with assms have "\<not> isl (pageLoad page)" "\<not> isl (pageContent page)" "\<not> isl (pageWindow page)"
    by simp_all
  then obtain u html win where "pageLoad page = Inr u" "pageContent page = Inr html"
    "pageWindow page = Inr win"
    by (metis sum.collapse(2) sum.disc(1) sum.exhaust)
  with PageOpened that show ?thesis by blast
qed

lemma playwrightHandler_record:
  assumes "\<not> browserFailed ev" and "url \<in> rUrl ` set (results st)"
  shows "\<exists>R \<in> set (results (playwrightHandler cl st url ev)).
           rUrl R = url \<and> rDetectionMethod R = Some Browser"
proof -
  from assms(2) have "findIndex (\<lambda>r. rUrl r = url) (results st) \<noteq> None"
    by (auto simp: findIndex_None)
  then obtain idx where fi: "findIndex (\<lambda>r. rUrl r = url) (results st) = Some idx" by auto
  from assms(1) obtain page u html win where
    ev: "ev = PageOpened page" "pageLoad page = Inr u" "pageContent page = Inr html" "pageWindow page = Inr win"
    by (rule not_browserFailed_page)
  from findIndex_Some [OF fi] have at: "rUrl (results st ! idx) = url" and len: "idx < length (results st)"
    by simp_all
  define R where "R = browserRow cl (results st ! idx) url html (pageHeadersOrEmpty page) win"
  from playwrightHandler_rendered [OF ev fi, of cl]
  have "results (playwrightHandler cl st url ev) = (results st)[idx := R]" by (simp add: R_def)
  with len have "R \<in> set (results (playwrightHandler cl st url ev))"
    by (simp add: set_update_memI)
  moreover have "rUrl R = url" by (simp add: R_def browserRow_url at)
  moreover have "rDetectionMethod R = Some Browser" unfolding R_def by (rule browserRow_method)
  ultimately show ?thesis by blast
qed

lemma filter_update_first:
  "findIndex P xs = Some i \<Longrightarrow> P y \<Longrightarrow> filter P (xs[i := y]) = y # tl (filter P xs)"
proof (induction xs arbitrary: i)
  case Nil
  then show ?case by simp
next
  case (Cons x xs)
  show ?case
  proof (cases "P x")
    case True
    with Cons.prems show ?thesis by simp
  next
    case False
    with Cons.prems obtain k where k: "findIndex P xs = Some k" and i: "i = Suc k" by auto
    from Cons.IH [OF k Cons.prems(2)] False i show ?thesis by simp
  qed
qed

lemma playwrightHandler_success:
  assumes "\<not> browserFailed ev" and "url \<in> rUrl ` set (results st)"
  shows "\<exists>R. rUrl R = url \<and> rDetectionMethod R = Some Browser
            \<and> rowsFor url (results (playwrightHandler cl st url ev)) = R # tl (rowsFor url (results st))
            \<and> dataset (playwrightHandler cl st url ev)
                = (if browserRowRejected ev then dataset st else dataset st @ [R])"
proof -
  from assms(2) have "findIndex (\<lambda>r. rUrl r = url) (results st) \<noteq> None"
    by (auto simp: findIndex_None)
  then obtain idx where fi: "findIndex (\<lambda>r. rUrl r = url) (results st) = Some idx" by auto
  from assms(1) obtain page u html win where
    ev: "ev = PageOpened page" "pageLoad page = Inr u" "pageContent page = Inr html" "pageWindow page = Inr win"
    by (rule not_browserFailed_page)
  from findIndex_Some [OF fi] have at: "rUrl (results st ! idx) = url" by simp
  define R where "R = browserRow cl (results st ! idx) url html (pageHeadersOrEmpty page) win"
  have url: "rUrl R = url" by (simp add: R_def browserRow_url at)
  have browser: "rDetectionMethod R = Some Browser" unfolding R_def by (rule browserRow_method)
  from playwrightHandler_rendered [OF ev fi, of cl]
  have eq: "playwrightHandler cl st url ev
            = st\<lparr>results := (results st)[idx := R], dataset := pushData (pagePush page) R (dataset st)\<rparr>"
    by (simp add: R_def)
  have "rowsFor url (results (playwrightHandler cl st url ev)) = R # tl (rowsFor url (results st))"
    using filter_update_first [OF fi, of R] url by (simp add: eq rowsFor_def)
  moreover have "dataset (playwrightHandler cl st url ev)
                = (if browserRowRejected ev then dataset st else dataset st @ [R])"
    using eq unfolding ev(1) by (cases "pagePush page") (simp_all add: pushData_def)
  ultimately show ?thesis using url browser by blast
qed

lemma browserPass_split:
  "browserPass cl browse (q1 @ url # q2) st
   = browserPass cl browse q2 (playwrightHandler cl (browserPass cl browse q1 st) url (browse url))"
  by (simp add: browserPass_def)

lemma browserPass_mem: "rUrl ` set (results (browserPass cl browse queue st)) = rUrl ` set (results st)"
  by (metis browserPass_urls set_map)

lemma browserPass_success:
  assumes "url \<in> set queue" "distinct queue" "\<not> browserFailed (browse url)"
    and "url \<in> rUrl ` set (results st)"
  shows "\<exists>R. rUrl R = url \<and> rDetectionMethod R = Some Browser
            \<and> rowsFor url (results (browserPass cl browse queue st)) = R # tl (rowsFor url (results st))
            \<and> rowsFor url (dataset (browserPass cl browse queue st))
                = (if browserRowRejected (browse url) then rowsFor url (dataset st)
                   else rowsFor url (dataset st) @ [R])"
proof -
  from assms(1) obtain q1 q2 where q: "queue = q1 @ url # q2" by (auto simp: in_set_conv_decomp)
  with assms(2) have n1: "url \<notin> set q1" and n2: "url \<notin> set q2" by auto
  define st1 where "st1 = browserPass cl browse q1 st"
  define st2 where "st2 = playwrightHandler cl st1 url (browse url)"
  have split: "browserPass cl browse queue st = browserPass cl browse q2 st2"
    by (simp add: q browserPass_split st1_def st2_def)
  have r1: "rowsFor url (results st1) = rowsFor url (results st)"
    and d1: "rowsFor url (dataset st1) = rowsFor url (dataset st)"
    unfolding st1_def using browserPass_frame [of url q1 browse cl st] n1 by simp_all
  from assms(4) have mem: "url \<in> rUrl ` set (results st1)"
    unfolding st1_def by (simp add: browserPass_mem)
  from playwrightHandler_success [OF assms(3) mem, of cl] obtain R where
    R: "rUrl R = url" "rDetectionMethod R = Some Browser"
    and r2: "rowsFor url (results st2) = R # tl (rowsFor url (results st1))"
    and d2: "dataset st2 = (if browserRowRejected (browse url) then dataset st1 else dataset st1 @ [R])"
    unfolding st2_def by blast
  have r3: "rowsFor url (results (browserPass cl browse q2 st2)) = rowsFor url (results st2)"
    and d3: "rowsFor url (dataset (browserPass cl browse q2 st2)) = rowsFor url (dataset st2)"
    using browserPass_frame [of url q2 browse cl st2] n2 by simp_all
  have "rowsFor url (results (browserPass cl browse queue st)) = R # tl (rowsFor url (results st))"
    unfolding split r3 r2 r1 ..
  moreover have "rowsFor url (dataset (browserPass cl browse queue st))
                = (if browserRowRejected (browse url) then rowsFor url (dataset st)
                   else rowsFor url (dataset st) @ [R])"
    unfolding split d3 d2 using d1 R(1) by (simp add: rowsFor_def)
  ultimately show ?thesis using R by blast
qed

lemma browserPass_record:
  assumes "url \<in> set queue" "\<not> browserFailed (browse url)" "url \<in> rUrl ` set (results st)"
  shows "\<exists>R \<in> set (results (browserPass cl browse queue st)).
           rUrl R = url \<and> rDetectionMethod R = Some Browser"
proof -
  from split_list_last [OF assms(1)] obtain q1 q2 where q: "queue = q1 @ url # q2" and n2: "url \<notin> set q2"
    by blast
  define st1 where "st1 = browserPass cl browse q1 st"
  define st2 where "st2 = playwrightHandler cl st1 url (browse url)"
  have split: "browserPass cl browse queue st = browserPass cl browse q2 st2"
    by (simp add: q browserPass_split st1_def st2_def)
  from assms(3) have mem: "url \<in> rUrl ` set (results st1)"
    unfolding st1_def by (simp add: browserPass_mem)
  from playwrightHandler_success [OF assms(2) mem, of cl] obtain R where
    R: "rUrl R = url" "rDetectionMethod R = Some Browser"
    and r2: "rowsFor url (results st2) = R # tl (rowsFor url (results st1))"
    unfolding st2_def by blast
  have "rowsFor url (results (browserPass cl browse q2 st2)) = rowsFor url (results st2)"
    using browserPass_frame [of url q2 browse cl st2] n2 by simp
  with r2 have "R \<in> set (rowsFor url (results (browserPass cl browse q2 st2)))" by simp
  then have "R \<in> set (results (browserPass cl browse q2 st2))" by (simp add: rowsFor_def)
  with R show ?thesis unfolding split by blast
qed

lemma playwrightHandler_browser_records:
  assumes "\<forall>r \<in> set (results st). rDetectionMethod r = Some Browser \<longrightarrow> rUrl r \<in> Q \<and> \<not> browserFailed (browse (rUrl r))"
    and "u \<in> Q"
  shows "\<forall>r \<in> set (results (playwrightHandler cl st u (browse u))).
           rDetectionMethod r = Some Browser \<longrightarrow> rUrl r \<in> Q \<and> \<not> browserFailed (browse (rUrl r))"
proof -
  from playwrightHandler_cases [of cl st u "browse u"]
  show ?thesis
  proof
    assume "playwrightHandler cl st u (browse u) = st"
    with assms(1) show ?thesis by simp
  next
    assume "\<exists>idx page html win.
        browse u = PageOpened page \<and> pageContent page = Inr html \<and> pageWindow page = Inr win
        \<and> \<not> browserFailed (browse u)
        \<and> findIndex (\<lambda>r. rUrl r = u) (results st) = Some idx
        \<and> playwrightHandler cl st u (browse u) =
            st\<lparr>results := (results st)[idx := browserRow cl (results st ! idx) u html (pageHeadersOrEmpty page) win],
               dataset := pushData (pagePush page) (browserRow cl (results st ! idx) u html (pageHeadersOrEmpty page) win)
                            (dataset st)\<rparr>"
    then obtain idx page html win where nf: "\<not> browserFailed (browse u)"
      and fi: "findIndex (\<lambda>r. rUrl r = u) (results st) = Some idx"
      and eq: "results (playwrightHandler cl st u (browse u))
               = (results st)[idx := browserRow cl (results st ! idx) u html (pageHeadersOrEmpty page) win]"
      by force
    from findIndex_Some [OF fi] have at: "rUrl (results st ! idx) = u" by simp
    have new: "rUrl (browserRow cl (results st ! idx) u html (pageHeadersOrEmpty page) win) = u"
      by (simp add: browserRow_url at)
    show ?thesis
    proof
      fix r
      assume "r \<in> set (results (playwrightHandler cl st u (browse u)))"
      then have "r \<in> set (results st)
                 \<or> r = browserRow cl (results st ! idx) u html (pageHeadersOrEmpty page) win"
        unfolding eq using set_update_subset_insert [of "results st" idx] by blast
      with assms nf new
      show "rDetectionMethod r = Some Browser \<longrightarrow> rUrl r \<in> Q \<and> \<not> browserFailed (browse (rUrl r))"
        by auto
    qed
  qed
qed

lemma browserPass_browser_records:
  assumes "\<forall>r \<in> set (results st). rDetectionMethod r = Some Browser \<longrightarrow> rUrl r \<in> Q \<and> \<not> browserFailed (browse (rUrl r))"
    and "set queue \<subseteq> Q"
  shows "\<forall>r \<in> set (results (browserPass cl browse queue st)).
           rDetectionMethod r = Some Browser \<longrightarrow> rUrl r \<in> Q \<and> \<not> browserFailed (browse (rUrl r))"
  using assms
proof (induction queue arbitrary: st)
  case Nil
  then show ?case by (simp add: browserPass_def)
next
  case (Cons u queue)
  from Cons.prems(2) have u: "u \<in> Q" and rest: "set queue \<subseteq> Q" by simp_all
  from Cons.IH [OF playwrightHandler_browser_records [OF Cons.prems(1) u, of cl] rest]
  show ?case by (simp add: browserPass_def)
qed

subsection \<open>Which URLs are rendered\<close>

lemma spaUrls_iff:
  "url \<in> set (spaUrls rs) \<longleftrightarrow>
     (\<exists>r \<in> set rs. rUrl r = url \<and> rStatus r = Success
        \<and> (case rTechnologies r of None \<Rightarrow> [] | Some t \<Rightarrow> flatTechnologies t) = [])"
  by (auto simp: spaUrls_def)

lemma staticRow_spa:
  "(\<exists>r \<in> set (staticRow p cl (u, ev)). rUrl r = url \<and> rStatus r = Success
        \<and> (case rTechnologies r of None \<Rightarrow> [] | Some t \<Rightarrow> flatTechnologies t) = [])
   \<longleftrightarrow> u = url \<and> (\<exists>res. storedResponse ev = Some res
          \<and> flatTechnologies (aTechnologies (analyzeStaticResponse cl (resBody res) (resHeaders res) url)) = [])"
  by (cases ev)
     (auto simp: staticRow_def failedResult_def deduplicateResult_def staticResult_def Let_def
                 flat_dedup_empty_iff)

lemma renderQueue_iff:
  "url \<in> set (renderQueue use (staticPass p cl reqs)) \<longleftrightarrow>
     use \<and> (\<exists>ev res. (url, ev) \<in> set reqs \<and> storedResponse ev = Some res
              \<and> flatTechnologies (aTechnologies (analyzeStaticResponse cl (resBody res) (resHeaders res) url)) = [])"
proof -
  have "url \<in> set (spaUrls (concat (map (staticRow p cl) reqs))) \<longleftrightarrow>
        (\<exists>req \<in> set reqs. \<exists>r \<in> set (staticRow p cl req). rUrl r = url \<and> rStatus r = Success
        \<and> (case rTechnologies r of None \<Rightarrow> [] | Some t \<Rightarrow> flatTechnologies t) = [])"
    unfolding spaUrls_iff by auto
  also have "\<dots> \<longleftrightarrow> (\<exists>req \<in> set reqs. fst req = url \<and> (\<exists>res. storedResponse (snd req) = Some res
          \<and> flatTechnologies (aTechnologies (analyzeStaticResponse cl (resBody res) (resHeaders res) url)) = []))"
    using staticRow_spa [of p cl _ _ url] by (metis prod.collapse)
  also have "\<dots> \<longleftrightarrow> (\<exists>ev res. (url, ev) \<in> set reqs \<and> storedResponse ev = Some res
              \<and> flatTechnologies (aTechnologies (analyzeStaticResponse cl (resBody res) (resHeaders res) url)) = [])"
    by force
  finally show ?thesis by (simp add: renderQueue_def staticPass_results)
qed

lemma responded_unique:
  "distinct (map fst reqs) \<Longrightarrow> (url, ev) \<in> set reqs \<Longrightarrow> (url, ev') \<in> set reqs \<Longrightarrow> ev = ev'"
  by (metis distinct_fst_filter list.inject prod.inject)

lemma staticRow_not_browser: "r \<in> set (staticRow p cl req) \<Longrightarrow> rDetectionMethod r \<noteq> Some Browser"
  by (cases "snd req")
     (auto simp: staticRow_def failedResult_def deduplicateResult_def staticResult_def Let_def)

lemma staticPass_not_browser:
  "r \<in> set (results (staticPass p cl reqs)) \<Longrightarrow> rDetectionMethod r \<noteq> Some Browser"
  by (auto simp: staticPass_results dest: staticRow_not_browser)

lemma renderQueue_subset:
  "set (renderQueue use st) \<subseteq> rUrl ` set (results st)"
  by (cases use) (auto simp: renderQueue_def spaUrls_def)

text \<open>
  Claim C3. The run is the static pass followed by one run of the browser handler for each URL
  of \<open>renderQueue\<close>, in its order. A URL is in that queue if and only if the Playwright fallback
  is enabled and a run of the static handler for it stored a successful record that has no
  technology in any category. When the URLs of the batch are distinct, a URL whose static
  analysis has any match is not in the queue. The invocation shows in the records: a queued
  URL whose page operations succeed has, after the run, a record with detection method browser;
  every record with detection method browser belongs to a queued URL whose page operations
  succeeded; and the rows of a URL outside the queue, in the result list and in the dataset, are
  after the whole run what the static pass made them.
\<close>

theorem tier2_iff_static_empty:
  "(url \<in> set (renderQueue usePlaywrightFallback (staticPass shouldProbeApi cheerioLoad requests)) \<longleftrightarrow>
      usePlaywrightFallback
      \<and> (\<exists>ev res. (url, ev) \<in> set requests \<and> storedResponse ev = Some res
            \<and> flatTechnologies (aTechnologies (analyzeStaticResponse cheerioLoad (resBody res) (resHeaders res) url)) = []))
   \<and> (distinct (map fst requests) \<longrightarrow>
        (\<forall>ev res. (url, ev) \<in> set requests \<and> storedResponse ev = Some res
            \<and> aTechMatches (analyzeStaticResponse cheerioLoad (resBody res) (resHeaders res) url) \<noteq> []
          \<longrightarrow> url \<notin> set (renderQueue usePlaywrightFallback (staticPass shouldProbeApi cheerioLoad requests))))
   \<and> runScan usePlaywrightFallback shouldProbeApi cheerioLoad requests browse
       = foldl (\<lambda>st u. playwrightHandler cheerioLoad st u (browse u))
               (staticPass shouldProbeApi cheerioLoad requests)
               (renderQueue usePlaywrightFallback (staticPass shouldProbeApi cheerioLoad requests))
   \<and> (url \<in> set (renderQueue usePlaywrightFallback (staticPass shouldProbeApi cheerioLoad requests))
        \<and> \<not> browserFailed (browse url) \<longrightarrow>
        (\<exists>R \<in> set (results (runScan usePlaywrightFallback shouldProbeApi cheerioLoad requests browse)).
            rUrl R = url \<and> rDetectionMethod R = Some Browser))
   \<and> (\<forall>R \<in> set (results (runScan usePlaywrightFallback shouldProbeApi cheerioLoad requests browse)).
        rDetectionMethod R = Some Browser \<longrightarrow>
          rUrl R \<in> set (renderQueue usePlaywrightFallback (staticPass shouldProbeApi cheerioLoad requests))
          \<and> \<not> browserFailed (browse (rUrl R)))
   \<and> (url \<notin> set (renderQueue usePlaywrightFallback (staticPass shouldProbeApi cheerioLoad requests)) \<longrightarrow>
        rowsFor url (results (runScan usePlaywrightFallback shouldProbeApi cheerioLoad requests browse))
          = rowsFor url (results (staticPass shouldProbeApi cheerioLoad requests))
        \<and> rowsFor url (dataset (runScan usePlaywrightFallback shouldProbeApi cheerioLoad requests browse))
          = rowsFor url (dataset (staticPass shouldProbeApi cheerioLoad requests)))"
proof -
  define st where "st = staticPass shouldProbeApi cheerioLoad requests"
  define queue where "queue = renderQueue usePlaywrightFallback st"
  have run: "runScan usePlaywrightFallback shouldProbeApi cheerioLoad requests browse
             = browserPass cheerioLoad browse queue st"
    by (simp add: runScan_def Let_def st_def queue_def)
  have one: "url \<in> set queue \<longleftrightarrow>
      usePlaywrightFallback
      \<and> (\<exists>ev res. (url, ev) \<in> set requests \<and> storedResponse ev = Some res
            \<and> flatTechnologies (aTechnologies (analyzeStaticResponse cheerioLoad (resBody res) (resHeaders res) url)) = [])"
    unfolding queue_def st_def by (rule renderQueue_iff)
  have two: "url \<notin> set queue"
    if d: "distinct (map fst requests)"
      and r: "(url, ev) \<in> set requests \<and> storedResponse ev = Some res
            \<and> aTechMatches (analyzeStaticResponse cheerioLoad (resBody res) (resHeaders res) url) \<noteq> []"
    for ev res
  proof
    assume "url \<in> set queue"
    then obtain ev' res' where m: "(url, ev') \<in> set requests" and s: "storedResponse ev' = Some res'"
      and e: "flatTechnologies (aTechnologies (analyzeStaticResponse cheerioLoad (resBody res') (resHeaders res') url)) = []"
      unfolding one by blast
    from responded_unique [OF d m] r have "ev' = ev" by auto
    with s r have "res' = res" by simp
    with e r show False by (simp add: analyzeStaticResponse_def analyzeWith_empty_iff)
  qed
  have three: "browserPass cheerioLoad browse queue st
               = foldl (\<lambda>st u. playwrightHandler cheerioLoad st u (browse u)) st queue"
    by (simp add: browserPass_def)
  have four: "\<exists>R \<in> set (results (browserPass cheerioLoad browse queue st)).
                 rUrl R = url \<and> rDetectionMethod R = Some Browser"
    if "url \<in> set queue \<and> \<not> browserFailed (browse url)"
  proof -
    from that renderQueue_subset [of usePlaywrightFallback st]
    have "url \<in> rUrl ` set (results st)" unfolding queue_def by blast
    with that show ?thesis by (intro browserPass_record) simp_all
  qed
  have "\<forall>r \<in> set (results st). rDetectionMethod r = Some Browser \<longrightarrow>
          rUrl r \<in> set queue \<and> \<not> browserFailed (browse (rUrl r))"
    unfolding st_def using staticPass_not_browser by blast
  from browserPass_browser_records [OF this subset_refl, of cheerioLoad]
  have five: "\<forall>R \<in> set (results (browserPass cheerioLoad browse queue st)).
        rDetectionMethod R = Some Browser \<longrightarrow> rUrl R \<in> set queue \<and> \<not> browserFailed (browse (rUrl R))" .
  have six: "rowsFor url (results (browserPass cheerioLoad browse queue st)) = rowsFor url (results st)
        \<and> rowsFor url (dataset (browserPass cheerioLoad browse queue st)) = rowsFor url (dataset st)"
    if "url \<notin> set queue"
    using browserPass_frame [of url queue browse cheerioLoad st] that by simp
  from one two three four five six show ?thesis
    unfolding run st_def [symmetric] queue_def [symmetric] by blast
qed

text \<open>Witness for C3: of two URLs, the one with a Vercel header has a match and is not
  queued; the one with nothing is queued, its page renders, and its record becomes a browser
  record; nothing is queued when the fallback is off. A URL whose empty record was stored
  before the dataset rejected it has a success and a failed record, and is queued.\<close>

theorem tier2_iff_static_empty_witness:
  "renderQueue True (staticPass False (\<lambda>html. emptyDom) twoRequests) = [''https://b.example'']
   \<and> renderQueue False (staticPass False (\<lambda>html. emptyDom) twoRequests) = []
   \<and> aTechMatches (analyzeStaticResponse (\<lambda>html. emptyDom) (resBody vercelResponse) (resHeaders vercelResponse)
                      ''https://a.example'') \<noteq> []
   \<and> ''https://a.example'' \<notin> set (renderQueue True (staticPass False (\<lambda>html. emptyDom) twoRequests))
   \<and> \<not> browserFailed (PageOpened blankPage)
   \<and> (\<exists>R \<in> set (results (runScan True False (\<lambda>html. emptyDom) twoRequests (\<lambda>url. PageOpened blankPage))).
         rUrl R = ''https://b.example'' \<and> rDetectionMethod R = Some Browser)
   \<and> map (\<lambda>r. (rUrl r, rDetectionMethod r))
         (results (runScan True False (\<lambda>html. emptyDom) twoRequests (\<lambda>url. PageOpened blankPage)))
       = [(''https://a.example'', Some Static), (''https://b.example'', Some Browser)]
   \<and> rowsFor ''https://a.example''
        (results (runScan True False (\<lambda>html. emptyDom) twoRequests (\<lambda>url. PageOpened blankPage)))
       = rowsFor ''https://a.example'' (results (staticPass False (\<lambda>html. emptyDom) twoRequests))
   \<and> map (\<lambda>r. (rUrl r, rStatus r)) (results (staticPass False (\<lambda>html. emptyDom) rejectedRequests))
       = [(''https://c.example'', Success), (''https://c.example'', Failed)]
   \<and> map (\<lambda>r. (rUrl r, rStatus r)) (dataset (staticPass False (\<lambda>html. emptyDom) rejectedRequests))
       = [(''https://c.example'', Failed)]
   \<and> ''https://c.example'' \<in> set (renderQueue True (staticPass False (\<lambda>html. emptyDom) rejectedRequests))"
proof -
  have v: "map (\<lambda>r. (rUrl r, rStatus r)) (results (staticPass False (\<lambda>html. emptyDom) rejectedRequests))
       = [(''https://c.example'', Success), (''https://c.example'', Failed)]"
    by code_simp
  have v': "map (\<lambda>r. (rUrl r, rStatus r)) (dataset (staticPass False (\<lambda>html. emptyDom) rejectedRequests))
       = [(''https://c.example'', Failed)]"
    by code_simp
  have x: "(''https://c.example'',
            SinkRejected blankResponse ''Dataset quota exceeded'' ''2024-12-11T10:30:01.000Z'' Appended)
             \<in> set rejectedRequests
           \<and> storedResponse
                (SinkRejected blankResponse ''Dataset quota exceeded'' ''2024-12-11T10:30:01.000Z'' Appended)
               = Some blankResponse
           \<and> flatTechnologies (aTechnologies (analyzeStaticResponse (\<lambda>html. emptyDom) (resBody blankResponse)
                                                (resHeaders blankResponse) ''https://c.example'')) = []"
  proof (intro conjI)
    show "flatTechnologies (aTechnologies (analyzeStaticResponse (\<lambda>html. emptyDom) (resBody blankResponse)
                                                (resHeaders blankResponse) ''https://c.example'')) = []"
      by code_simp
  qed (simp_all add: rejectedRequests_def)
  from conjunct1 [OF tier2_iff_static_empty [of "''https://c.example''" True False "\<lambda>html. emptyDom"
                                                rejectedRequests "\<lambda>url. NavigationFailed"]] x
  have y: "''https://c.example'' \<in> set (renderQueue True (staticPass False (\<lambda>html. emptyDom) rejectedRequests))"
    by blast
  have q: "renderQueue True (staticPass False (\<lambda>html. emptyDom) twoRequests) = [''https://b.example'']"
    by code_simp
  have q': "renderQueue False (staticPass False (\<lambda>html. emptyDom) twoRequests) = []"
    by code_simp
  have m: "aTechMatches (analyzeStaticResponse (\<lambda>html. emptyDom) (resBody vercelResponse) (resHeaders vercelResponse)
                      ''https://a.example'') \<noteq> []"
    by code_simp
  have d: "distinct (map fst twoRequests)" by code_simp
  have i: "(''https://a.example'', Responded vercelResponse) \<in> set twoRequests
           \<and> storedResponse (Responded vercelResponse) = Some vercelResponse"
    by (simp add: twoRequests_def)
  have f: "\<not> browserFailed (PageOpened blankPage)" by (simp add: blankPage_def)
  have l: "map (\<lambda>r. (rUrl r, rDetectionMethod r))
         (results (runScan True False (\<lambda>html. emptyDom) twoRequests (\<lambda>url. PageOpened blankPage)))
       = [(''https://a.example'', Some Static), (''https://b.example'', Some Browser)]"
    by code_simp
  note a = tier2_iff_static_empty [of "''https://a.example''" True False "\<lambda>html. emptyDom" twoRequests
                                      "\<lambda>url. PageOpened blankPage"]
  note b = tier2_iff_static_empty [of "''https://b.example''" True False "\<lambda>html. emptyDom" twoRequests
                                      "\<lambda>url. PageOpened blankPage"]
  from conjunct1 [OF conjunct2 [OF a], rule_format, OF d, of "Responded vercelResponse" vercelResponse] i m
  have n: "''https://a.example'' \<notin> set (renderQueue True (staticPass False (\<lambda>html. emptyDom) twoRequests))"
    by blast
  from conjunct2 [OF conjunct2 [OF conjunct2 [OF conjunct2 [OF conjunct2 [OF a]]]], rule_format, OF n]
  have r: "rowsFor ''https://a.example''
        (results (runScan True False (\<lambda>html. emptyDom) twoRequests (\<lambda>url. PageOpened blankPage)))
       = rowsFor ''https://a.example'' (results (staticPass False (\<lambda>html. emptyDom) twoRequests))"
    by blast
  from conjunct1 [OF conjunct2 [OF conjunct2 [OF conjunct2 [OF b]]], rule_format] q f
  have e: "\<exists>R \<in> set (results (runScan True False (\<lambda>html. emptyDom) twoRequests (\<lambda>url. PageOpened blankPage))).
         rUrl R = ''https://b.example'' \<and> rDetectionMethod R = Some Browser"
    by simp
  from q q' m n f e l r v v' y show ?thesis by (intro conjI)
qed

subsection \<open>A failed browser pass\<close>

lemma dedupTechnologies_idem: "dedupTechnologies (dedupTechnologies t) = dedupTechnologies t"
  by (simp add: dedupTechnologies_def deduplicateArray_idem)

lemma analyzeStaticResponse_deduped:
  "dedupTechnologies (aTechnologies (analyzeStaticResponse cl html headers url))
   = aTechnologies (analyzeStaticResponse cl html headers url)"
  by (simp add: analyzeStaticResponse_def analyzeWith_def Let_def dedupTechnologies_idem)

lemma buildVerdict_deduped:
  "(buildVerdict t tm w s)\<lparr>vInferred :=
      \<lparr>languages = deduplicateArray (languages (vInferred (buildVerdict t tm w s))),
       databases = deduplicateArray (databases (vInferred (buildVerdict t tm w s)))\<rparr>\<rparr>
   = buildVerdict t tm w s"
  by (simp add: buildVerdict_def Let_def deduplicateArray_idem)

lemma staticRecord_fields:
  "rUrl (deduplicateResult (staticResult p cl url res)) = url
   \<and> rStatus (deduplicateResult (staticResult p cl url res)) = Success
   \<and> rDetectionMethod (deduplicateResult (staticResult p cl url res)) = Some Static
   \<and> rTechnologies (deduplicateResult (staticResult p cl url res))
       = Some (aTechnologies (analyzeStaticResponse cl (resBody res) (resHeaders res) url))
   \<and> rVerdict (deduplicateResult (staticResult p cl url res)) = rVerdict (staticResult p cl url res)
   \<and> rMetadata (deduplicateResult (staticResult p cl url res)) = rMetadata (staticResult p cl url res)"
  by (simp add: deduplicateResult_def staticResult_def Let_def analyzeStaticResponse_deduped
                buildVerdict_deduped)

lemma staticPass_rowsFor:
  assumes "distinct (map fst reqs)" "(url, ev) \<in> set reqs"
  shows "rowsFor url (results (staticPass p cl reqs)) = staticRow p cl (url, ev)"
    and "rowsFor url (dataset (staticPass p cl reqs)) = sinkRow p cl (url, ev)"
  using distinct_fst_filter [OF assms]
  by (simp_all add: staticPass_results staticPass_dataset rowsFor_concat_staticRow
                    rowsFor_concat_sinkRow)

text \<open>
  Claim C6. When the browser pass fails for a URL -- navigation fails, or \<open>waitForLoadState\<close>,
  \<open>content\<close> or the evaluation of the window checks throws -- the handler leaves the state as
  it was, and after the whole run the rows of that URL in the result list and in the dataset
  are those of the static pass. For a URL that the static pass answered (the URLs of the
  batch being distinct) that row is the static record: its status is success, its detection
  method static, and its technologies, verdict and metadata are those of the static analysis.
\<close>

theorem browser_failure_keeps_static_record:
  "browserFailed (browse url) \<longrightarrow>
     playwrightHandler cheerioLoad st url (browse url) = st
     \<and> rowsFor url (results (runScan usePlaywrightFallback shouldProbeApi cheerioLoad requests browse))
         = rowsFor url (results (staticPass shouldProbeApi cheerioLoad requests))
     \<and> rowsFor url (dataset (runScan usePlaywrightFallback shouldProbeApi cheerioLoad requests browse))
         = rowsFor url (dataset (staticPass shouldProbeApi cheerioLoad requests))
     \<and> (\<forall>res. distinct (map fst requests) \<and> (url, Responded res) \<in> set requests \<longrightarrow>
           rowsFor url (results (runScan usePlaywrightFallback shouldProbeApi cheerioLoad requests browse))
             = [deduplicateResult (staticResult shouldProbeApi cheerioLoad url res)]
           \<and> rStatus (deduplicateResult (staticResult shouldProbeApi cheerioLoad url res)) = Success
           \<and> rDetectionMethod (deduplicateResult (staticResult shouldProbeApi cheerioLoad url res)) = Some Static
           \<and> rTechnologies (deduplicateResult (staticResult shouldProbeApi cheerioLoad url res))
               = Some (aTechnologies (analyzeStaticResponse cheerioLoad (resBody res) (resHeaders res) url))
           \<and> rVerdict (deduplicateResult (staticResult shouldProbeApi cheerioLoad url res))
               = rVerdict (staticResult shouldProbeApi cheerioLoad url res)
           \<and> rMetadata (deduplicateResult (staticResult shouldProbeApi cheerioLoad url res))
               = rMetadata (staticResult shouldProbeApi cheerioLoad url res))"
proof
  assume f: "browserFailed (browse url)"
  have h: "playwrightHandler cheerioLoad st url (browse url) = st"
    using f by (rule playwrightHandler_failed)
  from browserPass_frame [of url _ browse cheerioLoad "staticPass shouldProbeApi cheerioLoad requests"] f
  have r: "rowsFor url (results (runScan usePlaywrightFallback shouldProbeApi cheerioLoad requests browse))
         = rowsFor url (results (staticPass shouldProbeApi cheerioLoad requests))"
    and d: "rowsFor url (dataset (runScan usePlaywrightFallback shouldProbeApi cheerioLoad requests browse))
         = rowsFor url (dataset (staticPass shouldProbeApi cheerioLoad requests))"
    by (simp_all add: runScan_def Let_def)
  have s: "rowsFor url (results (runScan usePlaywrightFallback shouldProbeApi cheerioLoad requests browse))
             = [deduplicateResult (staticResult shouldProbeApi cheerioLoad url res)]"
    if "distinct (map fst requests) \<and> (url, Responded res) \<in> set requests" for res
    using that staticPass_rowsFor(1) [of requests url "Responded res" shouldProbeApi cheerioLoad]
    by (simp add: r staticRow_def)
  from h r d s staticRecord_fields [of shouldProbeApi cheerioLoad url]
  show "playwrightHandler cheerioLoad st url (browse url) = st
     \<and> rowsFor url (results (runScan usePlaywrightFallback shouldProbeApi cheerioLoad requests browse))
         = rowsFor url (results (staticPass shouldProbeApi cheerioLoad requests))
     \<and> rowsFor url (dataset (runScan usePlaywrightFallback shouldProbeApi cheerioLoad requests browse))
         = rowsFor url (dataset (staticPass shouldProbeApi cheerioLoad requests))
     \<and> (\<forall>res. distinct (map fst requests) \<and> (url, Responded res) \<in> set requests \<longrightarrow>
           rowsFor url (results (runScan usePlaywrightFallback shouldProbeApi cheerioLoad requests browse))
             = [deduplicateResult (staticResult shouldProbeApi cheerioLoad url res)]
           \<and> rStatus (deduplicateResult (staticResult shouldProbeApi cheerioLoad url res)) = Success
           \<and> rDetectionMethod (deduplicateResult (staticResult shouldProbeApi cheerioLoad url res)) = Some Static
           \<and> rTechnologies (deduplicateResult (staticResult shouldProbeApi cheerioLoad url res))
               = Some (aTechnologies (analyzeStaticResponse cheerioLoad (resBody res) (resHeaders res) url))
           \<and> rVerdict (deduplicateResult (staticResult shouldProbeApi cheerioLoad url res))
               = rVerdict (staticResult shouldProbeApi cheerioLoad url res)
           \<and> rMetadata (deduplicateResult (staticResult shouldProbeApi cheerioLoad url res))
               = rMetadata (staticResult shouldProbeApi cheerioLoad url res))"
    by blast
qed

text \<open>Witness for C6: the URL without matches is queued for rendering, its page throws on
  \<open>content\<close>, and its record stays the static one.\<close>

theorem browser_failure_keeps_static_record_witness:
  "browserFailed (PageOpened crashingPage)
   \<and> ''https://b.example'' \<in> set (renderQueue True (staticPass False (\<lambda>html. emptyDom) twoRequests))
   \<and> rowsFor ''https://b.example''
        (results (runScan True False (\<lambda>html. emptyDom) twoRequests (\<lambda>url. PageOpened crashingPage)))
       = [deduplicateResult (staticResult False (\<lambda>html. emptyDom) ''https://b.example'' blankResponse)]
   \<and> rDetectionMethod (deduplicateResult (staticResult False (\<lambda>html. emptyDom) ''https://b.example'' blankResponse))
       = Some Static"
proof -
  have f: "browserFailed (PageOpened crashingPage)" by (simp add: crashingPage_def)
  have q: "''https://b.example'' \<in> set (renderQueue True (staticPass False (\<lambda>html. emptyDom) twoRequests))"
    by code_simp
  have d: "distinct (map fst twoRequests) \<and> (''https://b.example'', Responded blankResponse) \<in> set twoRequests"
    by (simp add: twoRequests_def)
  note spec = browser_failure_keeps_static_record
      [of "\<lambda>url. PageOpened crashingPage" "''https://b.example''" "\<lambda>html. emptyDom" initialState
          True False twoRequests, rule_format, OF f]
  note last = conjunct2 [OF conjunct2 [OF conjunct2 [OF spec]], rule_format, OF d]
  from f q conjunct1 [OF last] conjunct1 [OF conjunct2 [OF conjunct2 [OF last]]]
  show ?thesis by (intro conjI)
qed

subsection \<open>The rows of the dataset\<close>

lemma spaUrls_append: "spaUrls (xs @ ys) = spaUrls xs @ spaUrls ys"
  by (simp add: spaUrls_def)

lemma staticRow_spaUrls: "spaUrls (staticRow p cl req) = [] \<or> spaUrls (staticRow p cl req) = [fst req]"
  by (cases "snd req")
     (simp_all add: spaUrls_def staticRow_def failedResult_def deduplicateResult_def staticResult_def
                    Let_def)

lemma spaUrls_static_subset: "set (spaUrls (concat (map (staticRow p cl) reqs))) \<subseteq> fst ` set reqs"
proof (induction reqs)
  case Nil
  show ?case by (simp add: spaUrls_def)
next
  case (Cons a reqs)
  from staticRow_spaUrls [of p cl a] Cons show ?case
    by (auto simp: spaUrls_append)
qed

lemma spaUrls_static_distinct:
  "distinct (map fst reqs) \<Longrightarrow> distinct (spaUrls (concat (map (staticRow p cl) reqs)))"
proof (induction reqs)
  case Nil
  show ?case by (simp add: spaUrls_def)
next
  case (Cons a reqs)
  from Cons.prems have "fst a \<notin> fst ` set reqs" and "distinct (map fst reqs)" by simp_all
  with Cons.IH spaUrls_static_subset [of p cl reqs] staticRow_spaUrls [of p cl a]
  show ?case by (auto simp: spaUrls_append)
qed

lemma renderQueue_distinct:
  "distinct (map fst reqs) \<Longrightarrow> distinct (renderQueue use (staticPass p cl reqs))"
  by (simp add: renderQueue_def staticPass_results spaUrls_static_distinct)

lemma pushesAccepted_rows:
  "pushesAccepted ev \<Longrightarrow>
     length (staticRow p cl (url, ev)) = 1 \<and> sinkRow p cl (url, ev) = staticRow p cl (url, ev)"
  by (cases ev) (simp_all add: staticRow_def sinkRow_def pushData_def)

text \<open>
  Claim C7, as the code has it. Take a batch of distinct URLs and a request of it. After the
  static pass the result list holds for its URL the records that the handler stored, and the
  dataset the rows that the handler got into it. When the handler ran and the dataset accepted
  what it pushed, there is exactly one such record, and it is the one row: the static pass
  pushes it at once. After the run the result list still holds exactly one record for the
  URL. When the URL is queued for rendering and the page operations succeed, that record is
  the updated record with detection method browser, and the dataset holds two rows for the
  URL, the static row and after it the updated record -- unless the dataset rejects the second
  row, which leaves the static row alone. When the URL is not queued, or the browser pass
  fails for it, the result list and the dataset hold the static record only.
\<close>

theorem sink_rows_of_handled_url:
  "distinct (map fst requests) \<and> (url, ev) \<in> set requests \<longrightarrow>
     rowsFor url (results (staticPass shouldProbeApi cheerioLoad requests))
       = staticRow shouldProbeApi cheerioLoad (url, ev)
     \<and> rowsFor url (dataset (staticPass shouldProbeApi cheerioLoad requests))
         = sinkRow shouldProbeApi cheerioLoad (url, ev)
     \<and> (pushesAccepted ev \<longrightarrow>
          length (staticRow shouldProbeApi cheerioLoad (url, ev)) = 1
          \<and> sinkRow shouldProbeApi cheerioLoad (url, ev) = staticRow shouldProbeApi cheerioLoad (url, ev)
          \<and> length (rowsFor url (results (runScan usePlaywrightFallback shouldProbeApi cheerioLoad requests browse))) = 1
          \<and> (url \<in> set (renderQueue usePlaywrightFallback (staticPass shouldProbeApi cheerioLoad requests))
               \<and> \<not> browserFailed (browse url) \<longrightarrow>
               (\<exists>R. rUrl R = url \<and> rDetectionMethod R = Some Browser
                  \<and> rowsFor url (results (runScan usePlaywrightFallback shouldProbeApi cheerioLoad requests browse))
                      = [R]
                  \<and> rowsFor url (dataset (runScan usePlaywrightFallback shouldProbeApi cheerioLoad requests browse))
                      = (if browserRowRejected (browse url) then staticRow shouldProbeApi cheerioLoad (url, ev)
                         else staticRow shouldProbeApi cheerioLoad (url, ev) @ [R])))
          \<and> (url \<notin> set (renderQueue usePlaywrightFallback (staticPass shouldProbeApi cheerioLoad requests))
               \<or> browserFailed (browse url) \<longrightarrow>
               rowsFor url (results (runScan usePlaywrightFallback shouldProbeApi cheerioLoad requests browse))
                 = staticRow shouldProbeApi cheerioLoad (url, ev)
               \<and> rowsFor url (dataset (runScan usePlaywrightFallback shouldProbeApi cheerioLoad requests browse))
                 = staticRow shouldProbeApi cheerioLoad (url, ev)))"
proof
  assume a: "distinct (map fst requests) \<and> (url, ev) \<in> set requests"
  then have dist: "distinct (map fst requests)" and mem: "(url, ev) \<in> set requests" by simp_all
  define st where "st = staticPass shouldProbeApi cheerioLoad requests"
  define queue where "queue = renderQueue usePlaywrightFallback st"
  define row where "row = staticRow shouldProbeApi cheerioLoad (url, ev)"
  define sunk where "sunk = sinkRow shouldProbeApi cheerioLoad (url, ev)"
  have run: "runScan usePlaywrightFallback shouldProbeApi cheerioLoad requests browse
             = browserPass cheerioLoad browse queue st"
    by (simp add: runScan_def Let_def st_def queue_def)
  have sr: "rowsFor url (results st) = row"
    and sd: "rowsFor url (dataset st) = sunk"
    unfolding st_def row_def sunk_def using staticPass_rowsFor [OF dist mem] by simp_all
  have qd: "distinct queue" unfolding queue_def st_def using dist by (rule renderQueue_distinct)
  have accepted: "length row = 1 \<and> sunk = row
        \<and> length (rowsFor url (results (browserPass cheerioLoad browse queue st))) = 1
        \<and> (url \<in> set queue \<and> \<not> browserFailed (browse url) \<longrightarrow>
             (\<exists>R. rUrl R = url \<and> rDetectionMethod R = Some Browser
                \<and> rowsFor url (results (browserPass cheerioLoad browse queue st)) = [R]
                \<and> rowsFor url (dataset (browserPass cheerioLoad browse queue st))
                    = (if browserRowRejected (browse url) then row else row @ [R])))
        \<and> (url \<notin> set queue \<or> browserFailed (browse url) \<longrightarrow>
             rowsFor url (results (browserPass cheerioLoad browse queue st)) = row
             \<and> rowsFor url (dataset (browserPass cheerioLoad browse queue st)) = row)"
    if acc: "pushesAccepted ev"
  proof -
    from pushesAccepted_rows [OF acc, of shouldProbeApi cheerioLoad url]
    have l: "length row = 1" and same: "sunk = row"
      by (simp_all add: row_def sunk_def)
    have "length (rowsFor url (results (browserPass cheerioLoad browse queue st)))
          = length (rowsFor url (results st))"
      by (simp add: rowsFor_length_urls browserPass_urls)
    with sr l have one: "length (rowsFor url (results (browserPass cheerioLoad browse queue st))) = 1"
      by simp
    have rendered: "\<exists>R. rUrl R = url \<and> rDetectionMethod R = Some Browser
               \<and> rowsFor url (results (browserPass cheerioLoad browse queue st)) = [R]
               \<and> rowsFor url (dataset (browserPass cheerioLoad browse queue st))
                  = (if browserRowRejected (browse url) then row else row @ [R])"
      if q: "url \<in> set queue \<and> \<not> browserFailed (browse url)"
    proof -
      from q renderQueue_subset [of usePlaywrightFallback st]
      have "url \<in> rUrl ` set (results st)" unfolding queue_def by blast
      with q qd obtain R where
        R: "rUrl R = url" "rDetectionMethod R = Some Browser"
        and r: "rowsFor url (results (browserPass cheerioLoad browse queue st)) = R # tl (rowsFor url (results st))"
        and d: "rowsFor url (dataset (browserPass cheerioLoad browse queue st))
                  = (if browserRowRejected (browse url) then rowsFor url (dataset st)
                     else rowsFor url (dataset st) @ [R])"
        using browserPass_success [of url queue browse st cheerioLoad] by blast
      from l have "tl row = []" by (cases row) simp_all
      with r sr have "rowsFor url (results (browserPass cheerioLoad browse queue st)) = [R]" by simp
      with R d sd same show ?thesis by auto
    qed
    have static: "rowsFor url (results (browserPass cheerioLoad browse queue st)) = row
             \<and> rowsFor url (dataset (browserPass cheerioLoad browse queue st)) = row"
      if "url \<notin> set queue \<or> browserFailed (browse url)"
      using browserPass_frame [of url queue browse cheerioLoad st] that sr sd same by simp
    from l same one rendered static show ?thesis by blast
  qed
  from sr sd accepted
  show "rowsFor url (results (staticPass shouldProbeApi cheerioLoad requests))
       = staticRow shouldProbeApi cheerioLoad (url, ev)
     \<and> rowsFor url (dataset (staticPass shouldProbeApi cheerioLoad requests))
         = sinkRow shouldProbeApi cheerioLoad (url, ev)
     \<and> (pushesAccepted ev \<longrightarrow>
          length (staticRow shouldProbeApi cheerioLoad (url, ev)) = 1
          \<and> sinkRow shouldProbeApi cheerioLoad (url, ev) = staticRow shouldProbeApi cheerioLoad (url, ev)
          \<and> length (rowsFor url (results (runScan usePlaywrightFallback shouldProbeApi cheerioLoad requests browse))) = 1
          \<and> (url \<in> set (renderQueue usePlaywrightFallback (staticPass shouldProbeApi cheerioLoad requests))
               \<and> \<not> browserFailed (browse url) \<longrightarrow>
               (\<exists>R. rUrl R = url \<and> rDetectionMethod R = Some Browser
                  \<and> rowsFor url (results (runScan usePlaywrightFallback shouldProbeApi cheerioLoad requests browse))
                      = [R]
                  \<and> rowsFor url (dataset (runScan usePlaywrightFallback shouldProbeApi cheerioLoad requests browse))
                      = (if browserRowRejected (browse url) then staticRow shouldProbeApi cheerioLoad (url, ev)
                         else staticRow shouldProbeApi cheerioLoad (url, ev) @ [R])))
          \<and> (url \<notin> set (renderQueue usePlaywrightFallback (staticPass shouldProbeApi cheerioLoad requests))
               \<or> browserFailed (browse url) \<longrightarrow>
               rowsFor url (results (runScan usePlaywrightFallback shouldProbeApi cheerioLoad requests browse))
                 = staticRow shouldProbeApi cheerioLoad (url, ev)
               \<and> rowsFor url (dataset (runScan usePlaywrightFallback shouldProbeApi cheerioLoad requests browse))
                 = staticRow shouldProbeApi cheerioLoad (url, ev)))"
    unfolding run st_def [symmetric] queue_def [symmetric] row_def [symmetric] sunk_def [symmetric]
    by blast
qed

text \<open>Witness for C7: the URL without matches is rendered and ends with two rows in the
  dataset, the second of them the record that the result list holds, or with its static row
  alone when the dataset rejects the second; the URL with a match is not queued and ends with
  its static row.\<close>

theorem sink_rows_of_handled_url_witness:
  "''https://b.example'' \<in> set (renderQueue True (staticPass False (\<lambda>html. emptyDom) twoRequests))
   \<and> \<not> browserFailed (PageOpened blankPage) \<and> \<not> browserRowRejected (PageOpened blankPage)
   \<and> (\<exists>R. rDetectionMethod R = Some Browser
         \<and> rowsFor ''https://b.example''
              (results (runScan True False (\<lambda>html. emptyDom) twoRequests (\<lambda>url. PageOpened blankPage)))
             = [R]
         \<and> rowsFor ''https://b.example''
              (dataset (runScan True False (\<lambda>html. emptyDom) twoRequests (\<lambda>url. PageOpened blankPage)))
             = [deduplicateResult (staticResult False (\<lambda>html. emptyDom) ''https://b.example'' blankResponse), R])
   \<and> \<not> browserFailed (PageOpened rejectingPage) \<and> browserRowRejected (PageOpened rejectingPage)
   \<and> (\<exists>R. rDetectionMethod R = Some Browser
         \<and> rowsFor ''https://b.example''
              (results (runScan True False (\<lambda>html. emptyDom) twoRequests (\<lambda>url. PageOpened rejectingPage)))
             = [R]
         \<and> rowsFor ''https://b.example''
              (dataset (runScan True False (\<lambda>html. emptyDom) twoRequests (\<lambda>url. PageOpened rejectingPage)))
             = [deduplicateResult (staticResult False (\<lambda>html. emptyDom) ''https://b.example'' blankResponse)])
   \<and> ''https://a.example'' \<notin> set (renderQueue True (staticPass False (\<lambda>html. emptyDom) twoRequests))
   \<and> rowsFor ''https://a.example''
        (dataset (runScan True False (\<lambda>html. emptyDom) twoRequests (\<lambda>url. PageOpened blankPage)))
       = [deduplicateResult (staticResult False (\<lambda>html. emptyDom) ''https://a.example'' vercelResponse)]"
proof -
  have q: "''https://b.example'' \<in> set (renderQueue True (staticPass False (\<lambda>html. emptyDom) twoRequests))"
    by code_simp
  have n: "''https://a.example'' \<notin> set (renderQueue True (staticPass False (\<lambda>html. emptyDom) twoRequests))"
    by code_simp
  have f: "\<not> browserFailed (PageOpened blankPage)" by (simp add: blankPage_def)
  have j: "\<not> browserRowRejected (PageOpened blankPage)" by (simp add: blankPage_def)
  have f': "\<not> browserFailed (PageOpened rejectingPage)" by (simp add: rejectingPage_def blankPage_def)
  have j': "browserRowRejected (PageOpened rejectingPage)" by (simp add: rejectingPage_def)
  have d: "distinct (map fst twoRequests) \<and> (''https://b.example'', Responded blankResponse) \<in> set twoRequests"
    by (simp add: twoRequests_def)
  have d': "distinct (map fst twoRequests) \<and> (''https://a.example'', Responded vercelResponse) \<in> set twoRequests"
    by (simp add: twoRequests_def)
  have acc: "pushesAccepted (Responded blankResponse)" "pushesAccepted (Responded vercelResponse)"
    by simp_all
  note b = sink_rows_of_handled_url
      [of twoRequests "''https://b.example''" "Responded blankResponse" False "\<lambda>html. emptyDom" True
          "\<lambda>url. PageOpened blankPage", THEN mp, OF d, THEN conjunct2, THEN conjunct2, THEN mp, OF acc(1)]
  note b' = sink_rows_of_handled_url
      [of twoRequests "''https://b.example''" "Responded blankResponse" False "\<lambda>html. emptyDom" True
          "\<lambda>url. PageOpened rejectingPage", THEN mp, OF d, THEN conjunct2, THEN conjunct2, THEN mp, OF acc(1)]
  note a = sink_rows_of_handled_url
      [of twoRequests "''https://a.example''" "Responded vercelResponse" False "\<lambda>html. emptyDom" True
          "\<lambda>url. PageOpened blankPage", THEN mp, OF d', THEN conjunct2, THEN conjunct2, THEN mp, OF acc(2)]
  from mp [OF conjunct1 [OF conjunct2 [OF conjunct2 [OF conjunct2 [OF b]]]] conjI [OF q f]] j
  have e: "\<exists>R. rDetectionMethod R = Some Browser
         \<and> rowsFor ''https://b.example''
              (results (runScan True False (\<lambda>html. emptyDom) twoRequests (\<lambda>url. PageOpened blankPage)))
             = [R]
         \<and> rowsFor ''https://b.example''
              (dataset (runScan True False (\<lambda>html. emptyDom) twoRequests (\<lambda>url. PageOpened blankPage)))
             = [deduplicateResult (staticResult False (\<lambda>html. emptyDom) ''https://b.example'' blankResponse), R]"
    by (auto simp: staticRow_def)
  from mp [OF conjunct1 [OF conjunct2 [OF conjunct2 [OF conjunct2 [OF b']]]] conjI [OF q f']] j'
  have e': "\<exists>R. rDetectionMethod R = Some Browser
         \<and> rowsFor ''https://b.example''
              (results (runScan True False (\<lambda>html. emptyDom) twoRequests (\<lambda>url. PageOpened rejectingPage)))
             = [R]
         \<and> rowsFor ''https://b.example''
              (dataset (runScan True False (\<lambda>html. emptyDom) twoRequests (\<lambda>url. PageOpened rejectingPage)))
             = [deduplicateResult (staticResult False (\<lambda>html. emptyDom) ''https://b.example'' blankResponse)]"
    by (auto simp: staticRow_def)
  from mp [OF conjunct2 [OF conjunct2 [OF conjunct2 [OF conjunct2 [OF a]]]] disjI1 [OF n]]
  have s: "rowsFor ''https://a.example''
        (dataset (runScan True False (\<lambda>html. emptyDom) twoRequests (\<lambda>url. PageOpened blankPage)))
       = [deduplicateResult (staticResult False (\<lambda>html. emptyDom) ''https://a.example'' vercelResponse)]"
    by (simp add: staticRow_def)
  from q f j e f' j' e' n s show ?thesis by (intro conjI)
qed

text \<open>
  Claim C7 as stated fails: for a URL that is rendered the dataset holds the static row and
  the browser row, and for a URL whose request fails it holds no row.
\<close>

theorem one_record_per_url_counterexample:
  "map (\<lambda>r. (rUrl r, rDetectionMethod r))
       (dataset (runScan True False (\<lambda>html. emptyDom) [(''https://b.example'', Responded blankResponse)]
                   (\<lambda>url. PageOpened blankPage)))
     = [(''https://b.example'', Some Static), (''https://b.example'', Some Browser)]
   \<and> dataset (runScan True False (\<lambda>html. emptyDom) [(''https://c.example'', RequestFailed)]
                 (\<lambda>url. NavigationFailed)) = []"
  by code_simp

subsection \<open>The WordPress scenario\<close>

lemma charEq_refl: "charEq i c c"
  by (simp add: charEq_def)

lemma litMatch_startsWith: "startsWith s cs \<Longrightarrow> litMatch i cs (p, s) \<noteq> []"
proof (induction cs arbitrary: s p)
  case Nil
  show ?case by simp
next
  case (Cons c cs)
  then show ?case by (cases s) (auto simp: charEq_refl)
qed

lemma searchFrom_includesStr: "includesStr s cs \<Longrightarrow> searchFrom (Lit cs) i p s"
proof (induction s arbitrary: p)
  case Nil
  then show ?case by simp
next
  case (Cons x xs)
  then show ?case using litMatch_startsWith [of "x # xs" cs i p] by auto
qed

lemma startsWith_prefix: "startsWith s (a @ b) \<Longrightarrow> startsWith s a"
proof (induction a arbitrary: s)
  case Nil
  show ?case by simp
next
  case (Cons c a)
  then show ?case by (cases s) auto
qed

lemma includesStr_prefix: "includesStr s (a @ b) \<Longrightarrow> includesStr s a"
proof (induction s)
  case Nil
  then show ?case by simp
next
  case (Cons x xs)
  then show ?case using startsWith_prefix [of "x # xs" a b] by auto
qed

lemma hit_confidence: "eConfidence (hit w src found e) = eConfidence e + w"
  by (simp add: hit_def)

lemma foldl_confidence_mono:
  assumes "\<And>e x. eConfidence e \<le> eConfidence (f e x)"
  shows "eConfidence e \<le> eConfidence (foldl f e xs)"
proof (induction xs arbitrary: e)
  case Nil
  show ?case by simp
next
  case (Cons x xs)
  from assms [of e x] Cons [of "f e x"] show ?case by simp
qed

lemma scanScripts_mono: "eConfidence e \<le> eConfidence (scanScripts techName patterns d e)"
  unfolding scanScripts_def Let_def
  by (intro foldl_confidence_mono) (simp add: hit_confidence)

lemma scanLinks_mono: "eConfidence e \<le> eConfidence (scanLinks techName patterns d e)"
  unfolding scanLinks_def Let_def
  by (intro foldl_confidence_mono) (simp add: hit_confidence)

lemma scanHtml_mono: "eConfidence e \<le> eConfidence (scanHtml patterns html e)"
  unfolding scanHtml_def
  by (intro foldl_confidence_mono) (simp add: hit_confidence)

lemma scanHeaders_mono: "eConfidence e \<le> eConfidence (scanHeaders patterns headers e)"
  unfolding scanHeaders_def
  by (intro foldl_confidence_mono) (simp add: hit_confidence split: prod.splits)

lemma scanCdn_mono: "eConfidence e \<le> eConfidence (scanCdn patterns d e)"
  unfolding scanCdn_def
  by (intro foldl_confidence_mono) (simp add: hit_confidence)

lemma wordpressPatterns_meta: "pMeta wordpressPatterns = [(''generator'', Some (rxi (Lit ''wordpress'')))]"
  by (simp add: wordpressPatterns_def cmsPatterns_def noPatterns_def generator_def)

lemma wordpressPatterns_html:
  "pHtml wordpressPatterns = [rxi (Lit ''wp-content/themes/''), rxi (Lit ''wp-content/plugins/''),
                               rxi (Lit ''wp-includes/'')]"
  by (simp add: wordpressPatterns_def cmsPatterns_def noPatterns_def)

lemma generator_matches: "test (rxi (Lit ''wordpress'')) ''WordPress 6.3''"
  by code_simp

lemma scanMeta_wordpress:
  assumes "domMeta d ''generator'' = Some ''WordPress 6.3''"
  shows "eConfidence (scanMeta ''wordpress'' wordpressPatterns d e) = eConfidence e + 2"
  using assms generator_matches
  by (simp add: scanMeta_def wordpressPatterns_meta orEmpty_def hit_confidence)

lemma scanHtml_wordpress:
  assumes "includesStr html ''wp-content/themes/x.js''"
  shows "eConfidence e + 2 \<le> eConfidence (scanHtml wordpressPatterns html e)"
proof -
  have "includesStr html (''wp-content/themes/'' @ ''x.js'')" using assms by simp
  then have "includesStr html ''wp-content/themes/''" by (rule includesStr_prefix)
  then have t: "test (rxi (Lit ''wp-content/themes/'')) html"
    by (simp add: rxi_def searchFrom_includesStr)
  have "eConfidence (hit 2 ''html'' None e)
        \<le> eConfidence (foldl (\<lambda>e p. if test p html then hit 2 ''html'' None e else e) (hit 2 ''html'' None e)
             [rxi (Lit ''wp-content/plugins/''), rxi (Lit ''wp-includes/'')])"
    by (intro foldl_confidence_mono) (simp add: hit_confidence)
  with t show ?thesis by (simp add: scanHtml_def wordpressPatterns_html hit_confidence)
qed

lemma scanTech_wordpress:
  assumes "domMeta d ''generator'' = Some ''WordPress 6.3''"
    and "includesStr html ''wp-content/themes/x.js''"
  shows "4 \<le> eConfidence (scanTech ''wordpress'' wordpressPatterns d html headers)"
proof -
  define e1 where "e1 = scanLinks ''wordpress'' wordpressPatterns d
                         (scanScripts ''wordpress'' wordpressPatterns d
                            \<lparr>eConfidence = 0, eVersion = None, eSources = []\<rparr>)"
  define e2 where "e2 = scanMeta ''wordpress'' wordpressPatterns d e1"
  define e3 where "e3 = scanHtml wordpressPatterns html e2"
  define e4 where "e4 = scanHeaders wordpressPatterns headers e3"
  have "eConfidence e2 = eConfidence e1 + 2" unfolding e2_def by (rule scanMeta_wordpress [OF assms(1)])
  moreover have "eConfidence e2 + 2 \<le> eConfidence e3" unfolding e3_def by (rule scanHtml_wordpress [OF assms(2)])
  moreover have "eConfidence e3 \<le> eConfidence e4" unfolding e4_def by (rule scanHeaders_mono)
  moreover have "eConfidence e4 \<le> eConfidence (scanCdn wordpressPatterns d e4)" by (rule scanCdn_mono)
  ultimately have "4 \<le> eConfidence (scanCdn wordpressPatterns d e4)" by simp
  then show ?thesis by (simp add: scanTech_def e4_def e3_def e2_def e1_def)
qed

lemma resolveTech_other:
  "k' \<noteq> k \<Longrightarrow> map_of (sTechMatches (resolveTech k' e s)) k = map_of (sTechMatches s) k"
  by (simp add: resolveTech_def Let_def map_of_setMatch)

lemma scanFold_other:
  "k \<notin> fst ` set corpus \<Longrightarrow>
   map_of (sTechMatches (foldl (\<lambda>s (techName, patterns). resolveTech techName (scanTech techName patterns d html headers) s)
                               s0 corpus)) k
   = map_of (sTechMatches s0) k"
proof (induction corpus arbitrary: s0)
  case Nil
  show ?case by simp
next
  case (Cons a corpus)
  obtain techName patterns where a: "a = (techName, patterns)" by (cases a)
  from Cons.prems a have ne: "techName \<noteq> k" and rest: "k \<notin> fst ` set corpus" by auto
  show ?case
    unfolding a using Cons.IH [OF rest] resolveTech_other [OF ne] by simp
qed

lemma resolveTech_match:
  "minConfidence (getCategoryForTech k) \<le> eConfidence e \<Longrightarrow>
   map_of (sTechMatches (resolveTech k e s)) k
   = Some \<lparr>mConfidence = eConfidence e, mVersion = eVersion e, mCategory = getCategoryForTech k,
            mDisplayName = humanizeTechName k, mSources = eSources e\<rparr>"
  by (simp add: resolveTech_def Let_def map_of_setMatch)

lemma scanCorpus_match:
  assumes "corpus = pre @ (k, patterns) # post" and "k \<notin> fst ` set post"
    and "minConfidence (getCategoryForTech k) \<le> eConfidence (scanTech k patterns d html headers)"
  shows "map_of (sTechMatches (scanCorpus corpus d html headers)) k
   = Some \<lparr>mConfidence = eConfidence (scanTech k patterns d html headers),
            mVersion = eVersion (scanTech k patterns d html headers),
            mCategory = getCategoryForTech k,
            mDisplayName = humanizeTechName k,
            mSources = eSources (scanTech k patterns d html headers)\<rparr>"
  unfolding scanCorpus_def assms(1)
  using scanFold_other [OF assms(2)] resolveTech_match [OF assms(3)]
  by simp

lemma resolveCms_keeps:
  "map_of (sTechMatches s) k = Some m \<Longrightarrow> map_of (sTechMatches (resolveCms s)) k = Some m"
  by (auto simp: resolveCms_def map_of_setMatch split: list.splits option.splits)

lemma TECH_PATTERNS_wordpress:
  "TECH_PATTERNS = frontendPatterns @ (''wordpress'', wordpressPatterns)
                     # (tl cmsPatterns @ uiPatterns @ libraryPatterns @ analyticsPatterns
                        @ hostingPatterns @ cdnPatterns)"
  by (simp add: TECH_PATTERNS_def wordpressPatterns_def cmsPatterns_def)

lemma wordpress_once:
  "''wordpress'' \<notin> fst ` set (tl cmsPatterns @ uiPatterns @ libraryPatterns @ analyticsPatterns
                        @ hostingPatterns @ cdnPatterns)"
  by (simp add: cmsPatterns_def uiPatterns_def libraryPatterns_def analyticsPatterns_def
                hostingPatterns_def cdnPatterns_def)

lemma wordpress_category: "getCategoryForTech ''wordpress'' = Cms"
  by code_simp

lemma wordpress_name: "humanizeTechName ''wordpress'' = ''Wordpress''"
  by code_simp

lemma clearingCmsCandidates_append:
  "clearingCmsCandidates (xs @ ys) d html headers
   = clearingCmsCandidates xs d html headers @ clearingCmsCandidates ys d html headers"
  by (simp add: clearingCmsCandidates_def)

lemma frontend_keys_not_cms: "\<forall>k \<in> set (map fst frontendPatterns). getCategoryForTech k \<noteq> Cms"
  by code_simp

lemma clearingCmsCandidates_frontend: "clearingCmsCandidates frontendPatterns d html headers = []"
  using frontend_keys_not_cms by (auto simp: clearingCmsCandidates_def filter_empty_conv)

lemma clearingCmsCandidates_wordpress:
  assumes "3 \<le> eConfidence (scanTech ''wordpress'' wordpressPatterns d html headers)"
  shows "clearingCmsCandidates TECH_PATTERNS d html headers
         = \<lparr>cKey = ''wordpress'', cDisplayName = ''Wordpress'',
             cConfidence = eConfidence (scanTech ''wordpress'' wordpressPatterns d html headers),
             cVersion = eVersion (scanTech ''wordpress'' wordpressPatterns d html headers)\<rparr>
           # clearingCmsCandidates (tl cmsPatterns @ uiPatterns @ libraryPatterns @ analyticsPatterns
                                      @ hostingPatterns @ cdnPatterns) d html headers"
proof -
  define others where "others = tl cmsPatterns @ uiPatterns @ libraryPatterns @ analyticsPatterns
                                  @ hostingPatterns @ cdnPatterns"
  have w: "clearingCmsCandidates [(''wordpress'', wordpressPatterns)] d html headers
        = [\<lparr>cKey = ''wordpress'', cDisplayName = ''Wordpress'',
             cConfidence = eConfidence (scanTech ''wordpress'' wordpressPatterns d html headers),
             cVersion = eVersion (scanTech ''wordpress'' wordpressPatterns d html headers)\<rparr>]"
    using assms by (simp add: clearingCmsCandidates_def wordpress_category wordpress_name)
  have t: "TECH_PATTERNS = frontendPatterns @ ([(''wordpress'', wordpressPatterns)] @ others)"
    by (simp add: TECH_PATTERNS_wordpress others_def)
  have "clearingCmsCandidates TECH_PATTERNS d html headers
        = clearingCmsCandidates frontendPatterns d html headers
          @ (clearingCmsCandidates [(''wordpress'', wordpressPatterns)] d html headers
             @ clearingCmsCandidates others d html headers)"
    unfolding t clearingCmsCandidates_append ..
  then show ?thesis
    unfolding w clearingCmsCandidates_frontend others_def by simp
qed

text \<open>
  Claim C5, as the code has it. Take a document whose first generator meta tag has the content
  \<open>WordPress 6.3\<close> (the one that \<open>$('meta[name="generator"]').attr('content')\<close> reads) and whose
  markup contains \<open>wp-content/themes/x.js\<close>, as it does with a script tag of that \<open>src\<close>. Then
  WordPress is matched in category cms under the display name \<open>Wordpress\<close> with a confidence of
  at least 4, the meta weight 2 plus the html weight 2, which clears the cms threshold 3; the
  \<open>cms\<close> array has exactly one entry; and unless another CMS reaches a strictly higher
  confidence, that entry is the formatted name of WordPress.
\<close>

theorem wordpress_scenario:
  "domMeta (cheerioLoad html) ''generator'' = Some ''WordPress 6.3''
   \<and> includesStr html ''wp-content/themes/x.js'' \<longrightarrow>
     (\<exists>m. map_of (aTechMatches (analyzeStaticResponse cheerioLoad html headers url)) ''wordpress'' = Some m
          \<and> mCategory m = Cms \<and> mDisplayName m = ''Wordpress''
          \<and> mConfidence m = eConfidence (scanTech ''wordpress'' wordpressPatterns (cheerioLoad html) html headers)
          \<and> 4 \<le> mConfidence m \<and> minConfidence Cms \<le> mConfidence m)
     \<and> length (cms (aTechnologies (analyzeStaticResponse cheerioLoad html headers url))) = 1
     \<and> ((\<forall>c \<in> set (clearingCmsCandidates TECH_PATTERNS (cheerioLoad html) html headers).
             cConfidence c \<le> eConfidence (scanTech ''wordpress'' wordpressPatterns (cheerioLoad html) html headers))
          \<longrightarrow> cms (aTechnologies (analyzeStaticResponse cheerioLoad html headers url))
                = [formatTechName ''Wordpress''
                     (eVersion (scanTech ''wordpress'' wordpressPatterns (cheerioLoad html) html headers))])"
proof
  assume a: "domMeta (cheerioLoad html) ''generator'' = Some ''WordPress 6.3''
   \<and> includesStr html ''wp-content/themes/x.js''"
  define d where "d = cheerioLoad html"
  define e where "e = scanTech ''wordpress'' wordpressPatterns d html headers"
  from a have four: "4 \<le> eConfidence e"
    unfolding e_def d_def by (intro scanTech_wordpress) simp_all
  then have clear: "minConfidence (getCategoryForTech ''wordpress'') \<le> eConfidence e"
    by (simp add: wordpress_category minConfidence_Cms)
  from scanCorpus_match [OF TECH_PATTERNS_wordpress wordpress_once, of d html headers] clear
  have m: "map_of (sTechMatches (scanCorpus TECH_PATTERNS d html headers)) ''wordpress''
        = Some \<lparr>mConfidence = eConfidence e, mVersion = eVersion e, mCategory = Cms,
                 mDisplayName = ''Wordpress'', mSources = eSources e\<rparr>"
    by (simp add: e_def wordpress_category wordpress_name)
  have tm: "aTechMatches (analyzeStaticResponse cheerioLoad html headers url)
            = sTechMatches (resolveCms (scanCorpus TECH_PATTERNS d html headers))"
    by (simp add: analyzeStaticResponse_def analyzeWith_def Let_def d_def)
  from resolveCms_keeps [OF m] four
  have first: "\<exists>m. map_of (aTechMatches (analyzeStaticResponse cheerioLoad html headers url)) ''wordpress'' = Some m
          \<and> mCategory m = Cms \<and> mDisplayName m = ''Wordpress''
          \<and> mConfidence m = eConfidence (scanTech ''wordpress'' wordpressPatterns (cheerioLoad html) html headers)
          \<and> 4 \<le> mConfidence m \<and> minConfidence Cms \<le> mConfidence m"
    unfolding tm by (simp add: minConfidence_Cms e_def d_def)
  have "(''wordpress'', wordpressPatterns) \<in> set TECH_PATTERNS"
    by (simp add: TECH_PATTERNS_wordpress)
  with four have "clearingCmsCandidates TECH_PATTERNS d html headers \<noteq> []"
    by (force simp: clearingCmsCandidates_def filter_empty_conv wordpress_category e_def)
  then have "sortByConfidenceDesc cConfidence (clearingCmsCandidates TECH_PATTERNS d html headers) \<noteq> []"
    by (simp add: sortByConfidenceDesc_Nil_iff)
  then have second: "length (cms (aTechnologies (analyzeStaticResponse cheerioLoad html headers url))) = 1"
    by (simp add: analyzeStaticResponse_def analyzeWith_cms d_def split: list.splits)
  have third: "cms (aTechnologies (analyzeStaticResponse cheerioLoad html headers url))
                = [formatTechName ''Wordpress'' (eVersion e)]"
    if top: "\<forall>c \<in> set (clearingCmsCandidates TECH_PATTERNS d html headers). cConfidence c \<le> eConfidence e"
  proof -
    define w where "w = \<lparr>cKey = ''wordpress'', cDisplayName = ''Wordpress'',
                          cConfidence = eConfidence e, cVersion = eVersion e\<rparr>"
    define post where "post = clearingCmsCandidates (tl cmsPatterns @ uiPatterns @ libraryPatterns
                                 @ analyticsPatterns @ hostingPatterns @ cdnPatterns) d html headers"
    from four have "3 \<le> eConfidence e" by simp
    then have c: "clearingCmsCandidates TECH_PATTERNS (cheerioLoad html) html headers = [] @ w # post"
      unfolding e_def w_def post_def d_def by (simp add: clearingCmsCandidates_wordpress)
    with top have "\<forall>q \<in> set post. cConfidence q \<le> cConfidence w"
      by (simp add: w_def d_def)
    with c have "cms (aTechnologies (analyzeWith TECH_PATTERNS cheerioLoad html headers))
                 = [formatTechName (cDisplayName w) (cVersion w)]"
      by (intro analyzeWith_cms_winner [of _ _ _ _ "[]" w post]) simp_all
    then show ?thesis by (simp add: analyzeStaticResponse_def w_def)
  qed
  from first second third
  show "(\<exists>m. map_of (aTechMatches (analyzeStaticResponse cheerioLoad html headers url)) ''wordpress'' = Some m
          \<and> mCategory m = Cms \<and> mDisplayName m = ''Wordpress''
          \<and> mConfidence m = eConfidence (scanTech ''wordpress'' wordpressPatterns (cheerioLoad html) html headers)
          \<and> 4 \<le> mConfidence m \<and> minConfidence Cms \<le> mConfidence m)
     \<and> length (cms (aTechnologies (analyzeStaticResponse cheerioLoad html headers url))) = 1
     \<and> ((\<forall>c \<in> set (clearingCmsCandidates TECH_PATTERNS (cheerioLoad html) html headers).
             cConfidence c \<le> eConfidence (scanTech ''wordpress'' wordpressPatterns (cheerioLoad html) html headers))
          \<longrightarrow> cms (aTechnologies (analyzeStaticResponse cheerioLoad html headers url))
                = [formatTechName ''Wordpress''
                     (eVersion (scanTech ''wordpress'' wordpressPatterns (cheerioLoad html) html headers))])"
    unfolding e_def d_def by blast
qed

text \<open>Witness for C5: on the document made of the two tags alone WordPress is the only CMS
  candidate, the entry is its name and the confidence is 4.\<close>

theorem wordpress_scenario_witness:
  "domMeta wordpressDom ''generator'' = Some ''WordPress 6.3''
   \<and> includesStr wordpressDoc ''wp-content/themes/x.js''
   \<and> map cKey (clearingCmsCandidates TECH_PATTERNS wordpressDom wordpressDoc Map.empty) = [''wordpress'']
   \<and> cms (aTechnologies (analyzeStaticResponse (\<lambda>html. wordpressDom) wordpressDoc Map.empty ''https://a.example''))
       = [formatTechName ''Wordpress''
            (eVersion (scanTech ''wordpress'' wordpressPatterns wordpressDom wordpressDoc Map.empty))]
   \<and> eConfidence (scanTech ''wordpress'' wordpressPatterns wordpressDom wordpressDoc Map.empty) = 4
   \<and> (\<exists>m. map_of (aTechMatches (analyzeStaticResponse (\<lambda>html. wordpressDom) wordpressDoc Map.empty
                                     ''https://a.example'')) ''wordpress'' = Some m
          \<and> mCategory m = Cms \<and> mConfidence m = 4)"
proof -
  have g: "domMeta wordpressDom ''generator'' = Some ''WordPress 6.3''" by (simp add: wordpressDom_def)
  have i: "includesStr wordpressDoc ''wp-content/themes/x.js''" by code_simp
  have k: "map cKey (clearingCmsCandidates TECH_PATTERNS wordpressDom wordpressDoc Map.empty) = [''wordpress'']"
    by code_simp
  have t: "\<forall>c \<in> set (clearingCmsCandidates TECH_PATTERNS wordpressDom wordpressDoc Map.empty).
             cConfidence c \<le> eConfidence (scanTech ''wordpress'' wordpressPatterns wordpressDom wordpressDoc Map.empty)"
    by code_simp
  have e: "eConfidence (scanTech ''wordpress'' wordpressPatterns wordpressDom wordpressDoc Map.empty) = 4"
    by code_simp
  note spec = wordpress_scenario [of "\<lambda>html. wordpressDom" wordpressDoc Map.empty "''https://a.example''",
                                  THEN mp, OF conjI [OF g i]]
  from conjunct1 [OF spec] e
  have m: "\<exists>m. map_of (aTechMatches (analyzeStaticResponse (\<lambda>html. wordpressDom) wordpressDoc Map.empty
                                     ''https://a.example'')) ''wordpress'' = Some m
          \<and> mCategory m = Cms \<and> mConfidence m = 4"
    by auto
  from mp [OF conjunct2 [OF conjunct2 [OF spec]] t]
  have c: "cms (aTechnologies (analyzeStaticResponse (\<lambda>html. wordpressDom) wordpressDoc Map.empty ''https://a.example''))
       = [formatTechName ''Wordpress''
            (eVersion (scanTech ''wordpress'' wordpressPatterns wordpressDom wordpressDoc Map.empty))]" .
  from g i k c e m show ?thesis by (intro conjI)
qed

text \<open>
  Claim C5 as stated fails on the document made of the two tags alone: the entry is
  \<open>Wordpress\<close> without a version, because no context pattern of \<open>extractVersion\<close> matches
  \<open>WordPress 6.3\<close>, and the confidence is 4 from the channels meta and html, because the
  script pattern of WordPress does not match \<open>wp-content/themes/x.js\<close>.
\<close>

theorem wordpress_scenario_counterexample:
  "aTechnologies (analyzeStaticResponse (\<lambda>html. wordpressDom) wordpressDoc Map.empty ''https://a.example'')
     = noTechnologies\<lparr>cms := [''Wordpress'']\<rparr>
   \<and> aTechMatches (analyzeStaticResponse (\<lambda>html. wordpressDom) wordpressDoc Map.empty ''https://a.example'')
     = [(''wordpress'', \<lparr>mConfidence = 4, mVersion = None, mCategory = Cms,
                          mDisplayName = ''Wordpress'', mSources = [''meta'', ''html'']\<rparr>)]
   \<and> extractVersion ''WordPress 6.3'' ''wordpress'' = None
   \<and> \<not> test (rxi (Alts [Lit ''wp-emoji-release.min.js'', Lit ''wp-admin''])) ''wp-content/themes/x.js''"
  by code_simp

subsection \<open>The verdict on a store\<close>

lemma pickTopOn_run:
  assumes "a < length h" and "h ! a = MatchesObject tm"
  shows "\<exists>ys. pickTopOn a c h = Some (pickTop tm c, h @ ys)"
proof -
  define cs where "cs = filter (\<lambda>(key, m). mCategory m = c) tm"
  define sorted where "sorted = sortByConfidenceDesc (\<lambda>(key, m). mConfidence m) cs"
  show ?thesis
  proof (cases "cs = []")
    case True
    then have "pickTop tm c = None"
      by (simp add: pickTop_def cs_def sortByConfidenceDesc_def)
    moreover have "pickTopOn a c h = Some (None, h @ [Entries tm, Entries []])"
      using assms True
      by (simp add: pickTopOn_def andThen_def readCell_def readEntries_def alloc_def yield_def
                    nth_append cs_def)
    ultimately show ?thesis by simp
  next
    case False
    then have "sorted \<noteq> []"
      by (simp add: sorted_def sortByConfidenceDesc_Nil_iff)
    then obtain key m others where s: "sorted = (key, m) # others"
      by (cases sorted) auto
    have "pickTopOn a c h = Some (pickTop tm c, h @ [Entries tm, Entries sorted])"
      using assms False s
      by (simp add: pickTopOn_def pickTop_def andThen_def readCell_def readEntries_def alloc_def
                    writeCell_def yield_def nth_append cs_def [symmetric] sorted_def [symmetric]
                    list_update_append)
    then show ?thesis by blast
  qed
qed

lemma tableAt_lookup_gen:
  assumes "map fst table = map fst entries"
    and "list_all2 (\<lambda>(key, langsRef, dbsRef) (key', langs, dbs).
                    langsRef < length h \<and> h ! langsRef = Strings langs
                    \<and> (case dbsRef of
                          None \<Rightarrow> dbs = []
                        | Some r \<Rightarrow> r < length h \<and> h ! r = Strings dbs))
                 table entries"
  shows "(map_of table k = None \<longrightarrow> map_of entries k = None)
       \<and> (\<forall>lr dr. map_of table k = Some (lr, dr) \<longrightarrow>
            (\<exists>langs dbs. map_of entries k = Some (langs, dbs)
                \<and> lr < length h \<and> h ! lr = Strings langs
                \<and> (case dr of None \<Rightarrow> dbs = [] | Some r \<Rightarrow> r < length h \<and> h ! r = Strings dbs)))"
  using assms(2,1)
  by (induction table entries rule: list_all2_induct) auto

lemma tableAt_lookup_None:
  "tableAt table h \<Longrightarrow> map_of table k = None \<Longrightarrow> map_of STACK_INFERENCES k = None"
  unfolding tableAt_def using tableAt_lookup_gen [of table STACK_INFERENCES h k] by blast

lemma tableAt_lookup_Some:
  "tableAt table h \<Longrightarrow> map_of table k = Some (lr, dr) \<Longrightarrow>
     \<exists>langs dbs. map_of STACK_INFERENCES k = Some (langs, dbs)
        \<and> lr < length h \<and> h ! lr = Strings langs
        \<and> (case dr of None \<Rightarrow> dbs = [] | Some r \<Rightarrow> r < length h \<and> h ! r = Strings dbs)"
  unfolding tableAt_def using tableAt_lookup_gen [of table STACK_INFERENCES h k] by blast

lemma tableAt_append: "tableAt table h \<Longrightarrow> tableAt table (h @ ys)"
  unfolding tableAt_def
  by (auto simp: nth_append split: option.splits elim!: list_all2_mono)

lemma addInferenceOn_run:
  assumes t: "tableAt table h0"
    and n: "n = length h0 + length xs"
  shows "addInferenceOn table (Suc (Suc n)) pick
           (h0 @ xs @ [Strings ls, Strings ds, InferredObject n (Suc n)])
         = Some ((), h0 @ xs @ [Strings (languages (addInference pick \<lparr>languages = ls, databases = ds\<rparr>)),
                               Strings (databases (addInference pick \<lparr>languages = ls, databases = ds\<rparr>)),
                               InferredObject n (Suc n)])"
proof (cases pick)
  case None
  then show ?thesis by (simp add: addInferenceOn_def addInference_def yield_def)
next
  case (Some p)
  show ?thesis
  proof (cases "tKey p = []")
    case True
    with Some show ?thesis by (simp add: addInferenceOn_def addInference_def yield_def)
  next
    case False
    show ?thesis
    proof (cases "map_of table (toLowerCase (tKey p))")
      case None
      from tableAt_lookup_None [OF t None] Some False None show ?thesis
        by (simp add: addInferenceOn_def addInference_def yield_def)
    next
      case (Some refs)
      obtain lr dr where refs: "refs = (lr, dr)" by (cases refs)
      from tableAt_lookup_Some [OF t Some [unfolded refs]]
      obtain langs dbs where e: "map_of STACK_INFERENCES (toLowerCase (tKey p)) = Some (langs, dbs)"
        and lr: "lr < length h0" "h0 ! lr = Strings langs"
        and dr: "case dr of None \<Rightarrow> dbs = [] | Some r \<Rightarrow> r < length h0 \<and> h0 ! r = Strings dbs"
        by blast
      show ?thesis
      proof (cases dr)
        case None
        with dr have "dbs = []" by simp
        with \<open>pick = Some p\<close> False Some refs e lr None n show ?thesis
          by (simp add: addInferenceOn_def addInference_def yield_def andThen_def readInferred_def
                        readCell_def readStrings_def pushStrings_def writeCell_def nth_append
                        list_update_append)
      next
        case (Some r)
        with dr have "r < length h0" "h0 ! r = Strings dbs" by simp_all
        with \<open>pick = Some p\<close> False \<open>map_of table (toLowerCase (tKey p)) = Some refs\<close> refs e lr Some n
        show ?thesis
          by (simp add: addInferenceOn_def addInference_def yield_def andThen_def readInferred_def
                        readCell_def readStrings_def pushStrings_def writeCell_def nth_append
                        list_update_append)
      qed
    qed
  qed
qed

lemma pickTopOn_run_append:
  assumes "a < length h" and "h ! a = MatchesObject tm"
  shows "\<exists>ys. pickTopOn a c (h @ xs) = Some (pickTop tm c, h @ ys)"
proof -
  from assms have "a < length (h @ xs)" "(h @ xs) ! a = MatchesObject tm"
    by (simp_all add: nth_append)
  from pickTopOn_run [OF this, of c] obtain ys
    where "pickTopOn a c (h @ xs) = Some (pickTop tm c, (h @ xs) @ ys)" by blast
  then have "pickTopOn a c (h @ xs) = Some (pickTop tm c, h @ (xs @ ys))" by simp
  then show ?thesis by blast
qed

lemma pushLanguageIf_run:
  assumes "n = length pre"
  shows "pushLanguageIf c (Suc (Suc n)) item (pre @ [Strings ls, Strings ds, InferredObject n (Suc n)])
         = Some ((), pre @ [Strings (ls @ (if c then [item] else [])), Strings ds, InferredObject n (Suc n)])"
  using assms
  by (cases c)
     (simp_all add: pushLanguageIf_def andThen_def readInferred_def readCell_def readStrings_def
                    pushStrings_def writeCell_def yield_def nth_append list_update_append)

lemma dedupLanguages_run:
  assumes "n = length pre"
  shows "dedupLanguages (Suc (Suc n)) (pre @ [Strings ls, Strings ds, InferredObject n (Suc n)])
         = Some ((), pre @ [Strings ls, Strings ds, InferredObject (Suc (Suc (Suc n))) (Suc n),
                            Strings (deduplicateArray ls)])"
  using assms
  by (simp add: dedupLanguages_def andThen_def readInferred_def readCell_def readStrings_def
                alloc_def writeCell_def yield_def nth_append list_update_append)

lemma dedupDatabases_run:
  assumes "n = length pre"
  shows "dedupDatabases (Suc (Suc n)) (pre @ [Strings ls, Strings ds, InferredObject l (Suc n), c3])
         = Some ((), pre @ [Strings ls, Strings ds, InferredObject l (Suc (Suc (Suc (Suc n)))), c3,
                            Strings (deduplicateArray ds)])"
  using assms
  by (simp add: dedupDatabases_def andThen_def readInferred_def readCell_def readStrings_def
                alloc_def writeCell_def yield_def nth_append list_update_append)

lemma alloc_sixth:
  assumes "n = length pre"
  shows "alloc c (pre @ [c0, c1, c2, c3, c4])
         = Some (Suc (Suc (Suc (Suc (Suc n)))), pre @ [c0, c1, c2, c3, c4, c])"
  using assms by (simp add: alloc_def)

lemma pushPickLine_run:
  assumes "n = length pre"
  shows "pushPickLine (Suc (Suc (Suc (Suc (Suc n))))) label pick (pre @ [c0, c1, c2, c3, c4, Strings parts])
         = Some ((), pre @ [c0, c1, c2, c3, c4, Strings (parts @ summaryLine label pick)])"
  using assms
  by (cases pick)
     (simp_all add: pushPickLine_def summaryLine_def andThen_def readCell_def readStrings_def
                    pushStrings_def writeCell_def yield_def nth_append list_update_append)

lemma pushWafLine_run:
  assumes "n = length pre" and "wafRef < length pre" and "pre ! wafRef = WafObject waf"
  shows "pushWafLine (Suc (Suc (Suc (Suc (Suc n))))) wafRef (pre @ [c0, c1, c2, c3, c4, Strings parts])
         = Some ((), pre @ [c0, c1, c2, c3, c4,
                            Strings (parts @ (case waf of
                                                Undetected \<Rightarrow> []
                                              | Detected provider confidence score \<Rightarrow>
                                                  [''WAF: '' @ provider @ '' ('' @ confidence @ '')'']))])"
  using assms
  by (cases waf)
     (simp_all add: pushWafLine_def andThen_def readCell_def readStrings_def
                    pushStrings_def writeCell_def yield_def nth_append list_update_append)

lemma readInferred_third:
  assumes "n = length pre"
  shows "readInferred (Suc (Suc n)) (pre @ [c0, c1, InferredObject l d, c3, c4, c5])
         = Some ((l, d), pre @ [c0, c1, InferredObject l d, c3, c4, c5])"
  using assms by (simp add: readInferred_def andThen_def readCell_def yield_def nth_append)

lemma pushLanguageLine_run:
  assumes "n = length pre"
  shows "pushInferredLine (Suc (Suc (Suc (Suc (Suc n))))) label (Suc (Suc (Suc n)))
           (pre @ [c0, c1, c2, Strings items, c4, Strings parts])
         = Some ((), pre @ [c0, c1, c2, Strings items, c4,
                            Strings (parts @ (if items \<noteq> [] then [label @ '': '' @ join '', '' items] else []))])"
  using assms
  by (cases "items = []")
     (simp_all add: pushInferredLine_def andThen_def readCell_def readStrings_def
                    pushStrings_def writeCell_def yield_def nth_append list_update_append)

lemma pushDatabaseLine_run:
  assumes "n = length pre"
  shows "pushInferredLine (Suc (Suc (Suc (Suc (Suc n))))) label (Suc (Suc (Suc (Suc n))))
           (pre @ [c0, c1, c2, c3, Strings items, Strings parts])
         = Some ((), pre @ [c0, c1, c2, c3, Strings items,
                            Strings (parts @ (if items \<noteq> [] then [label @ '': '' @ join '', '' items] else []))])"
  using assms
  by (cases "items = []")
     (simp_all add: pushInferredLine_def andThen_def readCell_def readStrings_def
                    pushStrings_def writeCell_def yield_def nth_append list_update_append)

lemma readStrings_fourth:
  assumes "n = length pre"
  shows "readStrings (Suc (Suc (Suc n))) (pre @ [c0, c1, c2, Strings xs, c4, c5])
         = Some (xs, pre @ [c0, c1, c2, Strings xs, c4, c5])"
  using assms by (simp add: readStrings_def andThen_def readCell_def yield_def nth_append)

lemma readStrings_fifth:
  assumes "n = length pre"
  shows "readStrings (Suc (Suc (Suc (Suc n)))) (pre @ [c0, c1, c2, c3, Strings xs, c5])
         = Some (xs, pre @ [c0, c1, c2, c3, Strings xs, c5])"
  using assms by (simp add: readStrings_def andThen_def readCell_def yield_def nth_append)

lemma readStrings_sixth:
  assumes "n = length pre"
  shows "readStrings (Suc (Suc (Suc (Suc (Suc n))))) (pre @ [c0, c1, c2, c3, c4, Strings xs])
         = Some (xs, pre @ [c0, c1, c2, c3, c4, Strings xs])"
  using assms by (simp add: readStrings_def andThen_def readCell_def yield_def nth_append)

lemma buildVerdictOn_run:
  assumes t: "tableAt table h"
    and m: "techMatchesRef < length h" "h ! techMatchesRef = MatchesObject techMatches"
    and w: "wafRef < length h" "h ! wafRef = WafObject waf"
    and s: "serverRef < length h" "h ! serverRef = ServerObject serverInfo"
  shows "\<exists>ys. buildVerdictOn table technologiesRef techMatchesRef wafRef serverRef h
               = Some (buildVerdict technologies techMatches waf serverInfo, h @ ys)"
proof -
  define pCms where "pCms = pickTop techMatches Cms"
  define pFrontend where "pFrontend = pickTop techMatches Frontend"
  define pHosting where "pHosting = pickTop techMatches Hosting"
  define pCdn where "pCdn = pickTop techMatches Cdn"
  from pickTopOn_run [OF m, of Cms] obtain x1
    where p1: "pickTopOn techMatchesRef Cms h = Some (pCms, h @ x1)"
    unfolding pCms_def by blast
  from pickTopOn_run_append [OF m, of Frontend x1] obtain x2
    where p2: "pickTopOn techMatchesRef Frontend (h @ x1) = Some (pFrontend, h @ x2)"
    unfolding pFrontend_def by blast
  from pickTopOn_run_append [OF m, of Hosting x2] obtain x3
    where p3: "pickTopOn techMatchesRef Hosting (h @ x2) = Some (pHosting, h @ x3)"
    unfolding pHosting_def by blast
  from pickTopOn_run_append [OF m, of Cdn x3] obtain x4
    where p4': "pickTopOn techMatchesRef Cdn (h @ x3) = Some (pCdn, h @ x4)"
    unfolding pCdn_def by blast
  define pre where "pre = h @ x4"
  define n where "n = length pre"
  from p4' have p4: "pickTopOn techMatchesRef Cdn (h @ x3) = Some (pCdn, pre)"
    by (simp add: pre_def)
  have pw: "wafRef < length pre" "pre ! wafRef = WafObject waf"
    using w by (simp_all add: pre_def nth_append)
  have a1: "alloc (Strings []) pre = Some (n, pre @ [Strings []])"
    by (simp add: alloc_def n_def)
  have a2: "alloc (Strings []) (pre @ [Strings []]) = Some (Suc n, pre @ [Strings [], Strings []])"
    by (simp add: alloc_def n_def)
  have a3: "alloc (InferredObject n (Suc n)) (pre @ [Strings [], Strings []])
            = Some (Suc (Suc n), pre @ [Strings [], Strings [], InferredObject n (Suc n)])"
    by (simp add: alloc_def n_def)
  define r1 where "r1 = addInference pCms \<lparr>languages = [], databases = []\<rparr>"
  define r2 where "r2 = addInference pFrontend r1"
  obtain l1 d1 where r1: "r1 = \<lparr>languages = l1, databases = d1\<rparr>" by (cases r1)
  obtain l2 d2 where r2: "r2 = \<lparr>languages = l2, databases = d2\<rparr>" by (cases r2)
  have nn: "n = length h + length x4" by (simp add: n_def pre_def)
  have i1: "addInferenceOn table (Suc (Suc n)) pCms
              (pre @ [Strings [], Strings [], InferredObject n (Suc n)])
            = Some ((), pre @ [Strings l1, Strings d1, InferredObject n (Suc n)])"
    using addInferenceOn_run [OF t nn, of pCms "[]" "[]"] r1 unfolding r1_def by (simp add: pre_def)
  have i2: "addInferenceOn table (Suc (Suc n)) pFrontend
              (pre @ [Strings l1, Strings d1, InferredObject n (Suc n)])
            = Some ((), pre @ [Strings l2, Strings d2, InferredObject n (Suc n)])"
    using addInferenceOn_run [OF t nn, of pFrontend l1 d1] r1 r2 unfolding r2_def by (simp add: pre_def)
  have sv: "readCell serverRef (pre @ [Strings l2, Strings d2, InferredObject n (Suc n)])
            = Some (ServerObject serverInfo, pre @ [Strings l2, Strings d2, InferredObject n (Suc n)])"
    using s by (simp add: readCell_def pre_def nth_append)
  define blob where "blob = toLowerCase (software serverInfo @ '' ''
                               @ (case poweredBy serverInfo of None \<Rightarrow> [] | Some p \<Rightarrow> p))"
  define langs where "langs = deduplicateArray (l2 @ bannerLanguages blob)"
  define dbs where "dbs = deduplicateArray d2"
  define parts where "parts = summaryLine ''CMS'' pCms @ summaryLine ''Frontend'' pFrontend
                        @ summaryLine ''Hosting'' pHosting @ summaryLine ''CDN'' pCdn
                        @ (case waf of
                                 Undetected \<Rightarrow> []
                               | Detected provider confidence score \<Rightarrow>
                                   [''WAF: '' @ provider @ '' ('' @ confidence @ '')''])
                              @ (if langs \<noteq> [] then [''Language: '' @ join '', '' langs] else [])
                              @ (if dbs \<noteq> [] then [''Database: '' @ join '', '' dbs] else [])"
  define v where "v = \<lparr>vPrimary = \<lparr>primaryCms = pCms, primaryFrontend = pFrontend,
                                        primaryHosting = pHosting, primaryCdn = pCdn\<rparr>,
                           vInferred = \<lparr>languages = langs, databases = dbs\<rparr>,
                           vConfidence = confidenceFromScore
                             (max (max (pickConfidence pCms) (pickConfidence pFrontend))
                                  (max (pickConfidence pHosting) (pickConfidence pCdn))),
                           vSummary = join '' | '' parts\<rparr>"
  have e: "addInference (pickTop techMatches Frontend)
              (addInference (pickTop techMatches Cms) \<lparr>languages = [], databases = []\<rparr>)
           = \<lparr>languages = l2, databases = d2\<rparr>"
    using r2 by (simp add: r2_def r1_def pCms_def pFrontend_def)
  have pure: "buildVerdict technologies techMatches waf serverInfo = v"
    by (simp add: buildVerdict_def Let_def v_def parts_def langs_def dbs_def blob_def
                  pCms_def pFrontend_def pHosting_def pCdn_def e)
  obtain v' ys' where run: "buildVerdictOn table technologiesRef techMatchesRef wafRef serverRef h
                            = Some (v', pre @ ys')"
    and v': "v' = v"
    apply (simp only: buildVerdictOn_def andThen_def Let_def p1 p2 p3 p4 a1 a2 a3 i1 i2 sv
                      option.case prod.case cell.case
                      pushLanguageIf_run [OF n_def] dedupLanguages_run [OF n_def]
                      dedupDatabases_run [OF n_def] alloc_sixth [OF n_def]
                      pushPickLine_run [OF n_def] pushWafLine_run [OF n_def pw]
                      readInferred_third [OF n_def] pushLanguageLine_run [OF n_def]
                      pushDatabaseLine_run [OF n_def] readStrings_fourth [OF n_def]
                      readStrings_fifth [OF n_def] readStrings_sixth [OF n_def] yield_def)
    apply (simp add: v_def parts_def langs_def dbs_def blob_def bannerLanguages_def)
    done
  from run v' pure
  have "buildVerdictOn table technologiesRef techMatchesRef wafRef serverRef h
        = Some (buildVerdict technologies techMatches waf serverInfo, h @ (x4 @ ys'))"
    by (simp add: pre_def)
  then show ?thesis by (rule exI)
qed

text \<open>
  Claim C9. \<open>buildVerdict\<close> is a deterministic pure function that does not mutate its inputs.
  Take any store that holds the four arguments and the table of inferences. Then the call
  returns, its result is the value \<^const>\<open>buildVerdict\<close> of the contents of the arguments alone,
  and every cell that was in the store before the call stands unchanged after it: the call has
  written only to objects that it made itself. A second call with the same references, in the
  store that the first one left, returns the identical record and again changes no earlier cell.
\<close>

theorem buildVerdict_pure_on_store:
  assumes "tableAt table h"
    and "technologiesRef < length h" and "h ! technologiesRef = TechnologiesObject technologies"
    and "techMatchesRef < length h" and "h ! techMatchesRef = MatchesObject techMatches"
    and "wafRef < length h" and "h ! wafRef = WafObject waf"
    and "serverRef < length h" and "h ! serverRef = ServerObject serverInfo"
  shows "\<exists>h' h''.
           buildVerdictOn table technologiesRef techMatchesRef wafRef serverRef h
             = Some (buildVerdict technologies techMatches waf serverInfo, h')
         \<and> take (length h) h' = h
         \<and> buildVerdictOn table technologiesRef techMatchesRef wafRef serverRef h'
             = Some (buildVerdict technologies techMatches waf serverInfo, h'')
         \<and> take (length h) h'' = h"
proof -
  from buildVerdictOn_run [OF assms(1,4-9), of technologiesRef technologies] obtain ys
    where first: "buildVerdictOn table technologiesRef techMatchesRef wafRef serverRef h
                  = Some (buildVerdict technologies techMatches waf serverInfo, h @ ys)"
    by blast
  have "tableAt table (h @ ys)"
    using assms(1) by (rule tableAt_append)
  moreover have "techMatchesRef < length (h @ ys)" "(h @ ys) ! techMatchesRef = MatchesObject techMatches"
    "wafRef < length (h @ ys)" "(h @ ys) ! wafRef = WafObject waf"
    "serverRef < length (h @ ys)" "(h @ ys) ! serverRef = ServerObject serverInfo"
    using assms(4-9) by (simp_all add: nth_append)
  ultimately obtain zs
    where second: "buildVerdictOn table technologiesRef techMatchesRef wafRef serverRef (h @ ys)
                   = Some (buildVerdict technologies techMatches waf serverInfo, (h @ ys) @ zs)"
    using buildVerdictOn_run [of table "h @ ys" techMatchesRef techMatches wafRef waf serverRef
                                 serverInfo technologiesRef technologies]
    by blast
  have "take (length h) (h @ ys) = h" "take (length h) ((h @ ys) @ zs) = h"
    by simp_all
  with first second show ?thesis by blast
qed

text \<open>
  Witness for C9: the sample call, with Drupal before WordPress in the matches. Both calls
  return the same verdict, with WordPress as the CMS, and the 29 cells of the arguments and of
  the table are as they were.
\<close>

theorem buildVerdict_pure_on_store_witness:
  "tableAt sampleTable sampleStore
   \<and> sampleStore ! 0 = TechnologiesObject sampleTechnologies
   \<and> sampleStore ! 1 = MatchesObject sampleMatches
   \<and> sampleStore ! 2 = WafObject (Detected ''Cloudflare'' ''high'' 5)
   \<and> sampleStore ! 3 = ServerObject phpServer
   \<and> length sampleStore = 29
   \<and> (\<exists>h' h''. buildVerdictOn sampleTable 0 1 2 3 sampleStore = Some (sampleVerdict, h')
         \<and> take 29 h' = sampleStore
         \<and> buildVerdictOn sampleTable 0 1 2 3 h' = Some (sampleVerdict, h'')
         \<and> take 29 h'' = sampleStore)"
proof -
  have t: "tableAt sampleTable sampleStore"
    by code_simp
  have c: "sampleStore ! 0 = TechnologiesObject sampleTechnologies"
    "sampleStore ! 1 = MatchesObject sampleMatches"
    "sampleStore ! 2 = WafObject (Detected ''Cloudflare'' ''high'' 5)"
    "sampleStore ! 3 = ServerObject phpServer"
    by code_simp+
  have n: "length sampleStore = 29"
    by code_simp
  have v: "buildVerdict sampleTechnologies sampleMatches (Detected ''Cloudflare'' ''high'' 5) phpServer
           = sampleVerdict"
    by code_simp
  have "\<exists>h' h''. buildVerdictOn sampleTable 0 1 2 3 sampleStore = Some (sampleVerdict, h')
         \<and> take 29 h' = sampleStore
         \<and> buildVerdictOn sampleTable 0 1 2 3 h' = Some (sampleVerdict, h'')
         \<and> take 29 h'' = sampleStore"
    using buildVerdict_pure_on_store [of sampleTable sampleStore 0 sampleTechnologies 1 sampleMatches
                                         2 "Detected ''Cloudflare'' ''high'' 5" 3 phpServer, OF t]
          c n v
    by simp
  with t c n show ?thesis by blast
qed

end
